(* ===== verification/Xtrx_Prelude.thy ===== *)
theory Xtrx_Prelude
  imports Main "HOL-Library.Word"
begin

text \<open>
  Shared vocabulary of the development: machine integers at the widths of the C sources,
  signed comparisons of 64-bit counters, indexed updates of lists that stand for C arrays,
  loops with an early exit, and the rule collections the component theories use.
\<close>

unbundle bit_operations_syntax

section \<open>Machine integers\<close>

type_synonym u8 = "8 word"
type_synonym u16 = "16 word"
type_synonym u32 = "32 word"
type_synonym u64 = "64 word"

text \<open>
  \<open>int64_t\<close> values are kept as 64-bit words and read with \<^const>\<open>sint\<close>; the comparison
  operators of C on them are the two definitions below. The kernel is compiled with wrapping
  signed arithmetic, so subtraction of two counters is subtraction of words.
\<close>

definition slt :: "'a::len word \<Rightarrow> 'a word \<Rightarrow> bool" where
  "slt a b \<longleftrightarrow> sint a < sint b"

definition sgt :: "'a::len word \<Rightarrow> 'a word \<Rightarrow> bool" where
  "sgt a b \<longleftrightarrow> sint b < sint a"

named_theorems csr_defs \<open>the register addresses and constants of the C headers\<close>
named_theorems step_defs \<open>the definitions of the operations of a component\<close>
named_theorems frame \<open>what an operation leaves unchanged\<close>

subsection \<open>Reading words as numbers\<close>

lemma sint_of_nat_small: "n < 2 ^ 63 \<Longrightarrow> sint (of_nat n :: u64) = int n"
  by (simp add: sint_word_ariths(1) signed_of_nat signed_take_bit_int_eq_self)

lemma unat_of_nat_small: "n < 2 ^ LENGTH('a) \<Longrightarrow> unat (of_nat n :: 'a::len word) = n"
  by (simp add: unat_of_nat take_bit_nat_eq_self)

lemma slt_of_nat [simp]:
  "m < 2 ^ 63 \<Longrightarrow> n < 2 ^ 63 \<Longrightarrow> slt (of_nat m :: u64) (of_nat n) \<longleftrightarrow> m < n"
  by (simp add: slt_def sint_of_nat_small)

lemma sgt_of_nat [simp]:
  "m < 2 ^ 63 \<Longrightarrow> n < 2 ^ 63 \<Longrightarrow> sgt (of_nat m :: u64) (of_nat n) \<longleftrightarrow> n < m"
  by (simp add: sgt_def sint_of_nat_small)

text \<open>Comparisons of the distance between two counters.\<close>

lemma sgt_diff:
  assumes "S \<le> H" "H < 2 ^ 63" "n < 2 ^ 63"
  shows "sgt (of_nat H - of_nat S :: u64) (of_nat n) \<longleftrightarrow> n < H - S"
proof -
  have "(of_nat H - of_nat S :: u64) = of_nat (H - S)" using assms by simp
  moreover have "H - S < 2 ^ 63" using assms by linarith
  ultimately show ?thesis using sgt_of_nat [of "H - S" n] assms by (simp only:)
qed

lemma slt_diff:
  assumes "S \<le> H" "H < 2 ^ 63" "n < 2 ^ 63"
  shows "slt (of_nat H - of_nat S :: u64) (of_nat n) \<longleftrightarrow> H - S < n"
proof -
  have "(of_nat H - of_nat S :: u64) = of_nat (H - S)" using assms by simp
  moreover have "H - S < 2 ^ 63" using assms by linarith
  ultimately show ?thesis using slt_of_nat [of "H - S" n] assms by (simp only:)
qed

lemma bit_ones:
  "bit (0xffffffff :: u64) k \<longleftrightarrow> k < 32"
  "bit (0xffffffff :: u32) k \<longleftrightarrow> k < 32"
  "bit (0xffffffff :: int) k \<longleftrightarrow> k < 32"
proof -
  have "(0xffffffff :: u64) = mask 32" "(0xffffffff :: u32) = mask 32"
    "(0xffffffff :: int) = mask 32"
    by (simp_all add: mask_eq_exp_minus_1)
  then show "bit (0xffffffff :: u64) k \<longleftrightarrow> k < 32" "bit (0xffffffff :: u32) k \<longleftrightarrow> k < 32"
    "bit (0xffffffff :: int) k \<longleftrightarrow> k < 32"
    by (auto simp only: bit_mask_iff possible_bit_word possible_bit_int) simp_all
qed

lemma unat_u32_less [simp]: "unat (x :: u32) < 4294967296"
proof -
  have "unat x < 2 ^ LENGTH(32)" by (rule unsigned_less)
  then show ?thesis by simp
qed

lemma unat_ucast_u32 [simp]: "unat (ucast (x :: u32) :: u64) = unat x"
proof -
  have "unat x < 2 ^ 64" using unat_u32_less [of x] by (simp del: unat_u32_less)
  then show ?thesis by (simp add: unsigned_ucast_eq take_bit_nat_eq_self)
qed

lemma ucast_u32_inj [simp]: "(ucast (x :: u32) :: u64) = ucast y \<longleftrightarrow> x = y"
  by (metis unat_ucast_u32 word_unat_eq_iff)

lemma word_of_natI: "unat w = n \<Longrightarrow> w = of_nat n"
  by auto

lemma unat_drop_bit_div: "unat (drop_bit n w) = unat (w :: 'a::len word) div 2 ^ n"
  by (simp only: unat_drop_bit_eq) (simp only: drop_bit_eq_div)

lemma unat_take_bit_mod: "unat (take_bit n w) = unat (w :: 'a::len word) mod 2 ^ n"
  by (simp only: unsigned_take_bit_eq) (simp only: take_bit_eq_mod)

lemma unat_and_mask_mod:
  "unat (w AND mask n) = unat (w :: 'a::len word) mod 2 ^ n"
  using unat_take_bit_mod [of n w] by (simp only: take_bit_eq_mask)

lemma and_not_mask_eq: "w AND NOT (mask n) = push_bit n (drop_bit n (w :: 'a::len word))"
  by (rule bit_eqI) (auto simp: bit_simps)

lemma unat_keep_high:
  assumes "unat v < 2 ^ n"
  shows "unat ((w AND NOT (mask n)) OR v) = unat w div 2 ^ n * 2 ^ n + unat (v :: 'a::len word)"
proof -
  have wl: "unat w < 2 ^ LENGTH('a)" by (rule unsigned_less)
  have v: "\<not> bit v k" if "n \<le> k" for k
  proof
    assume "bit v k"
    then have "bit (unat v) k" by (simp add: bit_unsigned_iff)
    moreover have "unat v < 2 ^ k" using assms that by (meson less_le_trans one_le_numeral power_increasing)
    ultimately show False by (simp add: bit_iff_odd)
  qed
  have "(w AND NOT (mask n)) OR v = push_bit n (drop_bit n w) + v"
    unfolding and_not_mask_eq
    by (rule disjunctive_add [symmetric]) (metis v bit_push_bit_iff linorder_not_le)
  moreover have hi: "unat (push_bit n (drop_bit n w)) = unat w div 2 ^ n * 2 ^ n"
  proof -
    have "unat w div 2 ^ n * 2 ^ n < 2 ^ LENGTH('a)"
      using wl by (meson div_times_less_eq_dividend le_less_trans)
    then show ?thesis
      by (simp add: unsigned_push_bit_eq push_bit_eq_mult [where ?'a = nat] unat_drop_bit_eq drop_bit_eq_div [where ?'a = nat] take_bit_nat_eq_self)
  qed
  moreover have "unat w div 2 ^ n * 2 ^ n + unat v < 2 ^ LENGTH('a)"
  proof (cases "n \<le> LENGTH('a)")
    case True
    then obtain k where k: "LENGTH('a) = n + k" using le_Suc_ex by blast
    have "unat w div 2 ^ n < 2 ^ k"
      using wl
      by (metis k less_mult_imp_div_less mult.commute power_add)
    then have "(unat w div 2 ^ n + 1) * 2 ^ n \<le> 2 ^ k * 2 ^ n"
      by (intro mult_le_mono1) simp
    with assms show ?thesis by (simp add: k power_add mult.commute)
  next
    case False
    then have "unat w div 2 ^ n = 0"
      using wl by (meson div_less less_le_trans nat_le_linear one_le_numeral power_increasing)
    then show ?thesis by simp
  qed
  ultimately show ?thesis by (simp add: unat_word_ariths)
qed
lemma wrap_count:
  fixes P N K :: nat
  assumes "P \<le> N" "N < P + K"
  shows "if P div K * K + N mod K < P then P div K * K + N mod K + K = N
         else P div K * K + N mod K = N"
proof -
  have K: "0 < K" using assms by simp
  have P: "P = P div K * K + P mod K" and N: "N = N div K * K + N mod K" by simp_all
  have r: "P mod K < K" "N mod K < K" using K by simp_all
  have "N div K = P div K \<or> N div K = Suc (P div K)"
  proof -
    have "P div K \<le> N div K" using assms(1) by (rule div_le_mono)
    moreover have "N div K \<le> (P + K) div K" using assms(2) by (intro div_le_mono) simp
    moreover have "(P + K) div K = Suc (P div K)" using K div_add_self2 [of K P] by simp
    ultimately show ?thesis by linarith
  qed
  then show ?thesis
  proof
    assume "N div K = P div K"
    then have "P div K * K + N mod K = N" using N by simp
    then show ?thesis using assms by simp
  next
    assume "N div K = Suc (P div K)"
    then have *: "P div K * K + N mod K + K = N" using N by simp
    then have "P div K * K + N mod K < P" using assms by simp
    then show ?thesis using * by simp
  qed
qed
lemma sint_zero_word [simp]: "sint (0 :: 'a::len word) = 0"
  by simp

section \<open>C arrays as lists\<close>

lemma nth_update_same: "i < length xs \<Longrightarrow> xs[i := x] ! i = x"
  by simp

lemma upt_0_Cons: "0 < n \<Longrightarrow> [0..<n] = 0 # [1..<n]"
  by (simp add: upt_conv_Cons)

lemma mod_close:
  fixes a b k :: nat
  assumes "a mod k = b mod k" "a < b + k" "b < a + k"
  shows "a = b"
proof -
  have "x = y" if "x mod k = y mod k" "y \<le> x" "x < y + k" for x y
  proof -
    have "k dvd x - y" using that mod_eq_dvd_iff_nat [of y x k] by simp
    moreover have "x - y < k" using that by linarith
    ultimately have "x - y = 0" using nat_dvd_not_less [of "x - y" k] by blast
    then show ?thesis using that by simp
  qed
  from this [of a b] this [of b a] assms show ?thesis by (cases "b \<le> a") auto
qed

text \<open>A loop that stores one value per round.\<close>

lemma fold_update_other:
  "\<forall>j \<in> set js. p j \<noteq> q \<Longrightarrow> fold (\<lambda>j m. m(p j := v j)) js m q = m q"
  by (induction js arbitrary: m) auto

lemma fold_update_at:
  "distinct js \<Longrightarrow> inj_on p (set js) \<Longrightarrow> j \<in> set js
   \<Longrightarrow> fold (\<lambda>j m. m(p j := v j)) js m (p j) = v j"
proof (induction js arbitrary: m)
  case (Cons a js)
  show ?case
  proof (cases "j = a")
    case True
    then have "\<forall>k \<in> set js. p k \<noteq> p a" using Cons.prems by (auto simp: inj_on_def)
    then have "fold (\<lambda>j m. m(p j := v j)) js (m(p a := v a)) (p a) = (m(p a := v a)) (p a)"
      by (rule fold_update_other)
    then show ?thesis using True by (simp del: fun_upd_apply add: fun_upd_same)
  next
    case False
    then show ?thesis using Cons by simp
  qed
qed simp

end
