(* ===== verification/Csr_Map.thy ===== *)
theory Csr_Map
  imports Xtrx_Prelude
begin

text \<open>
  The constants of \<open>csr.h\<close>, \<open>config.h\<close>, \<open>flags.h\<close> and \<open>soc.h\<close> (under
  \<open>software/litepcie-kernel-module/\<close>) that the driver, the user library and the utilities
  use: register addresses as 32-bit words, bit positions as naturals, the geometry of the DMA
  rings and the register offsets inside one DMA channel. All of them are in the collection
  \<open>csr_defs\<close>.
\<close>

section \<open>Register addresses (csr.h) and DMA register offsets (config.h)\<close>

definition CSR_BASE :: u32 where [csr_defs]: "CSR_BASE = 0xf0000000"

definition CSR_UART_XOVER_RXTX_ADDR :: u32 where [csr_defs]: "CSR_UART_XOVER_RXTX_ADDR = CSR_BASE + 0x20"
definition CSR_UART_XOVER_RXEMPTY_ADDR :: u32 where [csr_defs]: "CSR_UART_XOVER_RXEMPTY_ADDR = CSR_BASE + 0x28"
definition CSR_ICAP_ADDR_ADDR :: u32 where [csr_defs]: "CSR_ICAP_ADDR_ADDR = CSR_BASE + 0x800"
definition CSR_ICAP_DATA_ADDR :: u32 where [csr_defs]: "CSR_ICAP_DATA_ADDR = CSR_BASE + 0x804"
definition CSR_ICAP_WRITE_ADDR :: u32 where [csr_defs]: "CSR_ICAP_WRITE_ADDR = CSR_BASE + 0x808"
definition CSR_FLASH_SPI_CONTROL_ADDR :: u32 where [csr_defs]: "CSR_FLASH_SPI_CONTROL_ADDR = CSR_BASE + 0x1000"
definition CSR_FLASH_SPI_STATUS_ADDR :: u32 where [csr_defs]: "CSR_FLASH_SPI_STATUS_ADDR = CSR_BASE + 0x1004"
definition CSR_FLASH_SPI_MOSI_ADDR :: u32 where [csr_defs]: "CSR_FLASH_SPI_MOSI_ADDR = CSR_BASE + 0x1008"
definition CSR_FLASH_SPI_MISO_ADDR :: u32 where [csr_defs]: "CSR_FLASH_SPI_MISO_ADDR = CSR_BASE + 0x1010"
definition CSR_CTRL_RESET_ADDR :: u32 where [csr_defs]: "CSR_CTRL_RESET_ADDR = CSR_BASE + 0x3000"
definition CSR_CTRL_SCRATCH_ADDR :: u32 where [csr_defs]: "CSR_CTRL_SCRATCH_ADDR = CSR_BASE + 0x3004"
definition CSR_FLASH_CS_N_OUT_ADDR :: u32 where [csr_defs]: "CSR_FLASH_CS_N_OUT_ADDR = CSR_BASE + 0x3800"
definition CSR_IDENTIFIER_MEM_BASE :: u32 where [csr_defs]: "CSR_IDENTIFIER_MEM_BASE = CSR_BASE + 0x4000"
definition CSR_PCIE_MSI_ENABLE_ADDR :: u32 where [csr_defs]: "CSR_PCIE_MSI_ENABLE_ADDR = CSR_BASE + 0x5800"
definition CSR_PCIE_MSI_CLEAR_ADDR :: u32 where [csr_defs]: "CSR_PCIE_MSI_CLEAR_ADDR = CSR_BASE + 0x5804"
definition CSR_PCIE_MSI_VECTOR_ADDR :: u32 where [csr_defs]: "CSR_PCIE_MSI_VECTOR_ADDR = CSR_BASE + 0x5808"
definition CSR_PCIE_DMA0_BASE :: u32 where [csr_defs]: "CSR_PCIE_DMA0_BASE = CSR_BASE + 0x6000"
definition CSR_PCIE_DMA0_WRITER_ENABLE_ADDR :: u32 where [csr_defs]: "CSR_PCIE_DMA0_WRITER_ENABLE_ADDR = CSR_BASE + 0x6000"
definition CSR_PCIE_DMA0_WRITER_TABLE_VALUE_ADDR :: u32 where [csr_defs]: "CSR_PCIE_DMA0_WRITER_TABLE_VALUE_ADDR = CSR_BASE + 0x6004"
definition CSR_PCIE_DMA0_WRITER_TABLE_WE_ADDR :: u32 where [csr_defs]: "CSR_PCIE_DMA0_WRITER_TABLE_WE_ADDR = CSR_BASE + 0x600c"
definition CSR_PCIE_DMA0_WRITER_TABLE_LOOP_PROG_N_ADDR :: u32 where [csr_defs]: "CSR_PCIE_DMA0_WRITER_TABLE_LOOP_PROG_N_ADDR = CSR_BASE + 0x6010"
definition CSR_PCIE_DMA0_WRITER_TABLE_LOOP_STATUS_ADDR :: u32 where [csr_defs]: "CSR_PCIE_DMA0_WRITER_TABLE_LOOP_STATUS_ADDR = CSR_BASE + 0x6014"
definition CSR_PCIE_DMA0_WRITER_TABLE_LEVEL_ADDR :: u32 where [csr_defs]: "CSR_PCIE_DMA0_WRITER_TABLE_LEVEL_ADDR = CSR_BASE + 0x6018"
definition CSR_PCIE_DMA0_WRITER_TABLE_RESET_ADDR :: u32 where [csr_defs]: "CSR_PCIE_DMA0_WRITER_TABLE_RESET_ADDR = CSR_BASE + 0x601c"
definition CSR_PCIE_DMA0_READER_ENABLE_ADDR :: u32 where [csr_defs]: "CSR_PCIE_DMA0_READER_ENABLE_ADDR = CSR_BASE + 0x6020"
definition CSR_PCIE_DMA0_READER_TABLE_VALUE_ADDR :: u32 where [csr_defs]: "CSR_PCIE_DMA0_READER_TABLE_VALUE_ADDR = CSR_BASE + 0x6024"
definition CSR_PCIE_DMA0_READER_TABLE_WE_ADDR :: u32 where [csr_defs]: "CSR_PCIE_DMA0_READER_TABLE_WE_ADDR = CSR_BASE + 0x602c"
definition CSR_PCIE_DMA0_READER_TABLE_LOOP_PROG_N_ADDR :: u32 where [csr_defs]: "CSR_PCIE_DMA0_READER_TABLE_LOOP_PROG_N_ADDR = CSR_BASE + 0x6030"
definition CSR_PCIE_DMA0_READER_TABLE_LOOP_STATUS_ADDR :: u32 where [csr_defs]: "CSR_PCIE_DMA0_READER_TABLE_LOOP_STATUS_ADDR = CSR_BASE + 0x6034"
definition CSR_PCIE_DMA0_READER_TABLE_LEVEL_ADDR :: u32 where [csr_defs]: "CSR_PCIE_DMA0_READER_TABLE_LEVEL_ADDR = CSR_BASE + 0x6038"
definition CSR_PCIE_DMA0_READER_TABLE_RESET_ADDR :: u32 where [csr_defs]: "CSR_PCIE_DMA0_READER_TABLE_RESET_ADDR = CSR_BASE + 0x603c"
definition CSR_PCIE_DMA0_LOOPBACK_ENABLE_ADDR :: u32 where [csr_defs]: "CSR_PCIE_DMA0_LOOPBACK_ENABLE_ADDR = CSR_BASE + 0x6040"
definition CSR_PCIE_DMA0_BUFFERING_READER_FIFO_CONTROL_ADDR :: u32 where [csr_defs]: "CSR_PCIE_DMA0_BUFFERING_READER_FIFO_CONTROL_ADDR = CSR_BASE + 0x604c"
definition CSR_PCIE_DMA0_BUFFERING_WRITER_FIFO_CONTROL_ADDR :: u32 where [csr_defs]: "CSR_PCIE_DMA0_BUFFERING_WRITER_FIFO_CONTROL_ADDR = CSR_BASE + 0x6054"
definition CSR_LMS7002M_CONTROL_ADDR :: u32 where [csr_defs]: "CSR_LMS7002M_CONTROL_ADDR = CSR_BASE + 0xd000"
definition CSR_LMS7002M_SPI_CONTROL_ADDR :: u32 where [csr_defs]: "CSR_LMS7002M_SPI_CONTROL_ADDR = CSR_BASE + 0xd00c"
definition CSR_LMS7002M_SPI_STATUS_ADDR :: u32 where [csr_defs]: "CSR_LMS7002M_SPI_STATUS_ADDR = CSR_BASE + 0xd010"
definition CSR_LMS7002M_SPI_MOSI_ADDR :: u32 where [csr_defs]: "CSR_LMS7002M_SPI_MOSI_ADDR = CSR_BASE + 0xd014"
definition CSR_LMS7002M_SPI_MISO_ADDR :: u32 where [csr_defs]: "CSR_LMS7002M_SPI_MISO_ADDR = CSR_BASE + 0xd018"
definition CSR_LMS7002M_TX_PATTERN_CONTROL_ADDR :: u32 where [csr_defs]: "CSR_LMS7002M_TX_PATTERN_CONTROL_ADDR = CSR_BASE + 0xd024"
definition CSR_UART_XOVER_TXFULL_ADDR :: u32 where [csr_defs]: "CSR_UART_XOVER_TXFULL_ADDR = CSR_BASE + 0x24"
definition CSR_UART_XOVER_EV_STATUS_ADDR :: u32 where [csr_defs]: "CSR_UART_XOVER_EV_STATUS_ADDR = CSR_BASE + 0x2c"
definition CSR_UART_XOVER_EV_PENDING_ADDR :: u32 where [csr_defs]: "CSR_UART_XOVER_EV_PENDING_ADDR = CSR_BASE + 0x30"
definition CSR_UART_XOVER_EV_ENABLE_ADDR :: u32 where [csr_defs]: "CSR_UART_XOVER_EV_ENABLE_ADDR = CSR_BASE + 0x34"
definition CSR_XADC_TEMPERATURE_ADDR :: u32 where [csr_defs]: "CSR_XADC_TEMPERATURE_ADDR = CSR_BASE + 0x1800"
definition CSR_XADC_VCCINT_ADDR :: u32 where [csr_defs]: "CSR_XADC_VCCINT_ADDR = CSR_BASE + 0x1804"
definition CSR_XADC_VCCAUX_ADDR :: u32 where [csr_defs]: "CSR_XADC_VCCAUX_ADDR = CSR_BASE + 0x1808"
definition CSR_XADC_VCCBRAM_ADDR :: u32 where [csr_defs]: "CSR_XADC_VCCBRAM_ADDR = CSR_BASE + 0x180c"
definition CSR_DNA_ID_ADDR :: u32 where [csr_defs]: "CSR_DNA_ID_ADDR = CSR_BASE + 0x2000"
definition CSR_VCTCXO_CONTROL_ADDR :: u32 where [csr_defs]: "CSR_VCTCXO_CONTROL_ADDR = CSR_BASE + 0xc000"
definition CSR_RF_SWITCHES_TX_ADDR :: u32 where [csr_defs]: "CSR_RF_SWITCHES_TX_ADDR = CSR_BASE + 0xc800"
definition CSR_RF_SWITCHES_RX_ADDR :: u32 where [csr_defs]: "CSR_RF_SWITCHES_RX_ADDR = CSR_BASE + 0xc804"
definition CSR_LMS7002M_DELAY_ADDR :: u32 where [csr_defs]: "CSR_LMS7002M_DELAY_ADDR = CSR_BASE + 0xd008"
definition CSR_LMS7002M_RX_PATTERN_CONTROL_ADDR :: u32 where [csr_defs]: "CSR_LMS7002M_RX_PATTERN_CONTROL_ADDR = CSR_BASE + 0xd028"
definition CSR_LMS7002M_RX_PATTERN_ERRORS_ADDR :: u32 where [csr_defs]: "CSR_LMS7002M_RX_PATTERN_ERRORS_ADDR = CSR_BASE + 0xd02c"

definition CSR_LMS7002M_CONTROL_RESET_OFFSET :: nat where [csr_defs]: "CSR_LMS7002M_CONTROL_RESET_OFFSET = 0"
definition CSR_LMS7002M_CONTROL_POWER_DOWN_OFFSET :: nat where [csr_defs]: "CSR_LMS7002M_CONTROL_POWER_DOWN_OFFSET = 1"
definition CSR_LMS7002M_CONTROL_TX_ENABLE_OFFSET :: nat where [csr_defs]: "CSR_LMS7002M_CONTROL_TX_ENABLE_OFFSET = 8"
definition CSR_LMS7002M_CONTROL_RX_ENABLE_OFFSET :: nat where [csr_defs]: "CSR_LMS7002M_CONTROL_RX_ENABLE_OFFSET = 9"
definition CSR_LMS7002M_CONTROL_TX_RX_LOOPBACK_ENABLE_OFFSET :: nat where [csr_defs]: "CSR_LMS7002M_CONTROL_TX_RX_LOOPBACK_ENABLE_OFFSET = 16"
definition CSR_LMS7002M_TX_PATTERN_CONTROL_ENABLE_OFFSET :: nat where [csr_defs]: "CSR_LMS7002M_TX_PATTERN_CONTROL_ENABLE_OFFSET = 0"
definition CSR_VCTCXO_CONTROL_SEL_OFFSET :: nat where [csr_defs]: "CSR_VCTCXO_CONTROL_SEL_OFFSET = 0"
definition CSR_LMS7002M_DELAY_TX_DELAY_OFFSET :: nat where [csr_defs]: "CSR_LMS7002M_DELAY_TX_DELAY_OFFSET = 0"
definition CSR_LMS7002M_DELAY_TX_DELAY_SIZE :: nat where [csr_defs]: "CSR_LMS7002M_DELAY_TX_DELAY_SIZE = 5"
definition CSR_LMS7002M_DELAY_RX_DELAY_OFFSET :: nat where [csr_defs]: "CSR_LMS7002M_DELAY_RX_DELAY_OFFSET = 8"
definition CSR_LMS7002M_DELAY_RX_DELAY_SIZE :: nat where [csr_defs]: "CSR_LMS7002M_DELAY_RX_DELAY_SIZE = 5"
definition CSR_LMS7002M_RX_PATTERN_CONTROL_ENABLE_OFFSET :: nat where [csr_defs]: "CSR_LMS7002M_RX_PATTERN_CONTROL_ENABLE_OFFSET = 0"

definition PCIE_DMA_WRITER_ENABLE_OFFSET :: u32 where [csr_defs]: "PCIE_DMA_WRITER_ENABLE_OFFSET = 0x0000"
definition PCIE_DMA_WRITER_TABLE_VALUE_OFFSET :: u32 where [csr_defs]: "PCIE_DMA_WRITER_TABLE_VALUE_OFFSET = 0x0004"
definition PCIE_DMA_WRITER_TABLE_WE_OFFSET :: u32 where [csr_defs]: "PCIE_DMA_WRITER_TABLE_WE_OFFSET = 0x000c"
definition PCIE_DMA_WRITER_TABLE_LOOP_PROG_N_OFFSET :: u32 where [csr_defs]: "PCIE_DMA_WRITER_TABLE_LOOP_PROG_N_OFFSET = 0x0010"
definition PCIE_DMA_WRITER_TABLE_LOOP_STATUS_OFFSET :: u32 where [csr_defs]: "PCIE_DMA_WRITER_TABLE_LOOP_STATUS_OFFSET = 0x0014"
definition PCIE_DMA_WRITER_TABLE_LEVEL_OFFSET :: u32 where [csr_defs]: "PCIE_DMA_WRITER_TABLE_LEVEL_OFFSET = 0x0018"
definition PCIE_DMA_WRITER_TABLE_FLUSH_OFFSET :: u32 where [csr_defs]: "PCIE_DMA_WRITER_TABLE_FLUSH_OFFSET = 0x001c"
definition PCIE_DMA_READER_ENABLE_OFFSET :: u32 where [csr_defs]: "PCIE_DMA_READER_ENABLE_OFFSET = 0x0020"
definition PCIE_DMA_READER_TABLE_VALUE_OFFSET :: u32 where [csr_defs]: "PCIE_DMA_READER_TABLE_VALUE_OFFSET = 0x0024"
definition PCIE_DMA_READER_TABLE_WE_OFFSET :: u32 where [csr_defs]: "PCIE_DMA_READER_TABLE_WE_OFFSET = 0x002c"
definition PCIE_DMA_READER_TABLE_LOOP_PROG_N_OFFSET :: u32 where [csr_defs]: "PCIE_DMA_READER_TABLE_LOOP_PROG_N_OFFSET = 0x0030"
definition PCIE_DMA_READER_TABLE_LOOP_STATUS_OFFSET :: u32 where [csr_defs]: "PCIE_DMA_READER_TABLE_LOOP_STATUS_OFFSET = 0x0034"
definition PCIE_DMA_READER_TABLE_LEVEL_OFFSET :: u32 where [csr_defs]: "PCIE_DMA_READER_TABLE_LEVEL_OFFSET = 0x0038"
definition PCIE_DMA_READER_TABLE_FLUSH_OFFSET :: u32 where [csr_defs]: "PCIE_DMA_READER_TABLE_FLUSH_OFFSET = 0x003c"
definition PCIE_DMA_LOOPBACK_ENABLE_OFFSET :: u32 where [csr_defs]: "PCIE_DMA_LOOPBACK_ENABLE_OFFSET = 0x0040"
definition PCIE_DMA_BUFFERING_READER_FIFO_DEPTH_ADDR :: u32 where [csr_defs]: "PCIE_DMA_BUFFERING_READER_FIFO_DEPTH_ADDR = 0x0044"
definition PCIE_DMA_BUFFERING_READER_FIFO_LEVEL_ADDR :: u32 where [csr_defs]: "PCIE_DMA_BUFFERING_READER_FIFO_LEVEL_ADDR = 0x0048"
definition PCIE_DMA_BUFFERING_WRITER_FIFO_DEPTH_ADDR :: u32 where [csr_defs]: "PCIE_DMA_BUFFERING_WRITER_FIFO_DEPTH_ADDR = 0x004c"
definition PCIE_DMA_BUFFERING_WRITER_FIFO_LEVEL_ADDR :: u32 where [csr_defs]: "PCIE_DMA_BUFFERING_WRITER_FIFO_LEVEL_ADDR = 0x0050"

section \<open>Ring geometry and descriptor flags (config.h)\<close>

definition DMA_IRQ_DISABLE :: u32 where [csr_defs]: "DMA_IRQ_DISABLE = push_bit 24 1"
definition DMA_LAST_DISABLE :: u32 where [csr_defs]: "DMA_LAST_DISABLE = push_bit 25 1"

definition DMA_BUFFER_PER_IRQ :: nat where [csr_defs]: "DMA_BUFFER_PER_IRQ = 32"
definition DMA_BUFFER_COUNT :: nat where [csr_defs]: "DMA_BUFFER_COUNT = 256"
definition DMA_BUFFER_SIZE :: nat where [csr_defs]: "DMA_BUFFER_SIZE = 65536"

definition DMA_BUFFER_TOTAL_SIZE :: nat where
  [csr_defs]: "DMA_BUFFER_TOTAL_SIZE = DMA_BUFFER_COUNT * DMA_BUFFER_SIZE"

section \<open>SPI flags (flags.h), channel count and interrupt lines (soc.h), address space (mem.h)\<close>

definition SPI_CTRL_START :: u32 where [csr_defs]: "SPI_CTRL_START = 1"
definition SPI_CTRL_LENGTH :: u32 where [csr_defs]: "SPI_CTRL_LENGTH = push_bit 8 1"
definition SPI_STATUS_DONE :: u32 where [csr_defs]: "SPI_STATUS_DONE = 1"

definition DMA_CHANNELS :: nat where [csr_defs]: "DMA_CHANNELS = 1"
definition PCIE_DMA0_READER_INTERRUPT :: u32 where [csr_defs]: "PCIE_DMA0_READER_INTERRUPT = 0"
definition PCIE_DMA0_WRITER_INTERRUPT :: u32 where [csr_defs]: "PCIE_DMA0_WRITER_INTERRUPT = 1"
definition CSR_SIZE :: u64 where [csr_defs]: "CSR_SIZE = 0x00010000"

end
