(* ===== verification/Kernel_State.thy ===== *)
theory Kernel_State
  imports Csr_Map
begin

text \<open>
  The state of the kernel driver \<open>software/litepcie-kernel-module/main.c\<close> and its register
  accesses: the structs \<open>litepcie_dma_chan\<close>, \<open>litepcie_chan\<close>, \<open>litepcie_device\<close> and
  \<open>litepcie_chan_priv\<close> as records, the accessors \<open>litepcie_readl\<close> and
  \<open>litepcie_writel\<close>, and the interrupt mask operations.

  Everything outside the repository is one parameter, the record \<open>kenv\<close>: the FPGA answers
  a register read by a function of the whole history of accesses and the offset, the n-th
  coherent allocation returns an address (0 for NULL) and a bus handle, a copy from or to user
  space leaves a number of bytes uncopied, user memory has contents, a signal may be pending
  when a call would sleep, and the page tables translate and map pages. Accesses to BAR0 are recorded in order in the field \<open>mmio\<close>, at their
  64-bit offset from \<open>bar0_addr\<close>.
\<close>

section \<open>Structs\<close>

record litepcie_dma_chan =
  base :: u32
  writer_interrupt :: u32
  reader_interrupt :: u32
  reader_handle :: "u64 list"
  writer_handle :: "u64 list"
  reader_addr :: "u64 list"
  writer_addr :: "u64 list"
  reader_hw_count :: u64
  reader_hw_count_last :: u64
  reader_sw_count :: u64
  writer_hw_count :: u64
  writer_hw_count_last :: u64
  writer_sw_count :: u64
  writer_enable :: u8
  reader_enable :: u8
  writer_lock :: u8
  reader_lock :: u8

text \<open>
  \<open>litepcie_dev\<close> is the back pointer of a channel: it only ever is NULL or the device that
  holds the channel, so it is kept as "is not NULL". The wait queues have no state of their
  own here: a call that would sleep says so in its result.
\<close>

record litepcie_chan =
  litepcie_dev :: bool
  dma :: litepcie_dma_chan
  block_size :: u32
  index :: nat
  minor :: int

record litepcie_device =
  chan :: "litepcie_chan list"
  minor_base :: int
  irqs :: nat
  channels :: nat

record litepcie_chan_priv =
  priv_chan :: nat
  reader :: bool
  writer :: bool

section \<open>The world of the driver\<close>

datatype mmio_event = MWrite u64 u32 | MRead u64 u32 | MDelay nat

record kenv =
  dev_read :: "mmio_event list \<Rightarrow> u64 \<Rightarrow> u32"
  dma_alloc :: "nat \<Rightarrow> u64 \<times> u64"
  copy_fault :: "u64 \<Rightarrow> nat"
  user_data :: "u64 \<Rightarrow> u8 list"
  signal_pending :: bool
  phys_addr :: "u64 \<Rightarrow> u64"
  page_shift :: nat
  remap_ok :: "nat \<Rightarrow> bool"

record kstate = litepcie_device +
  mmio :: "mmio_event list"
  live :: "u64 list"
  nalloc :: nat
  dmem :: "u64 \<Rightarrow> u8 list"
  ucopies :: "(u64 \<times> u8 list) list"

text \<open>What a call does beside returning: it sleeps, or the kernel faults.\<close>

datatype kfault = NullDeref | OutOfBounds | BadFree | UseAfterFree

datatype 'a kresult = Ret 'a kstate | Sleep | Oops kfault

section \<open>Error numbers\<close>

definition ENODEV :: int where [csr_defs]: "ENODEV = 19"
definition ENOMEM :: int where [csr_defs]: "ENOMEM = 12"
definition EAGAIN :: int where [csr_defs]: "EAGAIN = 11"
definition EFAULT :: int where [csr_defs]: "EFAULT = 14"
definition EINVAL :: int where [csr_defs]: "EINVAL = 22"
definition EIO :: int where [csr_defs]: "EIO = 5"
definition EEXIST :: int where [csr_defs]: "EEXIST = 17"
definition ERESTARTSYS :: int where [csr_defs]: "ERESTARTSYS = 512"
definition ENOIOCTLCMD :: int where [csr_defs]: "ENOIOCTLCMD = 515"

section \<open>Access to one channel\<close>

abbreviation dma_of :: "nat \<Rightarrow> kstate \<Rightarrow> litepcie_dma_chan" where
  "dma_of i s \<equiv> dma (chan s ! i)"

definition upd_chan :: "nat \<Rightarrow> (litepcie_chan \<Rightarrow> litepcie_chan) \<Rightarrow> kstate \<Rightarrow> kstate" where
  "upd_chan i f s = s\<lparr>chan := (chan s)[i := f (chan s ! i)]\<rparr>"

definition upd_dma :: "nat \<Rightarrow> (litepcie_dma_chan \<Rightarrow> litepcie_dma_chan) \<Rightarrow> kstate \<Rightarrow> kstate" where
  "upd_dma i f s = upd_chan i (\<lambda>c. c\<lparr>dma := f (dma c)\<rparr>) s"

lemma upd_dma_simps [simp]:
  "length (chan (upd_dma i f s)) = length (chan s)"
  "mmio (upd_dma i f s) = mmio s"
  "live (upd_dma i f s) = live s"
  "nalloc (upd_dma i f s) = nalloc s"
  "dmem (upd_dma i f s) = dmem s"
  "ucopies (upd_dma i f s) = ucopies s"
  "channels (upd_dma i f s) = channels s"
  "irqs (upd_dma i f s) = irqs s"
  "minor_base (upd_dma i f s) = minor_base s"
  by (simp_all add: upd_dma_def upd_chan_def)

lemma dma_upd_dma [simp]:
  "i < length (chan s) \<Longrightarrow> dma_of i (upd_dma i f s) = f (dma_of i s)"
  by (simp add: upd_dma_def upd_chan_def)

lemma dma_upd_dma_other [simp]:
  "i \<noteq> j \<Longrightarrow> chan (upd_dma i f s) ! j = chan s ! j"
  by (simp add: upd_dma_def upd_chan_def)

lemma chan_upd_dma_fields [simp]:
  "litepcie_dev (chan (upd_dma i f s) ! j) = litepcie_dev (chan s ! j)"
  "block_size (chan (upd_dma i f s) ! j) = block_size (chan s ! j)"
  "index (chan (upd_dma i f s) ! j) = index (chan s ! j)"
  "minor (chan (upd_dma i f s) ! j) = minor (chan s ! j)"
  by (cases "i = j"; cases "j < length (chan s)";
      simp add: upd_dma_def upd_chan_def list_update_beyond)+

lemma upd_dma_compose [simp]:
  "i < length (chan s) \<Longrightarrow> upd_dma i g (upd_dma i f s) = upd_dma i (\<lambda>d. g (f d)) s"
  by (simp add: upd_dma_def upd_chan_def)

lemma upd_dma_mmio:
  "upd_dma i f (s\<lparr>mmio := m\<rparr>) = (upd_dma i f s)\<lparr>mmio := m\<rparr>"
  by (simp add: upd_dma_def upd_chan_def)

section \<open>Register accesses\<close>

definition bar_offset :: "u32 \<Rightarrow> u64" where
  "bar_offset addr = ucast addr - ucast CSR_BASE"

definition litepcie_readl :: "kenv \<Rightarrow> u32 \<Rightarrow> kstate \<Rightarrow> u32 \<times> kstate" where
  "litepcie_readl e addr s =
     (let val = dev_read e (mmio s) (bar_offset addr)
      in (val, s\<lparr>mmio := mmio s @ [MRead (bar_offset addr) val]\<rparr>))"

definition litepcie_writel :: "u32 \<Rightarrow> u32 \<Rightarrow> kstate \<Rightarrow> kstate" where
  "litepcie_writel addr val s = s\<lparr>mmio := mmio s @ [MWrite (bar_offset addr) val]\<rparr>"

definition udelay :: "nat \<Rightarrow> kstate \<Rightarrow> kstate" where
  "udelay us s = s\<lparr>mmio := mmio s @ [MDelay us]\<rparr>"

lemma writel_simps [simp]:
  "chan (litepcie_writel a v s) = chan s"
  "mmio (litepcie_writel a v s) = mmio s @ [MWrite (bar_offset a) v]"
  "live (litepcie_writel a v s) = live s"
  "nalloc (litepcie_writel a v s) = nalloc s"
  "dmem (litepcie_writel a v s) = dmem s"
  "ucopies (litepcie_writel a v s) = ucopies s"
  "channels (litepcie_writel a v s) = channels s"
  "irqs (litepcie_writel a v s) = irqs s"
  "minor_base (litepcie_writel a v s) = minor_base s"
  by (simp_all add: litepcie_writel_def)

lemma udelay_simps [simp]:
  "chan (udelay n s) = chan s"
  "mmio (udelay n s) = mmio s @ [MDelay n]"
  "live (udelay n s) = live s"
  "nalloc (udelay n s) = nalloc s"
  "dmem (udelay n s) = dmem s"
  "ucopies (udelay n s) = ucopies s"
  "channels (udelay n s) = channels s"
  "irqs (udelay n s) = irqs s"
  "minor_base (udelay n s) = minor_base s"
  by (simp_all add: udelay_def)

lemma readl_simps [simp]:
  "fst (litepcie_readl e a s) = dev_read e (mmio s) (bar_offset a)"
  "chan (snd (litepcie_readl e a s)) = chan s"
  "mmio (snd (litepcie_readl e a s)) =
     mmio s @ [MRead (bar_offset a) (dev_read e (mmio s) (bar_offset a))]"
  "live (snd (litepcie_readl e a s)) = live s"
  "nalloc (snd (litepcie_readl e a s)) = nalloc s"
  "dmem (snd (litepcie_readl e a s)) = dmem s"
  "ucopies (snd (litepcie_readl e a s)) = ucopies s"
  "channels (snd (litepcie_readl e a s)) = channels s"
  "irqs (snd (litepcie_readl e a s)) = irqs s"
  "minor_base (snd (litepcie_readl e a s)) = minor_base s"
  by (simp_all add: litepcie_readl_def Let_def)

section \<open>Interrupt mask\<close>

definition litepcie_enable_interrupt :: "kenv \<Rightarrow> u32 \<Rightarrow> kstate \<Rightarrow> kstate" where
  "litepcie_enable_interrupt e irq_num s =
     (case litepcie_readl e CSR_PCIE_MSI_ENABLE_ADDR s of (v, s1) \<Rightarrow>
        litepcie_writel CSR_PCIE_MSI_ENABLE_ADDR (v OR push_bit (unat irq_num) 1) s1)"

definition litepcie_disable_interrupt :: "kenv \<Rightarrow> u32 \<Rightarrow> kstate \<Rightarrow> kstate" where
  "litepcie_disable_interrupt e irq_num s =
     (case litepcie_readl e CSR_PCIE_MSI_ENABLE_ADDR s of (v, s1) \<Rightarrow>
        litepcie_writel CSR_PCIE_MSI_ENABLE_ADDR (v AND NOT (push_bit (unat irq_num) 1)) s1)"

lemma irq_mask_simps [simp]:
  "chan (litepcie_enable_interrupt e n s) = chan s"
  "chan (litepcie_disable_interrupt e n s) = chan s"
  "live (litepcie_enable_interrupt e n s) = live s"
  "live (litepcie_disable_interrupt e n s) = live s"
  "nalloc (litepcie_enable_interrupt e n s) = nalloc s"
  "nalloc (litepcie_disable_interrupt e n s) = nalloc s"
  "dmem (litepcie_enable_interrupt e n s) = dmem s"
  "dmem (litepcie_disable_interrupt e n s) = dmem s"
  "ucopies (litepcie_enable_interrupt e n s) = ucopies s"
  "ucopies (litepcie_disable_interrupt e n s) = ucopies s"
  "channels (litepcie_enable_interrupt e n s) = channels s"
  "channels (litepcie_disable_interrupt e n s) = channels s"
  "irqs (litepcie_enable_interrupt e n s) = irqs s"
  "irqs (litepcie_disable_interrupt e n s) = irqs s"
  "minor_base (litepcie_enable_interrupt e n s) = minor_base s"
  "minor_base (litepcie_disable_interrupt e n s) = minor_base s"
  by (simp_all add: litepcie_enable_interrupt_def litepcie_disable_interrupt_def
        split_beta litepcie_readl_def Let_def)

lemma mmio_enable_interrupt:
  "mmio (litepcie_enable_interrupt e n s) =
     mmio s @ [MRead (bar_offset CSR_PCIE_MSI_ENABLE_ADDR)
                 (dev_read e (mmio s) (bar_offset CSR_PCIE_MSI_ENABLE_ADDR)),
               MWrite (bar_offset CSR_PCIE_MSI_ENABLE_ADDR)
                 (dev_read e (mmio s) (bar_offset CSR_PCIE_MSI_ENABLE_ADDR) OR push_bit (unat n) 1)]"
  by (simp add: litepcie_enable_interrupt_def litepcie_readl_def Let_def)

lemma mmio_disable_interrupt:
  "mmio (litepcie_disable_interrupt e n s) =
     mmio s @ [MRead (bar_offset CSR_PCIE_MSI_ENABLE_ADDR)
                 (dev_read e (mmio s) (bar_offset CSR_PCIE_MSI_ENABLE_ADDR)),
               MWrite (bar_offset CSR_PCIE_MSI_ENABLE_ADDR)
                 (dev_read e (mmio s) (bar_offset CSR_PCIE_MSI_ENABLE_ADDR)
                    AND NOT (push_bit (unat n) 1))]"
  by (simp add: litepcie_disable_interrupt_def litepcie_readl_def Let_def)

end
