(* ===== verification/Kernel_Dma.thy ===== *)
theory Kernel_Dma
  imports Kernel_State
begin

text \<open>
  Buffers and engines of the driver (\<open>main.c\<close>): allocation and release of the coherent
  buffers of every channel, start and stop of the DMA writer (board to host) and of the DMA
  reader (host to board), and the emergency stop of all channels.

  A C loop over \<open>0 .. n-1\<close> is a recursion or a fold over \<open>[0..<n]\<close>. The argument \<open>nn\<close>
  of the functions that take a device pointer says that the pointer is not NULL.
\<close>

section \<open>Sequencing of calls that may fault\<close>

definition kbind :: "'a kresult \<Rightarrow> ('a \<Rightarrow> kstate \<Rightarrow> 'b kresult) \<Rightarrow> 'b kresult" where
  "kbind r f = (case r of Ret a s \<Rightarrow> f a s | Sleep \<Rightarrow> Sleep | Oops x \<Rightarrow> Oops x)"

lemma kbind_simps [simp]:
  "kbind (Ret a s) f = f a s"
  "kbind Sleep f = Sleep"
  "kbind (Oops x) f = Oops x"
  by (simp_all add: kbind_def)

lemma kbind_Ret_iff:
  "kbind r f = Ret b t \<longleftrightarrow> (\<exists>a s. r = Ret a s \<and> f a s = Ret b t)"
  by (cases r) auto

section \<open>Buffers\<close>

definition alloc_coherent :: "kenv \<Rightarrow> kstate \<Rightarrow> (u64 \<times> u64) \<times> kstate" where
  "alloc_coherent e s =
     (let r = dma_alloc e (nalloc s)
      in (r, s\<lparr>nalloc := Suc (nalloc s),
               live := (if fst r = 0 then live s else fst r # live s)\<rparr>))"

definition dma_free_coherent :: "u64 \<Rightarrow> kstate \<Rightarrow> unit kresult" where
  "dma_free_coherent p s =
     (if p = 0 then Ret () s
      else if p \<in> set (live s) then Ret () (s\<lparr>live := remove1 p (live s)\<rparr>)
      else Oops BadFree)"

fun dma_init_bufs :: "kenv \<Rightarrow> nat \<Rightarrow> nat list \<Rightarrow> kstate \<Rightarrow> bool \<times> kstate" where
  "dma_init_bufs e i [] s = (True, s)"
| "dma_init_bufs e i (j # js) s =
     (case alloc_coherent e s of ((ra, rh), s1) \<Rightarrow>
      case alloc_coherent e (upd_dma i (\<lambda>d. d\<lparr>reader_addr := (reader_addr d)[j := ra],
                                             reader_handle := (reader_handle d)[j := rh]\<rparr>) s1)
      of ((wa, wh), s2) \<Rightarrow>
        let s3 = upd_dma i (\<lambda>d. d\<lparr>writer_addr := (writer_addr d)[j := wa],
                                   writer_handle := (writer_handle d)[j := wh]\<rparr>) s2
        in if wa = 0 \<or> ra = 0 then (False, s3) else dma_init_bufs e i js s3)"

fun dma_init_chans :: "kenv \<Rightarrow> nat list \<Rightarrow> kstate \<Rightarrow> int \<times> kstate" where
  "dma_init_chans e [] s = (0, s)"
| "dma_init_chans e (i # is) s =
     (case dma_init_bufs e i [0..<DMA_BUFFER_COUNT] s of (ok, s1) \<Rightarrow>
        if ok then dma_init_chans e is s1 else (- ENOMEM, s1))"

definition litepcie_dma_init_cpu :: "kenv \<Rightarrow> bool \<Rightarrow> kstate \<Rightarrow> int \<times> kstate" where
  "litepcie_dma_init_cpu e nn s =
     (if \<not> nn then (- ENODEV, s) else dma_init_chans e [0..<channels s] s)"

fun dma_deinit_bufs :: "nat \<Rightarrow> nat list \<Rightarrow> kstate \<Rightarrow> unit kresult" where
  "dma_deinit_bufs i [] s = Ret () s"
| "dma_deinit_bufs i (j # js) s =
     kbind (dma_free_coherent (reader_addr (dma_of i s) ! j) s) (\<lambda>_ s1.
     kbind (dma_free_coherent (writer_addr (dma_of i s1) ! j) s1) (\<lambda>_ s2.
       dma_deinit_bufs i js s2))"

fun dma_deinit_chans :: "nat list \<Rightarrow> kstate \<Rightarrow> unit kresult" where
  "dma_deinit_chans [] s = Ret () s"
| "dma_deinit_chans (i # is) s =
     kbind (dma_deinit_bufs i [0..<DMA_BUFFER_COUNT] s) (\<lambda>_ s1. dma_deinit_chans is s1)"

definition litepcie_dma_deinit_cpu :: "kstate \<Rightarrow> int kresult" where
  "litepcie_dma_deinit_cpu s =
     kbind (dma_deinit_chans [0..<channels s] s) (\<lambda>_ s1. Ret 0 s1)"

section \<open>DMA writer: board to host\<close>

definition clear_writer_counts :: "litepcie_dma_chan \<Rightarrow> litepcie_dma_chan" where
  "clear_writer_counts d = d\<lparr>writer_hw_count := 0, writer_hw_count_last := 0, writer_sw_count := 0\<rparr>"

definition writer_fill_desc :: "litepcie_dma_chan \<Rightarrow> nat \<Rightarrow> kstate \<Rightarrow> kstate" where
  "writer_fill_desc d i s =
     (let s = litepcie_writel (base d + PCIE_DMA_WRITER_TABLE_VALUE_OFFSET)
                (DMA_LAST_DISABLE
                 OR (if i mod DMA_BUFFER_PER_IRQ = 0 then 0 else 1) * DMA_IRQ_DISABLE
                 OR of_nat DMA_BUFFER_SIZE) s;
          s = litepcie_writel (base d + PCIE_DMA_WRITER_TABLE_VALUE_OFFSET + 4)
                (ucast (drop_bit 0 (writer_handle d ! i) AND 0xffffffff)) s
      in litepcie_writel (base d + PCIE_DMA_WRITER_TABLE_WE_OFFSET)
           (ucast (drop_bit 32 (writer_handle d ! i) AND 0xffffffff)) s)"

definition litepcie_dma_writer_start :: "bool \<Rightarrow> nat \<Rightarrow> kstate \<Rightarrow> int \<times> kstate" where
  "litepcie_dma_writer_start nn chan_num s =
     (if \<not> nn then (- ENODEV, s) else
      let d = dma_of chan_num s;
          s = litepcie_writel (base d + PCIE_DMA_WRITER_ENABLE_OFFSET) 0 s;
          s = litepcie_writel (base d + PCIE_DMA_WRITER_TABLE_FLUSH_OFFSET) 1 s;
          s = litepcie_writel (base d + PCIE_DMA_WRITER_TABLE_LOOP_PROG_N_OFFSET) 0 s;
          s = fold (writer_fill_desc d) [0..<DMA_BUFFER_COUNT] s;
          s = litepcie_writel (base d + PCIE_DMA_WRITER_TABLE_LOOP_PROG_N_OFFSET) 1 s;
          s = upd_dma chan_num clear_writer_counts s;
          s = litepcie_writel (base d + PCIE_DMA_WRITER_ENABLE_OFFSET) 1 s
      in (0, s))"

definition litepcie_dma_writer_stop :: "bool \<Rightarrow> nat \<Rightarrow> kstate \<Rightarrow> int \<times> kstate" where
  "litepcie_dma_writer_stop nn chan_num s =
     (if \<not> nn then (- ENODEV, s) else
      let d = dma_of chan_num s;
          s = litepcie_writel (base d + PCIE_DMA_WRITER_TABLE_LOOP_PROG_N_OFFSET) 0 s;
          s = litepcie_writel (base d + PCIE_DMA_WRITER_TABLE_FLUSH_OFFSET) 1 s;
          s = udelay 1000 s;
          s = litepcie_writel (base d + PCIE_DMA_WRITER_ENABLE_OFFSET) 0 s;
          s = litepcie_writel (base d + PCIE_DMA_WRITER_TABLE_FLUSH_OFFSET) 1 s;
          s = upd_dma chan_num clear_writer_counts s
      in (0, s))"

section \<open>DMA reader: host to board\<close>

definition clear_reader_counts :: "litepcie_dma_chan \<Rightarrow> litepcie_dma_chan" where
  "clear_reader_counts d = d\<lparr>reader_hw_count := 0, reader_hw_count_last := 0, reader_sw_count := 0\<rparr>"

definition reader_fill_desc :: "litepcie_dma_chan \<Rightarrow> nat \<Rightarrow> kstate \<Rightarrow> kstate" where
  "reader_fill_desc d i s =
     (let s = litepcie_writel (base d + PCIE_DMA_READER_TABLE_VALUE_OFFSET)
                (DMA_LAST_DISABLE
                 OR (if i mod DMA_BUFFER_PER_IRQ = 0 then 0 else 1) * DMA_IRQ_DISABLE
                 OR of_nat DMA_BUFFER_SIZE) s;
          s = litepcie_writel (base d + PCIE_DMA_READER_TABLE_VALUE_OFFSET + 4)
                (ucast (drop_bit 0 (reader_handle d ! i) AND 0xffffffff)) s
      in litepcie_writel (base d + PCIE_DMA_READER_TABLE_WE_OFFSET)
           (ucast (drop_bit 32 (reader_handle d ! i) AND 0xffffffff)) s)"

definition litepcie_dma_reader_start :: "bool \<Rightarrow> nat \<Rightarrow> kstate \<Rightarrow> int \<times> kstate" where
  "litepcie_dma_reader_start nn chan_num s =
     (if \<not> nn then (- ENODEV, s) else
      let d = dma_of chan_num s;
          s = litepcie_writel (base d + PCIE_DMA_READER_ENABLE_OFFSET) 0 s;
          s = litepcie_writel (base d + PCIE_DMA_READER_TABLE_FLUSH_OFFSET) 1 s;
          s = litepcie_writel (base d + PCIE_DMA_READER_TABLE_LOOP_PROG_N_OFFSET) 0 s;
          s = fold (reader_fill_desc d) [0..<DMA_BUFFER_COUNT] s;
          s = litepcie_writel (base d + PCIE_DMA_READER_TABLE_LOOP_PROG_N_OFFSET) 1 s;
          s = upd_dma chan_num clear_reader_counts s;
          s = litepcie_writel (base d + PCIE_DMA_READER_ENABLE_OFFSET) 1 s
      in (0, s))"

definition litepcie_dma_reader_stop :: "bool \<Rightarrow> nat \<Rightarrow> kstate \<Rightarrow> int \<times> kstate" where
  "litepcie_dma_reader_stop nn chan_num s =
     (if \<not> nn then (- ENODEV, s) else
      let d = dma_of chan_num s;
          s = litepcie_writel (base d + PCIE_DMA_READER_TABLE_LOOP_PROG_N_OFFSET) 0 s;
          s = litepcie_writel (base d + PCIE_DMA_READER_TABLE_FLUSH_OFFSET) 1 s;
          s = udelay 1000 s;
          s = litepcie_writel (base d + PCIE_DMA_READER_ENABLE_OFFSET) 0 s;
          s = litepcie_writel (base d + PCIE_DMA_READER_TABLE_FLUSH_OFFSET) 1 s;
          s = upd_dma chan_num clear_reader_counts s
      in (0, s))"

section \<open>All channels\<close>

definition stop_dma_chan :: "nat \<Rightarrow> kstate \<Rightarrow> kstate" where
  "stop_dma_chan i s =
     litepcie_writel (base (dma_of i s) + PCIE_DMA_READER_ENABLE_OFFSET) 0
       (litepcie_writel (base (dma_of i s) + PCIE_DMA_WRITER_ENABLE_OFFSET) 0 s)"

definition litepcie_stop_dma :: "kstate \<Rightarrow> kstate" where
  "litepcie_stop_dma s = fold stop_dma_chan [0..<channels s] s"

end
