(* ===== verification/Kernel_Engine.thy ===== *)
theory Kernel_Engine
  imports Kernel_Dma
begin

text \<open>
  What the two DMA engines are told by the driver. An engine of one direction is described by
  the offsets of its registers and replays the register writes it sees: an enable bit, a
  descriptor table filled through a staging register, a loop mode. The interface
  \<open>dma_direction\<close> states what starting and stopping one direction does to the registers and
  to the counters; its lemmas say what ring the engine is left with. It is interpreted for
  \<open>litepcie_dma_writer_start\<close>/\<open>stop\<close> and for \<open>litepcie_dma_reader_start\<close>/\<open>stop\<close>.
\<close>

section \<open>The register view of an engine\<close>

record engine_regs =
  r_enable :: u64
  r_flush :: u64
  r_prog :: u64
  r_value_hi :: u64
  r_value_lo :: u64
  r_we :: u64

definition writer_regs :: "u32 \<Rightarrow> engine_regs" where
  "writer_regs b = \<lparr>
     r_enable = bar_offset (b + PCIE_DMA_WRITER_ENABLE_OFFSET),
     r_flush = bar_offset (b + PCIE_DMA_WRITER_TABLE_FLUSH_OFFSET),
     r_prog = bar_offset (b + PCIE_DMA_WRITER_TABLE_LOOP_PROG_N_OFFSET),
     r_value_hi = bar_offset (b + PCIE_DMA_WRITER_TABLE_VALUE_OFFSET),
     r_value_lo = bar_offset (b + PCIE_DMA_WRITER_TABLE_VALUE_OFFSET + 4),
     r_we = bar_offset (b + PCIE_DMA_WRITER_TABLE_WE_OFFSET)\<rparr>"

definition reader_regs :: "u32 \<Rightarrow> engine_regs" where
  "reader_regs b = \<lparr>
     r_enable = bar_offset (b + PCIE_DMA_READER_ENABLE_OFFSET),
     r_flush = bar_offset (b + PCIE_DMA_READER_TABLE_FLUSH_OFFSET),
     r_prog = bar_offset (b + PCIE_DMA_READER_TABLE_LOOP_PROG_N_OFFSET),
     r_value_hi = bar_offset (b + PCIE_DMA_READER_TABLE_VALUE_OFFSET),
     r_value_lo = bar_offset (b + PCIE_DMA_READER_TABLE_VALUE_OFFSET + 4),
     r_we = bar_offset (b + PCIE_DMA_READER_TABLE_WE_OFFSET)\<rparr>"

text \<open>
  The layout of a descriptor, from the field offsets of \<open>csr.h\<close>
  (\<open>TABLE_VALUE_LENGTH\<close> at bit 32, \<open>IRQ_DISABLE\<close> at 56 and \<open>LAST_DISABLE\<close> at 57 of the
  64-bit register, whose upper half is written first; \<open>TABLE_WE_ADDRESS_MSB\<close> in the write
  strobe): a triple of the upper word, the low address word and the high address word.
\<close>

type_synonym desc = "u32 \<times> u32 \<times> u32"

definition desc_length :: "desc \<Rightarrow> u32" where
  "desc_length d = fst d AND 0xffffff"

definition desc_irq :: "desc \<Rightarrow> bool" where
  "desc_irq d \<longleftrightarrow> \<not> bit (fst d) 24"

definition desc_last_disable :: "desc \<Rightarrow> bool" where
  "desc_last_disable d \<longleftrightarrow> bit (fst d) 25"

definition desc_addr :: "desc \<Rightarrow> u64" where
  "desc_addr d = push_bit 32 (ucast (snd (snd d))) OR ucast (fst (snd d))"

record engine =
  eng_enable :: bool
  eng_loop :: bool
  eng_table :: "desc list"
  eng_hi :: u32
  eng_lo :: u32
  eng_hot :: bool  \<comment> \<open>a descriptor was written while the engine ran\<close>

fun engine_step :: "engine_regs \<Rightarrow> mmio_event \<Rightarrow> engine \<Rightarrow> engine" where
  "engine_step r (MWrite a v) g =
     (if a = r_enable r then g\<lparr>eng_enable := (v \<noteq> 0)\<rparr>
      else if a = r_flush r then g\<lparr>eng_table := []\<rparr>
      else if a = r_prog r then g\<lparr>eng_loop := (v \<noteq> 0)\<rparr>
      else if a = r_value_hi r then g\<lparr>eng_hi := v\<rparr>
      else if a = r_value_lo r then g\<lparr>eng_lo := v\<rparr>
      else if a = r_we r then
        g\<lparr>eng_table := eng_table g @ [(eng_hi g, eng_lo g, v)],
          eng_hot := eng_hot g \<or> eng_enable g\<rparr>
      else g)"
| "engine_step r (MRead a v) g = g"
| "engine_step r (MDelay n) g = g"

definition replay :: "engine_regs \<Rightarrow> mmio_event list \<Rightarrow> engine \<Rightarrow> engine" where
  "replay r evs g = fold (engine_step r) evs g"

lemma replay_simps [simp]:
  "replay r [] g = g"
  "replay r (e # es) g = replay r es (engine_step r e g)"
  "replay r (es @ fs) g = replay r fs (replay r es g)"
  by (simp_all add: replay_def)

section \<open>The traces of start and stop\<close>

definition desc_word :: "nat \<Rightarrow> u32" where
  "desc_word i = DMA_LAST_DISABLE
     OR (if i mod DMA_BUFFER_PER_IRQ = 0 then 0 else 1) * DMA_IRQ_DISABLE
     OR of_nat DMA_BUFFER_SIZE"

definition desc_of :: "u64 list \<Rightarrow> nat \<Rightarrow> desc" where
  "desc_of hs i = (desc_word i, ucast (drop_bit 0 (hs ! i) AND 0xffffffff),
                   ucast (drop_bit 32 (hs ! i) AND 0xffffffff))"

definition desc_trace :: "engine_regs \<Rightarrow> u64 list \<Rightarrow> nat \<Rightarrow> mmio_event list" where
  "desc_trace r hs i =
     (case desc_of hs i of (v, lo, hi) \<Rightarrow>
        [MWrite (r_value_hi r) v, MWrite (r_value_lo r) lo, MWrite (r_we r) hi])"

definition start_trace :: "engine_regs \<Rightarrow> u64 list \<Rightarrow> mmio_event list" where
  "start_trace r hs =
     [MWrite (r_enable r) 0, MWrite (r_flush r) 1, MWrite (r_prog r) 0]
     @ concat (map (desc_trace r hs) [0..<DMA_BUFFER_COUNT])
     @ [MWrite (r_prog r) 1, MWrite (r_enable r) 1]"

definition stop_trace :: "engine_regs \<Rightarrow> mmio_event list" where
  "stop_trace r =
     [MWrite (r_prog r) 0, MWrite (r_flush r) 1, MDelay 1000, MWrite (r_enable r) 0,
      MWrite (r_flush r) 1]"

lemma desc_addr_desc_of: "desc_addr (desc_of hs i) = hs ! i"
proof (rule bit_word_eqI)
  fix n assume "n < LENGTH(64)"
  then have n: "n < 64" by simp
  show "bit (desc_addr (desc_of hs i)) n = bit (hs ! i) n"
  proof (cases "n < 32")
    case True
    then show ?thesis
      by (simp add: desc_addr_def desc_of_def bit_or_iff bit_push_bit_iff bit_unsigned_iff
          bit_and_iff bit_drop_bit_eq bit_ones)
  next
    case False
    moreover have "n - 32 < 32" using n by simp
    ultimately show ?thesis using n
      by (simp add: desc_addr_def desc_of_def bit_or_iff bit_push_bit_iff bit_unsigned_iff
          bit_and_iff bit_drop_bit_eq bit_ones)
  qed
qed

lemma desc_word_cases:
  "desc_word i = (if i mod 32 = 0 then 0x2010000 else 0x3010000)"
  by (simp add: desc_word_def csr_defs)

lemma desc_fields:
  "desc_length (desc_of hs i) = 65536"
  "desc_irq (desc_of hs i) \<longleftrightarrow> i mod 32 = 0"
  "desc_last_disable (desc_of hs i)"
  by (simp_all add: desc_length_def desc_irq_def desc_last_disable_def desc_of_def
      desc_word_cases)

section \<open>The interface of one direction\<close>

abbreviation msi_enable :: u64 where
  "msi_enable \<equiv> bar_offset CSR_PCIE_MSI_ENABLE_ADDR"

definition engine_reg_set :: "engine_regs \<Rightarrow> u64 set" where
  "engine_reg_set r = {r_enable r, r_flush r, r_prog r, r_value_hi r, r_value_lo r, r_we r}"

locale dma_direction =
  fixes start :: "bool \<Rightarrow> nat \<Rightarrow> kstate \<Rightarrow> int \<times> kstate"
    and stop :: "bool \<Rightarrow> nat \<Rightarrow> kstate \<Rightarrow> int \<times> kstate"
    and regs :: "u32 \<Rightarrow> engine_regs"
    and handles :: "litepcie_dma_chan \<Rightarrow> u64 list"
    and clear :: "litepcie_dma_chan \<Rightarrow> litepcie_dma_chan"
  assumes start_null: "start False i s = (- ENODEV, s)"
    and stop_null: "stop False i s = (- ENODEV, s)"
    and start_eq: "start True i s =
      (0, (upd_dma i clear s)\<lparr>mmio := mmio s @
             start_trace (regs (base (dma_of i s))) (handles (dma_of i s))\<rparr>)"
    and stop_eq: "stop True i s =
      (0, (upd_dma i clear s)\<lparr>mmio := mmio s @ stop_trace (regs (base (dma_of i s)))\<rparr>)"
    and regs_distinct: "distinct [r_enable (regs b), r_flush (regs b), r_prog (regs b),
        r_value_hi (regs b), r_value_lo (regs b), r_we (regs b)]"
begin

lemma regs_neq1:
  "r_enable (regs b) \<noteq> r_flush (regs b)"
  "r_enable (regs b) \<noteq> r_prog (regs b)"
  "r_enable (regs b) \<noteq> r_value_hi (regs b)"
  "r_enable (regs b) \<noteq> r_value_lo (regs b)"
  "r_enable (regs b) \<noteq> r_we (regs b)"
  "r_flush (regs b) \<noteq> r_prog (regs b)"
  "r_flush (regs b) \<noteq> r_value_hi (regs b)"
  "r_flush (regs b) \<noteq> r_value_lo (regs b)"
  "r_flush (regs b) \<noteq> r_we (regs b)"
  "r_prog (regs b) \<noteq> r_value_hi (regs b)"
  "r_prog (regs b) \<noteq> r_value_lo (regs b)"
  "r_prog (regs b) \<noteq> r_we (regs b)"
  "r_value_hi (regs b) \<noteq> r_value_lo (regs b)"
  "r_value_hi (regs b) \<noteq> r_we (regs b)"
  "r_value_lo (regs b) \<noteq> r_we (regs b)"
  using regs_distinct [of b] by simp_all

lemmas regs_neq = regs_neq1 regs_neq1 [symmetric]

lemma replay_desc:
  "eng_enable (replay (regs b) (desc_trace (regs b) hs i) g) = eng_enable g"
  "eng_loop (replay (regs b) (desc_trace (regs b) hs i) g) = eng_loop g"
  "eng_table (replay (regs b) (desc_trace (regs b) hs i) g) = eng_table g @ [desc_of hs i]"
  "eng_hot (replay (regs b) (desc_trace (regs b) hs i) g) \<longleftrightarrow> eng_hot g \<or> eng_enable g"
  by (simp_all add: desc_trace_def desc_of_def regs_neq)

lemma replay_descs:
  "eng_enable (replay (regs b) (concat (map (desc_trace (regs b) hs) js)) g) = eng_enable g
    \<and> eng_loop (replay (regs b) (concat (map (desc_trace (regs b) hs) js)) g) = eng_loop g
    \<and> eng_table (replay (regs b) (concat (map (desc_trace (regs b) hs) js)) g)
        = eng_table g @ map (desc_of hs) js
    \<and> (\<not> eng_enable g \<longrightarrow>
        eng_hot (replay (regs b) (concat (map (desc_trace (regs b) hs) js)) g) = eng_hot g)"
  by (induction js arbitrary: g) (simp_all add: replay_desc)

lemma replay_start:
  "eng_enable (replay (regs b) (start_trace (regs b) hs) g)"
  "eng_loop (replay (regs b) (start_trace (regs b) hs) g)"
  "eng_table (replay (regs b) (start_trace (regs b) hs) g)
     = map (desc_of hs) [0..<DMA_BUFFER_COUNT]"
  "eng_hot (replay (regs b) (start_trace (regs b) hs) g) = eng_hot g"
  by (simp_all add: start_trace_def regs_neq replay_descs)

lemma replay_stop:
  "\<not> eng_enable (replay (regs b) (stop_trace (regs b)) g)"
  "\<not> eng_loop (replay (regs b) (stop_trace (regs b)) g)"
  "eng_table (replay (regs b) (stop_trace (regs b)) g) = []"
  "eng_hot (replay (regs b) (stop_trace (regs b)) g) = eng_hot g"
  by (simp_all add: stop_trace_def regs_neq)

text \<open>After a start the engine runs on exactly the driver's buffers, and was stopped while filled.\<close>

lemma started_ring:
  assumes "start True i s = (r, s')"
    and "g' = replay (regs (base (dma_of i s))) (drop (length (mmio s)) (mmio s')) g"
  shows "r = 0 \<and> eng_enable g' \<and> eng_loop g' \<and> eng_hot g' = eng_hot g
    \<and> eng_table g' = map (desc_of (handles (dma_of i s))) [0..<DMA_BUFFER_COUNT]"
  using assms by (auto simp: start_eq replay_start)

text \<open>After a stop it is disabled with an empty table.\<close>

lemma stopped_ring:
  assumes "stop True i s = (r, s')"
    and "g' = replay (regs (base (dma_of i s))) (drop (length (mmio s)) (mmio s')) g"
  shows "r = 0 \<and> \<not> eng_enable g' \<and> eng_table g' = [] \<and> \<not> eng_loop g'
    \<and> eng_hot g' = eng_hot g"
  using assms by (auto simp: stop_eq replay_stop)

text \<open>The sequences of the ioctl: start then unmask, mask then stop, with a last field update.\<close>

lemma start_unmask:
  assumes "i < length (chan s)" and "b = base (dma_of i s)"
    and "msi_enable \<notin> engine_reg_set (regs b)"
    and "s' = upd_dma i h (litepcie_enable_interrupt e n (snd (start True i s)))"
  shows "dma_of i s' = h (clear (dma_of i s))"
    and "replay (regs b) (drop (length (mmio s)) (mmio s')) g
         = replay (regs b) (start_trace (regs b) (handles (dma_of i s))) g"
    and "\<exists>v. last (mmio s') = MWrite msi_enable (v OR push_bit (unat n) 1)"
  using assms by (auto simp: start_eq mmio_enable_interrupt engine_reg_set_def)

lemma mask_stop:
  assumes "i < length (chan s)" and "b = base (dma_of i s)"
    and "msi_enable \<notin> engine_reg_set (regs b)"
    and "s' = upd_dma i h (snd (stop True i (litepcie_disable_interrupt e n s)))"
  shows "dma_of i s' = h (clear (dma_of i s))"
    and "replay (regs b) (drop (length (mmio s)) (mmio s')) g
         = replay (regs b) (stop_trace (regs b)) g"
    and "\<exists>v. mmio s' = mmio s @ [MRead msi_enable v,
           MWrite msi_enable (v AND NOT (push_bit (unat n) 1))] @ stop_trace (regs b)"
  using assms by (auto simp: stop_eq mmio_disable_interrupt engine_reg_set_def)

end

section \<open>The writer and the reader provide it\<close>

lemma bar_offset_inj:
  "bar_offset (b + x) = bar_offset (b + y) \<longleftrightarrow> x = y"
  "bar_offset b = bar_offset (b + y) \<longleftrightarrow> y = 0"
  by (simp_all add: bar_offset_def)

lemma fold_writer_fill_desc:
  "fold (writer_fill_desc d) js s =
     s\<lparr>mmio := mmio s @
        concat (map (desc_trace (writer_regs (base d)) (writer_handle d)) js)\<rparr>"
  by (induction js arbitrary: s)
    (simp_all add: writer_fill_desc_def desc_trace_def desc_of_def desc_word_def writer_regs_def
      litepcie_writel_def Let_def)

lemma fold_reader_fill_desc:
  "fold (reader_fill_desc d) js s =
     s\<lparr>mmio := mmio s @
        concat (map (desc_trace (reader_regs (base d)) (reader_handle d)) js)\<rparr>"
  by (induction js arbitrary: s)
    (simp_all add: reader_fill_desc_def desc_trace_def desc_of_def desc_word_def reader_regs_def
      litepcie_writel_def Let_def)

interpretation wr: dma_direction litepcie_dma_writer_start litepcie_dma_writer_stop
  writer_regs writer_handle clear_writer_counts
proof (unfold_locales, goal_cases)
  case 3
  show ?case
    by (simp add: litepcie_dma_writer_start_def Let_def fold_writer_fill_desc start_trace_def
        litepcie_writel_def upd_dma_mmio writer_regs_def)
next
  case 4
  show ?case
    by (simp add: litepcie_dma_writer_stop_def Let_def stop_trace_def
        litepcie_writel_def udelay_def upd_dma_mmio writer_regs_def)
next
  case (5 b)
  show ?case
    by (simp add: writer_regs_def add.assoc bar_offset_inj csr_defs)
qed (simp_all add: litepcie_dma_writer_start_def litepcie_dma_writer_stop_def)

interpretation rd: dma_direction litepcie_dma_reader_start litepcie_dma_reader_stop
  reader_regs reader_handle clear_reader_counts
proof (unfold_locales, goal_cases)
  case 3
  show ?case
    by (simp add: litepcie_dma_reader_start_def Let_def fold_reader_fill_desc start_trace_def
        litepcie_writel_def upd_dma_mmio reader_regs_def)
next
  case 4
  show ?case
    by (simp add: litepcie_dma_reader_stop_def Let_def stop_trace_def
        litepcie_writel_def udelay_def upd_dma_mmio reader_regs_def)
next
  case (5 b)
  show ?case
    by (simp add: reader_regs_def add.assoc bar_offset_inj csr_defs)
qed (simp_all add: litepcie_dma_reader_start_def litepcie_dma_reader_stop_def)

end
