(* ===== verification/Kernel_Irq.thy ===== *)
theory Kernel_Irq
  imports Kernel_Engine
begin

text \<open>
  The interrupt handler \<open>litepcie_interrupt\<close> of \<open>main.c\<close> (single MSI: \<open>csr.h\<close> defines
  \<open>CSR_PCIE_MSI_CLEAR_ADDR\<close>). Each engine reports its progress in a 32-bit loop status
  register, the number of completed turns of the ring in the upper half and the descriptor index
  in the lower half; the handler extends it to a 64-bit count of buffers. The lemmas say when
  the extension is exact and follow it along a run of interrupts.
\<close>

section \<open>The handler\<close>

fun ilog2 :: "nat \<Rightarrow> nat" where
  "ilog2 n = (if n < 2 then 0 else Suc (ilog2 (n div 2)))"

declare ilog2.simps [simp del]

definition update_hw_count :: "u32 \<Rightarrow> u64 \<Rightarrow> u64 \<Rightarrow> u64" where
  "update_hw_count loop_status hw_last cnt =
     (let cnt = cnt AND (scast (push_bit 16 (NOT (of_nat DMA_BUFFER_COUNT - 1 :: u32)))
                         AND 0xffffffffffff0000);
          cnt = cnt OR ucast (drop_bit 16 loop_status * of_nat DMA_BUFFER_COUNT
                              + (loop_status AND 0xffff))
      in if sgt hw_last cnt then cnt + push_bit (ilog2 DMA_BUFFER_COUNT + 16) 1 else cnt)"

definition irq_reader :: "kenv \<Rightarrow> nat \<Rightarrow> kstate \<Rightarrow> kstate" where
  "irq_reader e i s =
     (case litepcie_readl e (base (dma_of i s) + PCIE_DMA_READER_TABLE_LOOP_STATUS_OFFSET) s
      of (loop_status, s) \<Rightarrow>
        upd_dma i (\<lambda>d. let c = update_hw_count loop_status (reader_hw_count_last d)
                                 (reader_hw_count d)
                        in d\<lparr>reader_hw_count := c, reader_hw_count_last := c\<rparr>) s)"

definition irq_writer :: "kenv \<Rightarrow> nat \<Rightarrow> kstate \<Rightarrow> kstate" where
  "irq_writer e i s =
     (case litepcie_readl e (base (dma_of i s) + PCIE_DMA_WRITER_TABLE_LOOP_STATUS_OFFSET) s
      of (loop_status, s) \<Rightarrow>
        upd_dma i (\<lambda>d. let c = update_hw_count loop_status (writer_hw_count_last d)
                                 (writer_hw_count d)
                        in d\<lparr>writer_hw_count := c, writer_hw_count_last := c\<rparr>) s)"

definition irq_bit :: "u32 \<Rightarrow> u32" where
  "irq_bit n = push_bit (unat n) 1"

definition irq_chan :: "kenv \<Rightarrow> u32 \<Rightarrow> nat \<Rightarrow> u32 \<times> kstate \<Rightarrow> u32 \<times> kstate" where
  "irq_chan e irq_vector i cs =
     (case cs of (clear_mask, s) \<Rightarrow>
      let rb = irq_bit (reader_interrupt (dma_of i s));
          (clear_mask, s) =
            (if irq_vector AND rb \<noteq> 0 then (clear_mask OR rb, irq_reader e i s)
             else (clear_mask, s));
          wb = irq_bit (writer_interrupt (dma_of i s))
      in if irq_vector AND wb \<noteq> 0 then (clear_mask OR wb, irq_writer e i s)
         else (clear_mask, s))"

definition litepcie_interrupt :: "kenv \<Rightarrow> kstate \<Rightarrow> kstate" where
  "litepcie_interrupt e s =
     (case litepcie_readl e CSR_PCIE_MSI_VECTOR_ADDR s of (irq_vector, s) \<Rightarrow>
      case litepcie_readl e CSR_PCIE_MSI_ENABLE_ADDR s of (irq_enable, s) \<Rightarrow>
      case fold (irq_chan e (irq_vector AND irq_enable)) [0..<channels s] (0, s)
      of (clear_mask, s) \<Rightarrow> litepcie_writel CSR_PCIE_MSI_CLEAR_ADDR clear_mask s)"

section \<open>Extending the loop status is exact\<close>

text \<open>The status register of an engine that has moved \<open>n\<close> buffers since it was started.\<close>

definition loop_status_of :: "nat \<Rightarrow> u32" where
  "loop_status_of n = of_nat ((n div 256 mod 65536) * 65536 + n mod 256)"

lemma ilog2_ring: "ilog2 DMA_BUFFER_COUNT = 8"
  by (simp add: csr_defs ilog2.simps)

lemma keep_mask:
  "scast (push_bit 16 (NOT (of_nat DMA_BUFFER_COUNT - 1 :: u32))) AND (0xffffffffffff0000 :: u64)
   = NOT (mask 24)"
  by (simp add: csr_defs mask_eq_exp_minus_1)

lemma unat_loop_status:
  "unat (loop_status_of n) = (n div 256 mod 65536) * 65536 + n mod 256"
proof -
  have "(n div 256 mod 65536) * 65536 + n mod 256 < 2 ^ 32"
  proof -
    have "n div 256 mod 65536 \<le> 65535" "n mod 256 \<le> 255" by simp_all
    then show ?thesis by simp
  qed
  then show ?thesis
    unfolding loop_status_of_def by (intro unat_of_nat_small) simp
qed

lemma loop_status_turns: "unat (drop_bit 16 (loop_status_of n)) = n div 256 mod 65536"
  by (simp only: unat_drop_bit_div unat_loop_status) simp

lemma loop_status_index: "unat (loop_status_of n AND 0xffff) = n mod 256"
proof -
  have "(0xffff :: u32) = mask 16" by (simp add: mask_eq_exp_minus_1)
  moreover have "((n div 256 mod 65536) * 65536 + n mod 256) mod 2 ^ 16 = n mod 256"
    by (simp add: mod_less [where m = "n mod 256"])
  ultimately show ?thesis by (simp only: unat_and_mask_mod unat_loop_status)
qed

lemma loop_status_count:
  "unat (ucast (drop_bit 16 (loop_status_of n) * of_nat DMA_BUFFER_COUNT
           + (loop_status_of n AND 0xffff)) :: u64) = n mod 2 ^ 24"
proof -
  have split: "(n div 256 mod 65536) * 256 + n mod 256 = n mod 2 ^ 24"
    using mod_mult2_eq [of n 256 65536] by (simp add: mult.commute)
  have "n mod 2 ^ 24 < 2 ^ 32" by (simp add: mod_less_divisor [THEN less_trans])
  then have "(n div 256 mod 65536) * 256 + n mod 256 < 2 ^ 32" by (simp only: split)
  then have "unat (drop_bit 16 (loop_status_of n) * of_nat DMA_BUFFER_COUNT
           + (loop_status_of n AND 0xffff)) = (n div 256 mod 65536) * 256 + n mod 256"
    by (simp add: unat_word_ariths loop_status_turns loop_status_index csr_defs)
  then show ?thesis by (simp only: unat_ucast_u32 split)
qed

lemma update_hw_count_exact:
  assumes "P \<le> N" and "N < P + 2 ^ 24" and "N < 2 ^ 63"
  shows "update_hw_count (loop_status_of N) (of_nat P) (of_nat P) = of_nat N"
proof -
  let ?v = "ucast (drop_bit 16 (loop_status_of N) * of_nat DMA_BUFFER_COUNT
              + (loop_status_of N AND 0xffff)) :: u64"
  let ?c = "P div 2 ^ 24 * 2 ^ 24 + N mod 2 ^ 24"
  let ?w = "((of_nat P :: u64) AND NOT (mask 24)) OR ?v"
  have P: "unat (of_nat P :: u64) = P" using assms by (simp add: unat_of_nat_small)
  have "unat ?v < 2 ^ 24" by (simp only: loop_status_count) simp
  then have "unat ?w = ?c"
    by (simp only: unat_keep_high P loop_status_count)
  then have w: "?w = of_nat ?c" by (rule word_of_natI)
  have upd: "update_hw_count (loop_status_of N) (of_nat P) (of_nat P)
      = (if sgt (of_nat P) ?w then ?w + push_bit 24 1 else ?w)"
    by (simp add: update_hw_count_def Let_def keep_mask ilog2_ring)
  note wc = wrap_count [OF assms(1,2)]
  have c: "?c < 2 ^ 63" and P63: "P < 2 ^ 63" using wc assms by (auto split: if_splits)
  show ?thesis
  proof (cases "?c < P")
    case True
    have "of_nat ?c + push_bit 24 1 = (of_nat (?c + 2 ^ 24) :: u64)" by simp
    then show ?thesis using True wc c P63
      by (simp only: upd w sgt_of_nat if_True)
  next
    case False
    then show ?thesis using wc c P63
      by (simp only: upd w sgt_of_nat if_False)
  qed
qed

section \<open>The handler tracks the engines\<close>

text \<open>
  One channel with the interrupt lines of \<open>soc.h\<close>. What the handler does to it depends on the
  two status registers it reads; the environment says what they hold.
\<close>

definition irq_lines :: "kstate \<Rightarrow> bool" where
  "irq_lines s \<longleftrightarrow> channels s = 1 \<and> length (chan s) = 1
     \<and> reader_interrupt (dma_of 0 s) = PCIE_DMA0_READER_INTERRUPT
     \<and> writer_interrupt (dma_of 0 s) = PCIE_DMA0_WRITER_INTERRUPT"

lemma irq_reader_dma:
  "i < length (chan s) \<Longrightarrow> dma_of i (irq_reader e i s) =
     (let d = dma_of i s;
          ls = dev_read e (mmio s)
                 (bar_offset (base d + PCIE_DMA_READER_TABLE_LOOP_STATUS_OFFSET));
          c = update_hw_count ls (reader_hw_count_last d) (reader_hw_count d)
      in d\<lparr>reader_hw_count := c, reader_hw_count_last := c\<rparr>)"
  by (simp add: irq_reader_def litepcie_readl_def Let_def)

lemma irq_writer_dma:
  "i < length (chan s) \<Longrightarrow> dma_of i (irq_writer e i s) =
     (let d = dma_of i s;
          ls = dev_read e (mmio s)
                 (bar_offset (base d + PCIE_DMA_WRITER_TABLE_LOOP_STATUS_OFFSET));
          c = update_hw_count ls (writer_hw_count_last d) (writer_hw_count d)
      in d\<lparr>writer_hw_count := c, writer_hw_count_last := c\<rparr>)"
  by (simp add: irq_writer_def litepcie_readl_def Let_def)

lemma irq_reader_frame [simp]:
  "length (chan (irq_reader e i s)) = length (chan s)"
  "live (irq_reader e i s) = live s" "nalloc (irq_reader e i s) = nalloc s"
  "dmem (irq_reader e i s) = dmem s" "ucopies (irq_reader e i s) = ucopies s"
  "channels (irq_reader e i s) = channels s" "irqs (irq_reader e i s) = irqs s"
  by (simp_all add: irq_reader_def litepcie_readl_def Let_def)

lemma irq_writer_frame [simp]:
  "length (chan (irq_writer e i s)) = length (chan s)"
  "live (irq_writer e i s) = live s" "nalloc (irq_writer e i s) = nalloc s"
  "dmem (irq_writer e i s) = dmem s" "ucopies (irq_writer e i s) = ucopies s"
  "channels (irq_writer e i s) = channels s" "irqs (irq_writer e i s) = irqs s"
  by (simp_all add: irq_writer_def litepcie_readl_def Let_def)

text \<open>
  What the FPGA shows while one handler runs: the pending vector \<open>v\<close>, the enable mask \<open>en\<close>
  and the status of the two engines of the channel at \<open>b\<close>, which have moved \<open>nr\<close> and
  \<open>nw\<close> buffers.
\<close>

definition fpga_shows :: "kenv \<Rightarrow> u32 \<Rightarrow> u32 \<Rightarrow> u32 \<Rightarrow> nat \<Rightarrow> nat \<Rightarrow> bool" where
  "fpga_shows e b v en nr nw \<longleftrightarrow> (\<forall>h.
     dev_read e h (bar_offset CSR_PCIE_MSI_VECTOR_ADDR) = v
   \<and> dev_read e h (bar_offset CSR_PCIE_MSI_ENABLE_ADDR) = en
   \<and> dev_read e h (bar_offset (b + PCIE_DMA_READER_TABLE_LOOP_STATUS_OFFSET)) = loop_status_of nr
   \<and> dev_read e h (bar_offset (b + PCIE_DMA_WRITER_TABLE_LOOP_STATUS_OFFSET)) = loop_status_of nw)"

text \<open>The driver's counts are in step with engines that had moved \<open>pr\<close> and \<open>pw\<close> buffers.\<close>

definition counts_at :: "nat \<Rightarrow> nat \<Rightarrow> litepcie_dma_chan \<Rightarrow> bool" where
  "counts_at pr pw d \<longleftrightarrow>
     reader_hw_count d = of_nat pr \<and> reader_hw_count_last d = of_nat pr
   \<and> writer_hw_count d = of_nat pw \<and> writer_hw_count_last d = of_nat pw"

text \<open>The engine has moved less than one full turn of the status register since \<open>P\<close>.\<close>

definition within_turn :: "nat \<Rightarrow> nat \<Rightarrow> bool" where
  "within_turn P N \<longleftrightarrow> P \<le> N \<and> N < P + 2 ^ 24 \<and> N < 2 ^ 63"

lemma irq_bits: "irq_bit PCIE_DMA0_READER_INTERRUPT = 1" "irq_bit PCIE_DMA0_WRITER_INTERRUPT = 2"
  by (simp_all add: irq_bit_def csr_defs)

lemma and_one_two: "(w :: u32) AND 1 \<noteq> 0 \<longleftrightarrow> bit w 0" "(w :: u32) AND 2 \<noteq> 0 \<longleftrightarrow> bit w 1"
proof -
  have "w AND push_bit n 1 \<noteq> 0 \<longleftrightarrow> bit w n" if "n < 32" for n
  proof
    assume "w AND push_bit n 1 \<noteq> 0"
    then obtain k where "bit (w AND push_bit n 1) k" by (metis bit_eqI bit_0_eq bot_apply bot_bool_def)
    then show "bit w n" by (auto simp: bit_simps)
  next
    assume "bit w n"
    then have "bit (w AND push_bit n 1) n" using that by (simp add: bit_simps)
    then show "w AND push_bit n 1 \<noteq> 0" by auto
  qed
  from this [of 0] this [of 1] show "w AND 1 \<noteq> 0 \<longleftrightarrow> bit w 0" "w AND 2 \<noteq> 0 \<longleftrightarrow> bit w 1"
    by simp_all
qed

definition served :: "u32 \<Rightarrow> u32" where
  "served w = (if bit w 0 then 1 else 0) OR (if bit w 1 then 2 else 0)"

definition track :: "u32 \<Rightarrow> nat \<Rightarrow> nat \<Rightarrow> litepcie_dma_chan \<Rightarrow> litepcie_dma_chan" where
  "track w nr nw d =
     (let cr = update_hw_count (loop_status_of nr) (reader_hw_count_last d) (reader_hw_count d);
          cw = update_hw_count (loop_status_of nw) (writer_hw_count_last d) (writer_hw_count d);
          d1 = (if bit w 0 then d\<lparr>reader_hw_count := cr, reader_hw_count_last := cr\<rparr> else d)
      in if bit w 1 then d1\<lparr>writer_hw_count := cw, writer_hw_count_last := cw\<rparr> else d1)"

lemma irq_chan_one:
  assumes "irq_lines s" and "fpga_shows e (base (dma_of 0 s)) v en nr nw"
  shows "fst (irq_chan e w 0 (0, s)) = served w"
    and "dma_of 0 (snd (irq_chan e w 0 (0, s))) = track w nr nw (dma_of 0 s)"
    and "length (chan (snd (irq_chan e w 0 (0, s)))) = 1"
    and "channels (snd (irq_chan e w 0 (0, s))) = 1"
  using assms
  by (simp_all add: irq_chan_def irq_lines_def fpga_shows_def irq_reader_dma irq_writer_dma
      irq_bits and_one_two served_def track_def Let_def)

lemma interrupt_one_channel:
  assumes "irq_lines s" and "fpga_shows e (base (dma_of 0 s)) v en nr nw"
  shows "dma_of 0 (litepcie_interrupt e s) = track (v AND en) nr nw (dma_of 0 s)"
    and "last (mmio (litepcie_interrupt e s))
         = MWrite (bar_offset CSR_PCIE_MSI_CLEAR_ADDR) (served (v AND en))"
    and "irq_lines (litepcie_interrupt e s)"
proof -
  define s1 where "s1 = snd (litepcie_readl e CSR_PCIE_MSI_VECTOR_ADDR s)"
  define s2 where "s2 = snd (litepcie_readl e CSR_PCIE_MSI_ENABLE_ADDR s1)"
  have s2: "chan s2 = chan s" "channels s2 = 1"
    using assms(1) by (simp_all add: s2_def s1_def irq_lines_def)
  then have ir2: "irq_lines s2" and ev2: "fpga_shows e (base (dma_of 0 s2)) v en nr nw"
    using assms by (simp_all add: irq_lines_def)
  have irq: "litepcie_interrupt e s =
      (case irq_chan e (v AND en) 0 (0, s2) of (m, s3) \<Rightarrow>
         litepcie_writel CSR_PCIE_MSI_CLEAR_ADDR m s3)"
    using assms s2
    by (simp add: litepcie_interrupt_def litepcie_readl_def Let_def fpga_shows_def irq_lines_def
        s1_def s2_def)
  note one = irq_chan_one [OF ir2 ev2, of "v AND en"]
  show d: "dma_of 0 (litepcie_interrupt e s) = track (v AND en) nr nw (dma_of 0 s)"
    using one(2) s2(1) by (simp add: irq split_beta)
  show "last (mmio (litepcie_interrupt e s))
         = MWrite (bar_offset CSR_PCIE_MSI_CLEAR_ADDR) (served (v AND en))"
    using one(1) by (simp add: irq split_beta)
  show "irq_lines (litepcie_interrupt e s)"
    using one(3,4) assms(1) d
    by (simp add: irq split_beta irq_lines_def track_def Let_def)
qed

text \<open>A run of interrupts: at each the FPGA shows its vector, its mask and two positions.\<close>

fun irq_run :: "(kenv \<times> u32 \<times> u32 \<times> nat \<times> nat) list \<Rightarrow> kstate \<Rightarrow> kstate" where
  "irq_run [] s = s"
| "irq_run ((e, v, en, nr, nw) # xs) s = irq_run xs (litepcie_interrupt e s)"

fun irq_run_ok :: "u32 \<Rightarrow> nat \<Rightarrow> nat \<Rightarrow> (kenv \<times> u32 \<times> u32 \<times> nat \<times> nat) list \<Rightarrow> bool" where
  "irq_run_ok b pr pw [] = True"
| "irq_run_ok b pr pw ((e, v, en, nr, nw) # xs) =
     (fpga_shows e b v en nr nw \<and> within_turn pr nr \<and> within_turn pw nw
      \<and> irq_run_ok b (if bit (v AND en) 0 then nr else pr)
                    (if bit (v AND en) 1 then nw else pw) xs)"

text \<open>The positions of the engines when they last raised a served interrupt.\<close>

fun last_seen :: "nat \<Rightarrow> nat \<Rightarrow> (kenv \<times> u32 \<times> u32 \<times> nat \<times> nat) list \<Rightarrow> nat \<times> nat" where
  "last_seen pr pw [] = (pr, pw)"
| "last_seen pr pw ((e, v, en, nr, nw) # xs) =
     last_seen (if bit (v AND en) 0 then nr else pr) (if bit (v AND en) 1 then nw else pw) xs"

lemma counts_track:
  assumes "counts_at pr pw d" and "within_turn pr nr" and "within_turn pw nw"
  shows "counts_at (if bit w 0 then nr else pr) (if bit w 1 then nw else pw) (track w nr nw d)"
    and "base (track w nr nw d) = base d"
  using assms update_hw_count_exact
  by (simp_all add: counts_at_def within_turn_def track_def Let_def)

lemma irq_run_tracks:
  assumes "irq_lines s" and "base (dma_of 0 s) = b" and "counts_at pr pw (dma_of 0 s)"
    and "irq_run_ok b pr pw xs"
  shows "counts_at (fst (last_seen pr pw xs)) (snd (last_seen pr pw xs)) (dma_of 0 (irq_run xs s))"
  using assms
proof (induction b pr pw xs arbitrary: s rule: irq_run_ok.induct)
  case (1 b pr pw)
  then show ?case by simp
next
  case (2 b pr pw e v en nr nw xs)
  from "2.prems" have ok: "fpga_shows e (base (dma_of 0 s)) v en nr nw" "within_turn pr nr"
    "within_turn pw nw" by simp_all
  note one = interrupt_one_channel [OF "2.prems"(1) ok(1)]
  show ?case
    using "2.IH" [of "litepcie_interrupt e s"] "2.prems" one counts_track ok by simp
qed

end
