(* ===== verification/Kernel_File.thy ===== *)
theory Kernel_File
  imports Kernel_Irq "HOL-Library.Signed_Division"
begin

text \<open>
  The file operations of \<open>main.c\<close> except \<open>ioctl\<close>: open, release, read, write, mmap and
  poll. A read or write that would sleep in \<open>wait_event_interruptible\<close> has the result
  \<open>Sleep\<close>: nothing has changed yet, and the call is made again once an interrupt has woken it.
\<close>

section \<open>Open and release\<close>

definition litepcie_open :: "bool \<Rightarrow> nat \<Rightarrow> kstate \<Rightarrow> int \<times> litepcie_chan_priv option \<times> kstate" where
  "litepcie_open kzalloc_ok ci s =
     (if \<not> kzalloc_ok then (- ENOMEM, None, s) else
      let s = (if reader_enable (dma_of ci s) = 0 then upd_dma ci clear_reader_counts s else s);
          s = (if writer_enable (dma_of ci s) = 0 then upd_dma ci clear_writer_counts s else s)
      in (0, Some \<lparr>priv_chan = ci, reader = False, writer = False\<rparr>, s))"

definition release_reader :: "kenv \<Rightarrow> nat \<Rightarrow> kstate \<Rightarrow> kstate" where
  "release_reader e ci s =
     (let s = litepcie_disable_interrupt e (reader_interrupt (dma_of ci s)) s;
          s = snd (litepcie_dma_reader_stop True (index (chan s ! ci)) s)
      in upd_dma ci (\<lambda>d. d\<lparr>reader_lock := 0, reader_enable := 0\<rparr>) s)"

definition release_writer :: "kenv \<Rightarrow> nat \<Rightarrow> kstate \<Rightarrow> kstate" where
  "release_writer e ci s =
     (let s = litepcie_disable_interrupt e (writer_interrupt (dma_of ci s)) s;
          s = snd (litepcie_dma_writer_stop True (index (chan s ! ci)) s)
      in upd_dma ci (\<lambda>d. d\<lparr>writer_lock := 0, writer_enable := 0\<rparr>) s)"

definition litepcie_release :: "kenv \<Rightarrow> litepcie_chan_priv \<Rightarrow> kstate \<Rightarrow> int kresult" where
  "litepcie_release e f s =
     (let ci = priv_chan f in
      if \<not> litepcie_dev (chan s ! ci) then Oops NullDeref else
      let s = (if reader f then release_reader e ci s else s);
          s = (if writer f then release_writer e ci s else s)
      in kbind (litepcie_dma_deinit_cpu s) (\<lambda>_ s. Ret 0 s))"

section \<open>Access to a DMA buffer\<close>

text \<open>
  The index \<open>sw_count % DMA_BUFFER_COUNT\<close> is a remainder of signed integers, negative for a
  negative count, and the array access is not checked. A buffer pointer that is NULL or that has
  been freed faults when it is used.
\<close>

definition slot_index :: "u64 \<Rightarrow> int" where
  "slot_index cnt = sint cnt smod int DMA_BUFFER_COUNT"

definition slot :: "u64 list \<Rightarrow> u64 \<Rightarrow> u64 option" where
  "slot addrs cnt =
     (let i = slot_index cnt
      in if 0 \<le> i \<and> i < int (length addrs) then Some (addrs ! nat i) else None)"

definition buffer_fault :: "u64 \<Rightarrow> kstate \<Rightarrow> kfault option" where
  "buffer_fault p s =
     (if p = 0 then Some NullDeref else if p \<notin> set (live s) then Some UseAfterFree else None)"

definition copy_to_user :: "kenv \<Rightarrow> u64 \<Rightarrow> u64 \<Rightarrow> kstate \<Rightarrow> nat kresult" where
  "copy_to_user e dst p s =
     (let n = copy_fault e dst in
      if n \<ge> DMA_BUFFER_SIZE then Ret n s else
      case buffer_fault p s of
        Some x \<Rightarrow> Oops x
      | None \<Rightarrow> Ret n (s\<lparr>ucopies := ucopies s @ [(dst, take (DMA_BUFFER_SIZE - n) (dmem s p))]\<rparr>))"

definition copy_from_user :: "kenv \<Rightarrow> u64 \<Rightarrow> u64 \<Rightarrow> kstate \<Rightarrow> nat kresult" where
  "copy_from_user e p src s =
     (let n = copy_fault e src in
      case buffer_fault p s of
        Some x \<Rightarrow> Oops x
      | None \<Rightarrow> Ret n (s\<lparr>dmem := (dmem s)(p :=
                  take (DMA_BUFFER_SIZE - n) (user_data e src) @ replicate n 0)\<rparr>))"

section \<open>Read: board to user\<close>

definition user_addr :: "u64 \<Rightarrow> nat \<Rightarrow> nat \<Rightarrow> kstate \<Rightarrow> u64" where
  "user_addr data ci i s = data + ucast (block_size (chan s ! ci) * of_nat i)"

definition writer_pending :: "litepcie_dma_chan \<Rightarrow> u64" where
  "writer_pending d = writer_hw_count d - writer_sw_count d"

function read_loop ::
    "kenv \<Rightarrow> u64 \<Rightarrow> nat \<Rightarrow> nat \<Rightarrow> nat \<Rightarrow> nat \<Rightarrow> kstate \<Rightarrow> (int + nat \<times> nat) kresult" where
  "read_loop e data ci len i overflows s =
     (if len < DMA_BUFFER_SIZE then Ret (Inr (len, overflows)) s
      else if \<not> sgt (writer_pending (dma_of ci s)) 0 then Ret (Inr (len, overflows)) s
      else if sgt (writer_pending (dma_of ci s)) (of_nat (DMA_BUFFER_COUNT div 2)) then
        read_loop e data ci (len - DMA_BUFFER_SIZE) (i + 1) (overflows + 1)
          (upd_dma ci (\<lambda>d. d\<lparr>writer_sw_count := writer_sw_count d + 1\<rparr>) s)
      else case slot (writer_addr (dma_of ci s)) (writer_sw_count (dma_of ci s)) of
        None \<Rightarrow> Oops OutOfBounds
      | Some p \<Rightarrow>
          (case copy_to_user e (user_addr data ci i s) p s of
             Ret n s1 \<Rightarrow>
               if n \<noteq> 0 then Ret (Inl (- EFAULT)) s1
               else read_loop e data ci (len - DMA_BUFFER_SIZE) (i + 1) overflows
                      (upd_dma ci (\<lambda>d. d\<lparr>writer_sw_count := writer_sw_count d + 1\<rparr>) s1)
           | Sleep \<Rightarrow> Sleep
           | Oops x \<Rightarrow> Oops x))"
  by pat_completeness auto
termination
  by (relation "measure (\<lambda>(e, data, ci, len, i, ov, s). len)") (auto simp: csr_defs)

definition litepcie_read :: "kenv \<Rightarrow> bool \<Rightarrow> u64 \<Rightarrow> nat \<Rightarrow> litepcie_chan_priv \<Rightarrow> kstate \<Rightarrow> int kresult" where
  "litepcie_read e nonblock data sz f s =
     (let ci = priv_chan f; d = dma_of ci s in
      if \<not> litepcie_dev (chan s ! ci) then Ret (- ENODEV) s
      else if nonblock \<and> writer_hw_count d = writer_sw_count d then Ret (- EAGAIN) s
      else if \<not> nonblock \<and> \<not> sgt (writer_pending d) 0 then
        (if signal_pending e then Ret (- ERESTARTSYS) s else Sleep)
      else kbind (read_loop e data ci sz 0 0 s)
             (\<lambda>r s. case r of Inl er \<Rightarrow> Ret er s | Inr (len, overflows) \<Rightarrow> Ret (int (sz - len)) s))"

section \<open>Write: user to board\<close>

definition reader_pending :: "litepcie_dma_chan \<Rightarrow> u64" where
  "reader_pending d = reader_sw_count d - reader_hw_count d"

function write_loop ::
    "kenv \<Rightarrow> u64 \<Rightarrow> nat \<Rightarrow> nat \<Rightarrow> nat \<Rightarrow> nat \<Rightarrow> kstate \<Rightarrow> (int + nat \<times> nat) kresult" where
  "write_loop e data ci len i underflows s =
     (if len < DMA_BUFFER_SIZE then Ret (Inr (len, underflows)) s
      else if \<not> slt (reader_pending (dma_of ci s)) (of_nat (DMA_BUFFER_COUNT div 2)) then
        Ret (Inr (len, underflows)) s
      else if slt (reader_pending (dma_of ci s)) 0 then
        write_loop e data ci (len - DMA_BUFFER_SIZE) (i + 1) (underflows + 1)
          (upd_dma ci (\<lambda>d. d\<lparr>reader_sw_count := reader_sw_count d + 1\<rparr>) s)
      else case slot (reader_addr (dma_of ci s)) (reader_sw_count (dma_of ci s)) of
        None \<Rightarrow> Oops OutOfBounds
      | Some p \<Rightarrow>
          (case copy_from_user e p (user_addr data ci i s) s of
             Ret n s1 \<Rightarrow>
               if n \<noteq> 0 then Ret (Inl (- EFAULT)) s1
               else write_loop e data ci (len - DMA_BUFFER_SIZE) (i + 1) underflows
                      (upd_dma ci (\<lambda>d. d\<lparr>reader_sw_count := reader_sw_count d + 1\<rparr>) s1)
           | Sleep \<Rightarrow> Sleep
           | Oops x \<Rightarrow> Oops x))"
  by pat_completeness auto
termination
  by (relation "measure (\<lambda>(e, data, ci, len, i, uf, s). len)") (auto simp: csr_defs)

definition litepcie_write :: "kenv \<Rightarrow> bool \<Rightarrow> u64 \<Rightarrow> nat \<Rightarrow> litepcie_chan_priv \<Rightarrow> kstate \<Rightarrow> int kresult" where
  "litepcie_write e nonblock data sz f s =
     (let ci = priv_chan f; d = dma_of ci s in
      if \<not> litepcie_dev (chan s ! ci) then Ret (- ENODEV) s
      else if nonblock \<and> reader_hw_count d = reader_sw_count d then Ret (- EAGAIN) s
      else if \<not> nonblock \<and> \<not> slt (reader_pending d) (of_nat (DMA_BUFFER_COUNT div 2)) then
        (if signal_pending e then Ret (- ERESTARTSYS) s else Sleep)
      else kbind (write_loop e data ci sz 0 0 s)
             (\<lambda>r s. case r of Inl er \<Rightarrow> Ret er s | Inr (len, underflows) \<Rightarrow> Ret (int (sz - len)) s))"

section \<open>Poll and mmap\<close>

definition POLLIN :: u32 where [csr_defs]: "POLLIN = 0x0001"
definition POLLOUT :: u32 where [csr_defs]: "POLLOUT = 0x0004"
definition POLLRDNORM :: u32 where [csr_defs]: "POLLRDNORM = 0x0040"
definition POLLWRNORM :: u32 where [csr_defs]: "POLLWRNORM = 0x0100"

definition litepcie_poll :: "litepcie_chan_priv \<Rightarrow> kstate \<Rightarrow> u32" where
  "litepcie_poll f s =
     (let ci = priv_chan f; d = dma_of ci s in
      if \<not> litepcie_dev (chan s ! ci) then of_int (- ENODEV) else
      (if sgt (writer_pending d) 2 then POLLIN OR POLLRDNORM else 0)
      OR (if slt (reader_pending d) (of_nat (DMA_BUFFER_COUNT div 2)) then POLLOUT OR POLLWRNORM
          else 0))"

record vma =
  vm_start :: u64
  vm_end :: u64
  vm_pgoff :: u64

fun mmap_loop :: "kenv \<Rightarrow> u64 list \<Rightarrow> u64 \<Rightarrow> nat list \<Rightarrow> (u64 \<times> u64) list \<Rightarrow> int \<times> (u64 \<times> u64) list" where
  "mmap_loop e addrs start [] maps = (0, maps)"
| "mmap_loop e addrs start (i # is) maps =
     (let pfn = drop_bit (page_shift e) (phys_addr e (addrs ! i)) in
      if \<not> remap_ok e i then (- EAGAIN, maps)
      else mmap_loop e addrs start is (maps @ [(start + of_nat (i * DMA_BUFFER_SIZE), pfn)]))"

definition litepcie_mmap :: "kenv \<Rightarrow> vma \<Rightarrow> litepcie_chan_priv \<Rightarrow> kstate \<Rightarrow> int \<times> (u64 \<times> u64) list" where
  "litepcie_mmap e v f s =
     (let ci = priv_chan f; d = dma_of ci s in
      if \<not> litepcie_dev (chan s ! ci) then (- ENODEV, [])
      else if vm_end v - vm_start v \<noteq> of_nat DMA_BUFFER_TOTAL_SIZE then (- EINVAL, [])
      else if vm_pgoff v = 0 then
        mmap_loop e (reader_addr d) (vm_start v) [0..<DMA_BUFFER_COUNT] []
      else if vm_pgoff v = drop_bit (page_shift e) (of_nat DMA_BUFFER_TOTAL_SIZE) then
        mmap_loop e (writer_addr d) (vm_start v) [0..<DMA_BUFFER_COUNT] []
      else (- EINVAL, []))"

end
