(* ===== verification/Kernel_Stream.thy ===== *)
theory Kernel_Stream
  imports Kernel_File
begin

text \<open>
  What \<open>read\<close> and \<open>write\<close> of \<open>main.c\<close> transfer, in terms of buffer counts as natural
  numbers: which blocks are copied, from or to which slots of the ring and which user
  addresses, which blocks are skipped, and what is returned.
\<close>

declare read_loop.simps [simp del] write_loop.simps [simp del]

section \<open>Rings of buffers\<close>

text \<open>All buffers of a ring are allocated.\<close>

definition ring_ready :: "u64 list \<Rightarrow> kstate \<Rightarrow> bool" where
  "ring_ready addrs s \<longleftrightarrow> length addrs = DMA_BUFFER_COUNT
     \<and> (\<forall>p \<in> set addrs. p \<noteq> 0 \<and> p \<in> set (live s))"

abbreviation no_fault :: "kenv \<Rightarrow> bool" where
  "no_fault e \<equiv> (\<forall>a. copy_fault e a = 0)"

lemma slot_index_of_nat:
  "n < 2 ^ 63 \<Longrightarrow> slot_index (of_nat n) = int (n mod 256)"
  by (simp add: slot_index_def sint_of_nat_small csr_defs signed_modulo_int_def zmod_int sgn_if)

lemma slot_of_nat:
  "ring_ready addrs s \<Longrightarrow> n < 2 ^ 63 \<Longrightarrow> slot addrs (of_nat n) = Some (addrs ! (n mod 256))"
  by (simp add: slot_def slot_index_of_nat ring_ready_def csr_defs Let_def)

lemma ring_ready_fault:
  assumes "ring_ready addrs s"
  shows "buffer_fault (addrs ! (n mod 256)) s = None"
proof -
  have "addrs ! (n mod 256) \<in> set addrs"
    using assms by (intro nth_mem) (simp add: ring_ready_def csr_defs)
  then show ?thesis using assms by (simp add: buffer_fault_def ring_ready_def)
qed

lemma ring_ready_live [simp]:
  "ring_ready addrs (upd_dma ci f s) = ring_ready addrs s"
  "ring_ready addrs (s\<lparr>ucopies := u\<rparr>) = ring_ready addrs s"
  "ring_ready addrs (s\<lparr>dmem := m\<rparr>) = ring_ready addrs s"
  by (simp_all add: ring_ready_def)

lemma upd_dma_same: "f (dma_of i s) = dma_of i s \<Longrightarrow> upd_dma i f s = s"
  by (cases "i < length (chan s)")
     (simp_all add: upd_dma_def upd_chan_def list_update_beyond)

lemma upd_dma_ucopies:
  "(upd_dma i f s)\<lparr>ucopies := u\<rparr> = upd_dma i f (s\<lparr>ucopies := u\<rparr>)"
  "(upd_dma i f s)\<lparr>dmem := m\<rparr> = upd_dma i f (s\<lparr>dmem := m\<rparr>)"
  by (simp_all add: upd_dma_def upd_chan_def)

lemma user_addr_frame [simp]:
  "user_addr a ci i (upd_dma cj f s) = user_addr a ci i s"
  "user_addr a ci i (s\<lparr>ucopies := u\<rparr>) = user_addr a ci i s"
  "user_addr a ci i (s\<lparr>dmem := m\<rparr>) = user_addr a ci i s"
  by (simp_all add: user_addr_def)

section \<open>Read\<close>

definition set_writer_sw :: "nat \<Rightarrow> litepcie_dma_chan \<Rightarrow> litepcie_dma_chan" where
  "set_writer_sw n d = d\<lparr>writer_sw_count := of_nat n\<rparr>"

definition rx_copies :: "u64 \<Rightarrow> nat \<Rightarrow> nat \<Rightarrow> nat \<Rightarrow> kstate \<Rightarrow> nat list \<Rightarrow> (u64 \<times> u8 list) list" where
  "rx_copies data ci i sw s js =
     map (\<lambda>j. (user_addr data ci (i + j) s,
               take DMA_BUFFER_SIZE (dmem s (writer_addr (dma_of ci s) ! ((sw + j) mod 256))))) js"

lemma rx_copies_frame:
  "ci < length (chan s) \<Longrightarrow>
   rx_copies a ci i sw (upd_dma ci (set_writer_sw n) s) js = rx_copies a ci i sw s js"
  "rx_copies a ci i sw (s\<lparr>ucopies := u\<rparr>) js = rx_copies a ci i sw s js"
  by (simp_all add: rx_copies_def set_writer_sw_def)

lemma set_writer_sw_twice:
  "ci < length (chan s) \<Longrightarrow>
   upd_dma ci (set_writer_sw n) ((upd_dma ci (set_writer_sw m) s)\<lparr>ucopies := u\<rparr>)
   = upd_dma ci (set_writer_sw n) (s\<lparr>ucopies := u\<rparr>)"
  by (simp add: upd_dma_ucopies) (simp add: set_writer_sw_def [abs_def])

lemma rx_copies_shift:
  "rx_copies a ci (Suc i) (Suc sw) s [m..<k] = rx_copies a ci i sw s [Suc m..<Suc k]"
proof -
  have "[Suc m..<Suc k] = map Suc [m..<k]" by (simp add: map_Suc_upt)
  then show ?thesis by (simp only: rx_copies_def map_map comp_def add_Suc add_Suc_right)
qed

lemma writer_pending_of_nat:
  assumes "writer_hw_count d = of_nat H" "writer_sw_count d = of_nat S" "S \<le> H"
  shows "writer_pending d = of_nat (H - S)"
  using assms by (simp add: writer_pending_def)

lemma read_loop_spec:
  assumes "ci < length (chan s)" and "writer_hw_count (dma_of ci s) = of_nat H"
    and "writer_sw_count (dma_of ci s) = of_nat S" and "S \<le> H" and "H < 2 ^ 63"
    and "ring_ready (writer_addr (dma_of ci s)) s" and "no_fault e"
    and k: "k = min (len div DMA_BUFFER_SIZE) (H - S)" and o: "m = min k (H - S - 128)"
  shows "read_loop e data ci len i ov s =
    Ret (Inr (len - k * DMA_BUFFER_SIZE, ov + m))
        (upd_dma ci (set_writer_sw (S + k))
           (s\<lparr>ucopies := ucopies s @ rx_copies data ci i S s [m..<k]\<rparr>))"
  using assms
proof (induction len arbitrary: i ov s S k m rule: less_induct)
  case (less len)
  note B = less.prems
  have pend: "writer_pending (dma_of ci s) = of_nat (H - S)"
    using B by (simp add: writer_pending_of_nat)
  have S63: "S < 2 ^ 63" using B by simp
  have stay: "upd_dma ci (set_writer_sw S) s = s"
    using B by (intro upd_dma_same) (simp add: set_writer_sw_def)
  show ?case
  proof (cases "len < DMA_BUFFER_SIZE \<or> S = H")
    case True
    then have "k = 0" "m = 0" using B by auto
    then show ?thesis
      using True pend stay by (subst read_loop.simps) (auto simp: sgt_def rx_copies_def)
  next
    case False
    then have len: "\<not> len < DMA_BUFFER_SIZE" and SH: "S < H" using B by simp_all
    define k' where "k' = min ((len - DMA_BUFFER_SIZE) div DMA_BUFFER_SIZE) (H - Suc S)"
    have dec: "len - DMA_BUFFER_SIZE < len" using len by (simp add: csr_defs)
    have "len div DMA_BUFFER_SIZE = Suc ((len - DMA_BUFFER_SIZE) div DMA_BUFFER_SIZE)"
      using len by (simp add: le_div_geq csr_defs)
    then have k: "k = Suc k'" using B(8) SH unfolding k'_def by linarith
    have left: "len - k * DMA_BUFFER_SIZE = len - DMA_BUFFER_SIZE - k' * DMA_BUFFER_SIZE"
      by (simp add: k)
    have some: "sgt (writer_pending (dma_of ci s)) 0"
      using pend SH B(4,5) sgt_diff [of S H 0] by simp
    have sw: "(\<lambda>d. d\<lparr>writer_sw_count := writer_sw_count d + 1\<rparr>) (dma_of ci s)
        = set_writer_sw (Suc S) (dma_of ci s)"
      using B by (simp add: set_writer_sw_def)
    have upd: "upd_dma ci (\<lambda>d. d\<lparr>writer_sw_count := writer_sw_count d + 1\<rparr>) t
        = upd_dma ci (set_writer_sw (Suc S)) t" if "dma_of ci t = dma_of ci s" for t
      using sw that by (simp add: upd_dma_def upd_chan_def)
    define late where "late \<longleftrightarrow> 128 < H - S"
    have lt: "sgt (writer_pending (dma_of ci s)) (of_nat (DMA_BUFFER_COUNT div 2)) = late"
      using pend B(4,5) sgt_diff [of S H 128] by (simp add: late_def csr_defs)
    show ?thesis
    proof (cases late)
      case True
      define m' where "m' = min k' (H - Suc S - 128)"
      have m: "m = Suc m'" using True B(9) SH k unfolding m'_def late_def by linarith
      let ?t = "upd_dma ci (set_writer_sw (Suc S)) s"
      have "read_loop e data ci len i ov s
          = read_loop e data ci (len - DMA_BUFFER_SIZE) (i + 1) (ov + 1) ?t"
        using len some lt True upd [of s] by (subst read_loop.simps) simp
      also have "\<dots> = Ret (Inr (len - DMA_BUFFER_SIZE - k' * DMA_BUFFER_SIZE, ov + 1 + m'))
          (upd_dma ci (set_writer_sw (Suc S + k'))
            (?t\<lparr>ucopies := ucopies ?t @ rx_copies data ci (i + 1) (Suc S) ?t [m'..<k']\<rparr>))"
        using B(1-7) SH
        by (intro less.IH [OF dec _ _ _ _ _ _ _ k'_def m'_def]) (simp_all add: set_writer_sw_def)
      finally show ?thesis
        unfolding left m
        by (simp add: k set_writer_sw_twice [OF B(1)] rx_copies_frame(1) [OF B(1)] rx_copies_shift
            del: upt_Suc)
    next
      case False
      then have m: "m = 0" "min k' (H - Suc S - 128) = 0" using B SH by (simp_all add: late_def)
      let ?p = "writer_addr (dma_of ci s) ! (S mod 256)"
      let ?c = "(user_addr data ci i s, take DMA_BUFFER_SIZE (dmem s ?p))"
      let ?s1 = "s\<lparr>ucopies := ucopies s @ [?c]\<rparr>"
      let ?t = "upd_dma ci (set_writer_sw (Suc S)) ?s1"
      have cp: "copy_to_user e (user_addr data ci i s) ?p s = Ret 0 ?s1"
        using B ring_ready_fault [of "writer_addr (dma_of ci s)" s S]
        by (simp add: copy_to_user_def csr_defs Let_def)
      have "read_loop e data ci len i ov s
          = read_loop e data ci (len - DMA_BUFFER_SIZE) (i + 1) ov ?t"
        using len some lt False upd [of ?s1] B cp slot_of_nat [OF _ S63]
        by (subst read_loop.simps) simp
      also have "\<dots> = Ret (Inr (len - DMA_BUFFER_SIZE - k' * DMA_BUFFER_SIZE, ov + 0))
          (upd_dma ci (set_writer_sw (Suc S + k'))
            (?t\<lparr>ucopies := ucopies ?t @ rx_copies data ci (i + 1) (Suc S) ?t [0..<k']\<rparr>))"
        using B(1-7) SH
        by (intro less.IH [OF dec _ _ _ _ _ _ _ k'_def m(2) [symmetric]])
          (simp_all add: set_writer_sw_def)
      moreover have "rx_copies data ci i S s [0..<Suc k'] = ?c # rx_copies data ci i S s [Suc 0..<Suc k']"
        by (simp only: upt_rec [of 0] rx_copies_def) simp
      ultimately show ?thesis
        unfolding left m(1)
        by (simp add: k set_writer_sw_twice B(1) rx_copies_frame rx_copies_shift del: upt_Suc)
    qed
  qed
qed

section \<open>Write\<close>

definition set_reader_sw :: "nat \<Rightarrow> litepcie_dma_chan \<Rightarrow> litepcie_dma_chan" where
  "set_reader_sw n d = d\<lparr>reader_sw_count := of_nat n\<rparr>"

text \<open>The buffer contents after user blocks \<open>js\<close> have been stored.\<close>

definition tx_fill ::
    "kenv \<Rightarrow> u64 \<Rightarrow> nat \<Rightarrow> nat \<Rightarrow> nat \<Rightarrow> kstate \<Rightarrow> nat list \<Rightarrow> (u64 \<Rightarrow> u8 list) \<Rightarrow> u64 \<Rightarrow> u8 list" where
  "tx_fill e data ci i sw s js =
     fold (\<lambda>j m. m(reader_addr (dma_of ci s) ! ((sw + j) mod 256) :=
                    take DMA_BUFFER_SIZE (user_data e (user_addr data ci (i + j) s)))) js"

lemma tx_fill_slot:
  assumes "ring_ready (reader_addr (dma_of ci s)) s" "distinct (reader_addr (dma_of ci s))"
    and "m \<le> j" "j < k" "k \<le> m + 256"
  shows "tx_fill e data ci i sw s [m..<k] mem (reader_addr (dma_of ci s) ! ((sw + j) mod 256))
       = take DMA_BUFFER_SIZE (user_data e (user_addr data ci (i + j) s))"
  unfolding tx_fill_def
proof (rule fold_update_at)
  show "inj_on (\<lambda>j. reader_addr (dma_of ci s) ! ((sw + j) mod 256)) (set [m..<k])"
  proof (rule inj_onI)
    fix a b
    assume ab: "a \<in> set [m..<k]" "b \<in> set [m..<k]"
      and "reader_addr (dma_of ci s) ! ((sw + a) mod 256) = reader_addr (dma_of ci s) ! ((sw + b) mod 256)"
    then have "(sw + a) mod 256 = (sw + b) mod 256"
      using assms(1,2) nth_eq_iff_index_eq [of "reader_addr (dma_of ci s)" "(sw + a) mod 256"
        "(sw + b) mod 256"] by (simp add: ring_ready_def csr_defs)
    then have "sw + a = sw + b" by (rule mod_close) (use ab assms(5) in auto)
    then show "a = b" by simp
  qed
qed (use assms in simp_all)

lemma tx_fill_other:
  assumes "p \<notin> set (reader_addr (dma_of ci s))" "ring_ready (reader_addr (dma_of ci s)) s"
  shows "tx_fill e data ci i sw s js mem p = mem p"
  unfolding tx_fill_def
proof (rule fold_update_other)
  show "\<forall>j \<in> set js. reader_addr (dma_of ci s) ! ((sw + j) mod 256) \<noteq> p"
    using assms by (auto simp: ring_ready_def csr_defs)
qed

lemma tx_fill_frame:
  "ci < length (chan s) \<Longrightarrow>
   tx_fill e a ci i sw (upd_dma ci (set_reader_sw n) s) js = tx_fill e a ci i sw s js"
  "tx_fill e a ci i sw (s\<lparr>dmem := u\<rparr>) js = tx_fill e a ci i sw s js"
  by (simp_all add: tx_fill_def set_reader_sw_def)

lemma tx_fill_shift:
  "tx_fill e a ci (Suc i) (Suc sw) s [m..<k] = tx_fill e a ci i sw s [Suc m..<Suc k]"
proof -
  have "[Suc m..<Suc k] = map Suc [m..<k]" by (simp add: map_Suc_upt)
  then show ?thesis by (simp only: tx_fill_def fold_map comp_def add_Suc add_Suc_right)
qed

lemma tx_fill_first:
  "tx_fill e a ci i sw s [0..<Suc k] m = tx_fill e a ci i sw s [Suc 0..<Suc k]
     (m(reader_addr (dma_of ci s) ! (sw mod 256) :=
          take DMA_BUFFER_SIZE (user_data e (user_addr a ci i s))))"
  by (simp only: upt_rec [of 0] tx_fill_def) simp

lemma set_reader_sw_twice:
  "ci < length (chan s) \<Longrightarrow>
   upd_dma ci (set_reader_sw n) ((upd_dma ci (set_reader_sw m) s)\<lparr>dmem := u\<rparr>)
   = upd_dma ci (set_reader_sw n) (s\<lparr>dmem := u\<rparr>)"
  by (simp add: upd_dma_ucopies) (simp add: set_reader_sw_def [abs_def])

lemma reader_pending_negative:
  assumes "reader_hw_count d = of_nat H" "reader_sw_count d = of_nat S"
    and "S < 2 ^ 62" "H < 2 ^ 62"
  shows "sint (reader_pending d) = int S - int H"
proof -
  have "reader_pending d = of_int (int S - int H)" using assms by (simp add: reader_pending_def)
  moreover have "sint (of_int (int S - int H) :: u64) = int S - int H"
    using assms by (simp only: sint_sbintrunc' signed_take_bit_int_eq_self_iff) simp
  ultimately show ?thesis by simp
qed

lemma write_loop_spec:
  assumes "ci < length (chan s)" and "reader_hw_count (dma_of ci s) = of_nat H"
    and "reader_sw_count (dma_of ci s) = of_nat S" and "S + len < 2 ^ 62" and "H < 2 ^ 62"
    and "ring_ready (reader_addr (dma_of ci s)) s" and "no_fault e"
    and k: "k = min (len div DMA_BUFFER_SIZE) (H + 128 - S)" and o: "m = min k (H - S)"
  shows "write_loop e data ci len i uf s =
    Ret (Inr (len - k * DMA_BUFFER_SIZE, uf + m))
        (upd_dma ci (set_reader_sw (S + k))
           (s\<lparr>dmem := tx_fill e data ci i S s [m..<k] (dmem s)\<rparr>))"
  using assms
proof (induction len arbitrary: i uf s S k m rule: less_induct)
  case (less len)
  note B = less.prems
  have pend: "sint (reader_pending (dma_of ci s)) = int S - int H"
    using B by (intro reader_pending_negative) simp_all
  have S63: "S < 2 ^ 63" using B by simp
  have stay: "upd_dma ci (set_reader_sw S) s = s"
    using B by (intro upd_dma_same) (simp add: set_reader_sw_def)
  have room: "slt (reader_pending (dma_of ci s)) (of_nat (DMA_BUFFER_COUNT div 2)) \<longleftrightarrow> S < H + 128"
    by (auto simp: slt_def pend csr_defs)
  have late: "slt (reader_pending (dma_of ci s)) 0 \<longleftrightarrow> S < H"
    by (simp add: slt_def pend)
  show ?case
  proof (cases "len < DMA_BUFFER_SIZE \<or> H + 128 \<le> S")
    case True
    then have "k = 0" "m = 0" using B by auto
    then show ?thesis
      using True room stay by (subst write_loop.simps) (auto simp: tx_fill_def)
  next
    case False
    then have len: "\<not> len < DMA_BUFFER_SIZE" and SH: "S < H + 128" by simp_all
    define k' where "k' = min ((len - DMA_BUFFER_SIZE) div DMA_BUFFER_SIZE) (H + 128 - Suc S)"
    define m' where "m' = min k' (H - Suc S)"
    have dec: "len - DMA_BUFFER_SIZE < len" using len by (simp add: csr_defs)
    have small: "Suc S + (len - DMA_BUFFER_SIZE) < 2 ^ 62"
      using B(4) len by (simp add: csr_defs)
    have "len div DMA_BUFFER_SIZE = Suc ((len - DMA_BUFFER_SIZE) div DMA_BUFFER_SIZE)"
      using len by (simp add: le_div_geq csr_defs)
    then have k: "k = Suc k'" using B(8) SH unfolding k'_def by linarith
    have left: "len - k * DMA_BUFFER_SIZE = len - DMA_BUFFER_SIZE - k' * DMA_BUFFER_SIZE"
      by (simp add: k)
    have upd: "upd_dma ci (\<lambda>d. d\<lparr>reader_sw_count := reader_sw_count d + 1\<rparr>) t
        = upd_dma ci (set_reader_sw (Suc S)) t" if "dma_of ci t = dma_of ci s" for t
      using B(3) that by (simp add: upd_dma_def upd_chan_def set_reader_sw_def add.commute)
    show ?thesis
    proof (cases "S < H")
      case True
      have m: "m = Suc m'" using True B(9) SH k unfolding m'_def by linarith
      let ?t = "upd_dma ci (set_reader_sw (Suc S)) s"
      have "write_loop e data ci len i uf s
          = write_loop e data ci (len - DMA_BUFFER_SIZE) (i + 1) (uf + 1) ?t"
        using len room late True upd [of s] by (subst write_loop.simps) simp
      also have "\<dots> = Ret (Inr (len - DMA_BUFFER_SIZE - k' * DMA_BUFFER_SIZE, uf + 1 + m'))
          (upd_dma ci (set_reader_sw (Suc S + k'))
            (?t\<lparr>dmem := tx_fill e data ci (i + 1) (Suc S) ?t [m'..<k'] (dmem ?t)\<rparr>))"
        using B(1-7)
        by (intro less.IH [OF dec _ _ _ small _ _ _ k'_def m'_def])
          (simp_all add: set_reader_sw_def)
      finally show ?thesis
        unfolding left m
        by (simp add: k set_reader_sw_twice B(1) tx_fill_frame tx_fill_shift del: upt_Suc)
    next
      case False
      then have m: "m = 0" "0 = min k' (H - Suc S)" using B SH by simp_all
      let ?p = "reader_addr (dma_of ci s) ! (S mod 256)"
      let ?b = "take DMA_BUFFER_SIZE (user_data e (user_addr data ci i s))"
      let ?s1 = "s\<lparr>dmem := (dmem s)(?p := ?b)\<rparr>"
      let ?t = "upd_dma ci (set_reader_sw (Suc S)) ?s1"
      have cp: "copy_from_user e ?p (user_addr data ci i s) s = Ret 0 ?s1"
        using B(6,7) ring_ready_fault [of "reader_addr (dma_of ci s)" s S]
        by (simp add: copy_from_user_def Let_def)
      have "write_loop e data ci len i uf s
          = write_loop e data ci (len - DMA_BUFFER_SIZE) (i + 1) uf ?t"
        using len room SH late False upd [of ?s1] B(3,6) cp slot_of_nat [OF _ S63]
        by (subst write_loop.simps) simp
      also have "\<dots> = Ret (Inr (len - DMA_BUFFER_SIZE - k' * DMA_BUFFER_SIZE, uf + 0))
          (upd_dma ci (set_reader_sw (Suc S + k'))
            (?t\<lparr>dmem := tx_fill e data ci (i + 1) (Suc S) ?t [0..<k'] (dmem ?t)\<rparr>))"
        using B(1-7)
        by (intro less.IH [OF dec _ _ _ small _ _ _ k'_def m(2)])
          (simp_all add: set_reader_sw_def)
      finally show ?thesis
        unfolding left m(1)
        by (simp add: k set_reader_sw_twice B(1) tx_fill_frame tx_fill_shift tx_fill_first
            del: upt_Suc)
    qed
  qed
qed

section \<open>The system calls\<close>

definition rx_ready :: "kenv \<Rightarrow> nat \<Rightarrow> nat \<Rightarrow> nat \<Rightarrow> kstate \<Rightarrow> bool" where
  "rx_ready e ci sw hw s \<longleftrightarrow> ci < length (chan s) \<and> litepcie_dev (chan s ! ci)
     \<and> writer_sw_count (dma_of ci s) = of_nat sw \<and> writer_hw_count (dma_of ci s) = of_nat hw
     \<and> sw \<le> hw \<and> hw < 2 ^ 63 \<and> ring_ready (writer_addr (dma_of ci s)) s \<and> no_fault e"

definition tx_ready :: "kenv \<Rightarrow> nat \<Rightarrow> nat \<Rightarrow> nat \<Rightarrow> kstate \<Rightarrow> bool" where
  "tx_ready e ci sw hw s \<longleftrightarrow> ci < length (chan s) \<and> litepcie_dev (chan s ! ci)
     \<and> reader_sw_count (dma_of ci s) = of_nat sw \<and> reader_hw_count (dma_of ci s) = of_nat hw
     \<and> sw < 2 ^ 61 \<and> hw < 2 ^ 62 \<and> ring_ready (reader_addr (dma_of ci s)) s \<and> no_fault e"

lemma of_nat_eq_small:
  "m < 2 ^ 63 \<Longrightarrow> n < 2 ^ 63 \<Longrightarrow> (of_nat m :: u64) = of_nat n \<longleftrightarrow> m = n"
  by (metis of_nat_eq_iff sint_of_nat_small)

lemma read_result:
  assumes r: "rx_ready e (priv_chan f) sw hw s" and some: "sw < hw"
    and k: "k = min (sz div DMA_BUFFER_SIZE) (hw - sw)" and m: "m = min k (hw - sw - 128)"
  shows "litepcie_read e nonblock data sz f s =
    Ret (int (k * DMA_BUFFER_SIZE))
        (upd_dma (priv_chan f) (set_writer_sw (sw + k))
           (s\<lparr>ucopies := ucopies s @ rx_copies data (priv_chan f) 0 sw s [m..<k]\<rparr>))"
proof -
  let ?d = "dma_of (priv_chan f) s"
  have "sgt (writer_pending ?d) 0"
    using r some sgt_diff [of sw hw 0] by (simp add: rx_ready_def writer_pending_def)
  moreover have "writer_hw_count ?d \<noteq> writer_sw_count ?d"
    using r some of_nat_eq_small [of hw sw] by (simp add: rx_ready_def)
  moreover have "k * DMA_BUFFER_SIZE \<le> sz" using k by (simp add: csr_defs)
  ultimately show ?thesis
    using r read_loop_spec [of "priv_chan f" s hw sw e k sz m data 0 0] k m
    by (simp add: litepcie_read_def rx_ready_def Let_def)
qed

lemma write_result:
  assumes r: "tx_ready e (priv_chan f) sw hw s" and room: "sw < hw + 128" and ne: "sw \<noteq> hw \<or> \<not> nonblock"
    and sz: "sz < 2 ^ 61"
    and k: "k = min (sz div DMA_BUFFER_SIZE) (hw + 128 - sw)" and m: "m = min k (hw - sw)"
  shows "litepcie_write e nonblock data sz f s =
    Ret (int (k * DMA_BUFFER_SIZE))
        (upd_dma (priv_chan f) (set_reader_sw (sw + k))
           (s\<lparr>dmem := tx_fill e data (priv_chan f) 0 sw s [m..<k] (dmem s)\<rparr>))"
proof -
  let ?d = "dma_of (priv_chan f) s"
  have "sint (reader_pending ?d) = int sw - int hw"
    using r by (intro reader_pending_negative) (simp_all add: tx_ready_def)
  then have "slt (reader_pending ?d) (of_nat (DMA_BUFFER_COUNT div 2))"
    using room by (simp add: slt_def csr_defs)
  moreover have "reader_hw_count ?d = reader_sw_count ?d \<longleftrightarrow> hw = sw"
    using r of_nat_eq_small [of hw sw] by (simp add: tx_ready_def)
  moreover have "k * DMA_BUFFER_SIZE \<le> sz" using k by (simp add: csr_defs)
  ultimately show ?thesis
    using r ne sz write_loop_spec [of "priv_chan f" s hw sw sz e k m data 0 0] k m
    by (auto simp add: litepcie_write_def tx_ready_def Let_def)
qed

end
