(* ===== verification/Kernel_Ioctl.thy ===== *)
theory Kernel_Ioctl
  imports Kernel_Stream
begin

text \<open>
  The control interface of the driver: \<open>litepcie_flash_spi\<close> and \<open>litepcie_ioctl\<close> of
  \<open>main.c\<close> over the argument structs of \<open>litepcie.h\<close>. One constructor of \<open>ioctl_cmd\<close> per
  request number, carrying the struct the caller passes; the call returns the code, the struct
  that was copied back (if one was) and the state of the file.

  The lemmas say what each request does on every branch: the SPI transfer of the flash with its
  time-out, the register window, starting and stopping the engines, the locks.
\<close>

section \<open>Argument structs (litepcie.h)\<close>

record litepcie_ioctl_reg =
  reg_addr :: u32
  reg_val :: u32
  is_write :: u8

record litepcie_ioctl_flash =
  tx_len :: int
  tx_data :: u64
  rx_data :: u64

record litepcie_ioctl_icap =
  icap_addr :: u8
  icap_data :: u32

record litepcie_ioctl_dma_dir =
  enable :: u8
  hw_count :: u64
  sw_count :: u64

record litepcie_ioctl_lock =
  dma_reader_request :: u8
  dma_writer_request :: u8
  dma_reader_release :: u8
  dma_writer_release :: u8
  dma_reader_status :: u8
  dma_writer_status :: u8

record litepcie_ioctl_mmap_dma_info =
  dma_tx_buf_offset :: u64
  dma_tx_buf_size :: u64
  dma_tx_buf_count :: u64
  dma_rx_buf_offset :: u64
  dma_rx_buf_size :: u64
  dma_rx_buf_count :: u64

datatype ioctl_cmd =
    IOCTL_REG litepcie_ioctl_reg
  | IOCTL_FLASH litepcie_ioctl_flash
  | IOCTL_ICAP litepcie_ioctl_icap
  | IOCTL_DMA_INIT
  | IOCTL_DMA u8
  | IOCTL_DMA_WRITER litepcie_ioctl_dma_dir
  | IOCTL_DMA_READER litepcie_ioctl_dma_dir
  | IOCTL_MMAP_DMA_INFO
  | IOCTL_MMAP_DMA_WRITER_UPDATE u64
  | IOCTL_MMAP_DMA_READER_UPDATE u64
  | IOCTL_LOCK litepcie_ioctl_lock
  | IOCTL_UNKNOWN u32

datatype ioctl_reply =
    NoReply
  | RegReply litepcie_ioctl_reg
  | FlashReply litepcie_ioctl_flash
  | DmaReply litepcie_ioctl_dma_dir
  | LockReply litepcie_ioctl_lock
  | InfoReply litepcie_ioctl_mmap_dma_info

section \<open>Flash SPI\<close>

definition SPI_TIMEOUT :: nat where [csr_defs]: "SPI_TIMEOUT = 100000"

text \<open>The polling loop, with the number of rounds still allowed.\<close>

fun flash_wait :: "kenv \<Rightarrow> nat \<Rightarrow> kstate \<Rightarrow> kstate" where
  "flash_wait e 0 s = s"
| "flash_wait e (Suc n) s =
     (case litepcie_readl e CSR_FLASH_SPI_STATUS_ADDR s of (v, s1) \<Rightarrow>
        if v AND SPI_STATUS_DONE \<noteq> 0 then s1 else flash_wait e n (udelay 1 s1))"

definition litepcie_flash_spi ::
    "kenv \<Rightarrow> litepcie_ioctl_flash \<Rightarrow> kstate \<Rightarrow> int \<times> litepcie_ioctl_flash \<times> kstate" where
  "litepcie_flash_spi e m s =
     (if tx_len m < 8 \<or> 40 < tx_len m then (- EINVAL, m, s) else
      let s = litepcie_writel CSR_FLASH_SPI_MOSI_ADDR (ucast (drop_bit 32 (tx_data m))) s;
          s = litepcie_writel (CSR_FLASH_SPI_MOSI_ADDR + 4) (ucast (tx_data m)) s;
          s = litepcie_writel CSR_FLASH_SPI_CONTROL_ADDR
                (SPI_CTRL_START OR (of_int (tx_len m) * SPI_CTRL_LENGTH)) s;
          s = flash_wait e SPI_TIMEOUT (udelay 16 s);
          (hi, s) = litepcie_readl e CSR_FLASH_SPI_MISO_ADDR s;
          (lo, s) = litepcie_readl e (CSR_FLASH_SPI_MISO_ADDR + 4) s
      in (0, m\<lparr>rx_data := push_bit 32 (ucast hi) OR ucast lo\<rparr>, s))"

section \<open>The requests\<close>

text \<open>
  Whether the argument can be copied from and to user space is the environment's answer for
  the argument's address. A request that reaches a register with a NULL device faults.
\<close>

record uarg =
  from_ok :: bool
  to_ok :: bool

type_synonym ioctl_result = "(int \<times> ioctl_reply \<times> litepcie_chan_priv) kresult"

definition reply :: "uarg \<Rightarrow> int \<Rightarrow> ioctl_reply \<Rightarrow> litepcie_chan_priv \<Rightarrow> kstate \<Rightarrow> ioctl_result" where
  "reply u ret m f s = (if to_ok u then Ret (ret, m, f) s else Ret (- EFAULT, NoReply, f) s)"

definition ioctl_reg :: "kenv \<Rightarrow> uarg \<Rightarrow> litepcie_ioctl_reg \<Rightarrow> litepcie_chan_priv \<Rightarrow> kstate \<Rightarrow> ioctl_result" where
  "ioctl_reg e u m f s =
     (if \<not> litepcie_dev (chan s ! priv_chan f) then Oops NullDeref
      else if is_write m \<noteq> 0 then
        reply u 0 (RegReply m) f (litepcie_writel (reg_addr m) (reg_val m) s)
      else case litepcie_readl e (reg_addr m) s of
        (v, s1) \<Rightarrow> reply u 0 (RegReply (m\<lparr>reg_val := v\<rparr>)) f s1)"

definition ioctl_flash :: "kenv \<Rightarrow> uarg \<Rightarrow> litepcie_ioctl_flash \<Rightarrow> litepcie_chan_priv \<Rightarrow> kstate \<Rightarrow> ioctl_result" where
  "ioctl_flash e u m f s =
     (if tx_len m < 8 \<or> 40 < tx_len m then Ret (- EINVAL, NoReply, f) s
      else if \<not> litepcie_dev (chan s ! priv_chan f) then Oops NullDeref
      else case litepcie_flash_spi e m s of
        (ret, m1, s1) \<Rightarrow> if ret = 0 then reply u ret (FlashReply m1) f s1
                        else Ret (ret, NoReply, f) s1)"

definition ioctl_icap :: "litepcie_ioctl_icap \<Rightarrow> litepcie_chan_priv \<Rightarrow> kstate \<Rightarrow> ioctl_result" where
  "ioctl_icap m f s =
     (if \<not> litepcie_dev (chan s ! priv_chan f) then Oops NullDeref else
      let s = litepcie_writel CSR_ICAP_ADDR_ADDR (ucast (icap_addr m)) s;
          s = litepcie_writel CSR_ICAP_DATA_ADDR (icap_data m) s;
          s = litepcie_writel CSR_ICAP_WRITE_ADDR 1 s
      in Ret (0, NoReply, f) s)"

definition ioctl_dma :: "u8 \<Rightarrow> litepcie_chan_priv \<Rightarrow> kstate \<Rightarrow> ioctl_result" where
  "ioctl_dma loopback_enable f s =
     (if \<not> litepcie_dev (chan s ! priv_chan f) then Oops NullDeref
      else Ret (0, NoReply, f)
        (litepcie_writel (base (dma_of (priv_chan f) s) + PCIE_DMA_LOOPBACK_ENABLE_OFFSET)
           (ucast loopback_enable) s))"

definition ioctl_dma_writer :: "kenv \<Rightarrow> uarg \<Rightarrow> litepcie_ioctl_dma_dir \<Rightarrow> litepcie_chan_priv \<Rightarrow> kstate \<Rightarrow> ioctl_result" where
  "ioctl_dma_writer e u m f s =
     (let ci = priv_chan f;
          irq = writer_interrupt (dma_of ci s);
          change = (enable m \<noteq> writer_enable (dma_of ci s))
      in if change \<and> \<not> litepcie_dev (chan s ! ci) then Oops NullDeref else
      let s = (if \<not> change then s
               else if enable m \<noteq> 0 then
                 litepcie_enable_interrupt e irq
                   (snd (litepcie_dma_writer_start True (index (chan s ! ci)) s))
               else snd (litepcie_dma_writer_stop True (index (chan s ! ci))
                          (litepcie_disable_interrupt e irq s)));
          s = upd_dma ci (\<lambda>d. d\<lparr>writer_enable := enable m\<rparr>) s
      in reply u 0 (DmaReply (m\<lparr>hw_count := writer_hw_count (dma_of ci s),
                                sw_count := writer_sw_count (dma_of ci s)\<rparr>)) f s)"

definition ioctl_dma_reader :: "kenv \<Rightarrow> uarg \<Rightarrow> litepcie_ioctl_dma_dir \<Rightarrow> litepcie_chan_priv \<Rightarrow> kstate \<Rightarrow> ioctl_result" where
  "ioctl_dma_reader e u m f s =
     (let ci = priv_chan f; nn = litepcie_dev (chan s ! ci);
          irq = reader_interrupt (dma_of ci s);
          finish = (\<lambda>ret s.
            let s = upd_dma ci (\<lambda>d. d\<lparr>reader_enable := enable m\<rparr>) s
            in reply u ret (DmaReply (m\<lparr>hw_count := reader_hw_count (dma_of ci s),
                                        sw_count := reader_sw_count (dma_of ci s)\<rparr>)) f s)
      in if enable m = reader_enable (dma_of ci s) then finish 0 s
      else if enable m \<noteq> 0 then
        (case litepcie_dma_reader_start nn (index (chan s ! ci)) s of
           (ret, s) \<Rightarrow> if ret \<noteq> 0 then Ret (ret, NoReply, f) s
                      else finish 0 (litepcie_enable_interrupt e irq s))
      else if \<not> nn then Oops NullDeref
      else (case litepcie_dma_reader_stop nn (index (chan s ! ci))
                   (litepcie_disable_interrupt e irq s) of
           (ret, s) \<Rightarrow> finish ret s))"

definition mmap_dma_info :: litepcie_ioctl_mmap_dma_info where
  "mmap_dma_info = \<lparr>
     dma_tx_buf_offset = 0,
     dma_tx_buf_size = of_nat DMA_BUFFER_SIZE,
     dma_tx_buf_count = of_nat DMA_BUFFER_COUNT,
     dma_rx_buf_offset = of_nat DMA_BUFFER_TOTAL_SIZE,
     dma_rx_buf_size = of_nat DMA_BUFFER_SIZE,
     dma_rx_buf_count = of_nat DMA_BUFFER_COUNT\<rparr>"

definition lock_reader :: "litepcie_ioctl_lock \<Rightarrow> litepcie_chan_priv \<Rightarrow> kstate \<Rightarrow>
    litepcie_ioctl_lock \<times> litepcie_chan_priv \<times> kstate" where
  "lock_reader m f s =
     (let ci = priv_chan f;
          m = m\<lparr>dma_reader_status := 1\<rparr>;
          (m, f, s) =
            (if dma_reader_request m \<noteq> 0 then
               (if reader_lock (dma_of ci s) \<noteq> 0 then (m\<lparr>dma_reader_status := 0\<rparr>, f, s)
                else (m, f\<lparr>reader := True\<rparr>, upd_dma ci (\<lambda>d. d\<lparr>reader_lock := 1\<rparr>) s))
             else (m, f, s))
      in if dma_reader_release m \<noteq> 0
         then (m, f\<lparr>reader := False\<rparr>, upd_dma ci (\<lambda>d. d\<lparr>reader_lock := 0\<rparr>) s)
         else (m, f, s))"

definition lock_writer :: "litepcie_ioctl_lock \<Rightarrow> litepcie_chan_priv \<Rightarrow> kstate \<Rightarrow>
    litepcie_ioctl_lock \<times> litepcie_chan_priv \<times> kstate" where
  "lock_writer m f s =
     (let ci = priv_chan f;
          m = m\<lparr>dma_writer_status := 1\<rparr>;
          (m, f, s) =
            (if dma_writer_request m \<noteq> 0 then
               (if writer_lock (dma_of ci s) \<noteq> 0 then (m\<lparr>dma_writer_status := 0\<rparr>, f, s)
                else (m, f\<lparr>writer := True\<rparr>, upd_dma ci (\<lambda>d. d\<lparr>writer_lock := 1\<rparr>) s))
             else (m, f, s))
      in if dma_writer_release m \<noteq> 0
         then (m, f\<lparr>writer := False\<rparr>, upd_dma ci (\<lambda>d. d\<lparr>writer_lock := 0\<rparr>) s)
         else (m, f, s))"

definition ioctl_lock :: "uarg \<Rightarrow> litepcie_ioctl_lock \<Rightarrow> litepcie_chan_priv \<Rightarrow> kstate \<Rightarrow> ioctl_result" where
  "ioctl_lock u m f s =
     (case lock_reader m f s of (m, f, s) \<Rightarrow>
      case lock_writer m f s of (m, f, s) \<Rightarrow> reply u 0 (LockReply m) f s)"

definition litepcie_ioctl :: "kenv \<Rightarrow> uarg \<Rightarrow> ioctl_cmd \<Rightarrow> litepcie_chan_priv \<Rightarrow> kstate \<Rightarrow> ioctl_result" where
  "litepcie_ioctl e u cmd f s =
     (let ci = priv_chan f; fault = Ret (- EFAULT, NoReply, f) s in
      case cmd of
        IOCTL_REG m \<Rightarrow> if \<not> from_ok u then fault else ioctl_reg e u m f s
      | IOCTL_FLASH m \<Rightarrow> if \<not> from_ok u then fault else ioctl_flash e u m f s
      | IOCTL_ICAP m \<Rightarrow> if \<not> from_ok u then fault else ioctl_icap m f s
      | IOCTL_DMA_INIT \<Rightarrow>
          if \<not> from_ok u then fault else
          (case litepcie_dma_init_cpu e (litepcie_dev (chan s ! ci)) s of
             (ret, s) \<Rightarrow> Ret (ret, NoReply, f) s)
      | IOCTL_DMA lb \<Rightarrow> if \<not> from_ok u then fault else ioctl_dma lb f s
      | IOCTL_DMA_WRITER m \<Rightarrow> if \<not> from_ok u then fault else ioctl_dma_writer e u m f s
      | IOCTL_DMA_READER m \<Rightarrow> if \<not> from_ok u then fault else ioctl_dma_reader e u m f s
      | IOCTL_MMAP_DMA_INFO \<Rightarrow> reply u 0 (InfoReply mmap_dma_info) f s
      | IOCTL_MMAP_DMA_WRITER_UPDATE n \<Rightarrow>
          if \<not> from_ok u then fault
          else Ret (0, NoReply, f) (upd_dma ci (\<lambda>d. d\<lparr>writer_sw_count := n\<rparr>) s)
      | IOCTL_MMAP_DMA_READER_UPDATE n \<Rightarrow>
          if \<not> from_ok u then fault
          else Ret (0, NoReply, f) (upd_dma ci (\<lambda>d. d\<lparr>reader_sw_count := n\<rparr>) s)
      | IOCTL_LOCK m \<Rightarrow> if \<not> from_ok u then fault else ioctl_lock u m f s
      | IOCTL_UNKNOWN n \<Rightarrow> Ret (- ENOIOCTLCMD, NoReply, f) s)"

lemmas ioctl_defs [step_defs] = litepcie_ioctl_def ioctl_reg_def ioctl_flash_def ioctl_icap_def
  ioctl_dma_def ioctl_dma_writer_def ioctl_dma_reader_def ioctl_lock_def reply_def

section \<open>What the flash transfer does\<close>

abbreviation flash_status :: u64 where
  "flash_status \<equiv> bar_offset CSR_FLASH_SPI_STATUS_ADDR"

definition polls :: "mmio_event list \<Rightarrow> nat" where
  "polls h = length (filter (\<lambda>ev. \<exists>v. ev = MRead flash_status v) h)"

text \<open>A flash controller that is busy for the first \<open>n\<close> status reads of its history.\<close>

definition flash_busy :: "kenv \<Rightarrow> nat \<Rightarrow> bool" where
  "flash_busy e n \<longleftrightarrow> (\<forall>h. dev_read e h flash_status AND SPI_STATUS_DONE \<noteq> 0 \<longleftrightarrow> n \<le> polls h)"

lemma polls_simps [simp]:
  "polls [] = 0"
  "polls (h @ h') = polls h + polls h'"
  "polls (MRead a v # h) = (if a = flash_status then Suc (polls h) else polls h)"
  "polls (MWrite a v # h) = polls h"
  "polls (MDelay d # h) = polls h"
  by (auto simp: polls_def)

lemma flash_wait_polls:
  assumes "flash_busy e n" "polls (mmio s) \<le> n"
  shows "polls (mmio (flash_wait e fuel s)) = min (polls (mmio s) + fuel) (Suc n)"
  using assms(2)
proof (induction fuel arbitrary: s)
  case (Suc fuel)
  show ?case
  proof (cases "n \<le> polls (mmio s)")
    case True
    then show ?thesis using assms(1) Suc.prems
      by (simp add: flash_busy_def litepcie_readl_def Let_def)
  next
    case False
    let ?s1 = "snd (litepcie_readl e CSR_FLASH_SPI_STATUS_ADDR s)"
    have "flash_wait e (Suc fuel) s = flash_wait e fuel (udelay 1 ?s1)"
      using False assms(1) by (simp add: flash_busy_def split_beta)
    moreover have "polls (mmio (udelay 1 ?s1)) = Suc (polls (mmio s))" by simp
    ultimately show ?thesis using Suc.IH [of "udelay 1 ?s1"] False by simp
  qed
qed simp

lemma flash_wait_frame [simp]:
  "chan (flash_wait e n s) = chan s" "live (flash_wait e n s) = live s"
  "nalloc (flash_wait e n s) = nalloc s" "dmem (flash_wait e n s) = dmem s"
  "ucopies (flash_wait e n s) = ucopies s" "channels (flash_wait e n s) = channels s"
  "irqs (flash_wait e n s) = irqs s"
  by (induction n arbitrary: s) (simp_all add: split_beta)

lemma flash_wait_only_polls:
  "\<exists>t. mmio (flash_wait e n s) = mmio s @ t
     \<and> (\<forall>ev \<in> set t. ev = MDelay 1 \<or> (\<exists>v. ev = MRead flash_status v))"
proof (induction n arbitrary: s)
  case (Suc n)
  let ?s1 = "snd (litepcie_readl e CSR_FLASH_SPI_STATUS_ADDR s)"
  obtain t where t: "mmio (flash_wait e n (udelay 1 ?s1)) = mmio (udelay 1 ?s1) @ t"
    "\<forall>ev \<in> set t. ev = MDelay 1 \<or> (\<exists>v. ev = MRead flash_status v)"
    using Suc.IH by blast
  show ?case
  proof (cases "fst (litepcie_readl e CSR_FLASH_SPI_STATUS_ADDR s) AND SPI_STATUS_DONE \<noteq> 0")
    case True
    then show ?thesis by (simp add: split_beta)
  next
    case False
    then have "mmio (flash_wait e (Suc n) s) = mmio (udelay 1 ?s1) @ t"
      using t by (simp add: split_beta)
    then show ?thesis using t(2) by (intro exI [of _ "MRead flash_status _ # MDelay 1 # t"]) simp
  qed
qed simp

definition flash_command :: "litepcie_ioctl_flash \<Rightarrow> mmio_event list" where
  "flash_command m =
     [MWrite (bar_offset CSR_FLASH_SPI_MOSI_ADDR) (ucast (drop_bit 32 (tx_data m))),
      MWrite (bar_offset (CSR_FLASH_SPI_MOSI_ADDR + 4)) (ucast (tx_data m)),
      MWrite (bar_offset CSR_FLASH_SPI_CONTROL_ADDR)
        (SPI_CTRL_START OR of_int (tx_len m) * SPI_CTRL_LENGTH),
      MDelay 16]"

lemma polls_flash_command [simp]: "polls (flash_command m) = 0"
  by (simp add: flash_command_def)

lemma miso_not_status:
  "bar_offset CSR_FLASH_SPI_MISO_ADDR \<noteq> flash_status"
  "bar_offset (CSR_FLASH_SPI_MISO_ADDR + 4) \<noteq> flash_status"
  by (simp_all add: bar_offset_def csr_defs)

text \<open>Lengths outside 8 to 40 bits are refused before any register is touched.\<close>

lemma flash_spi_einval:
  "tx_len m < 8 \<or> 40 < tx_len m \<Longrightarrow> litepcie_flash_spi e m s = (- EINVAL, m, s)"
  by (auto simp: litepcie_flash_spi_def)

lemma flash_spi_transfer:
  assumes len: "8 \<le> tx_len m" "tx_len m \<le> 40"
    and busy: "flash_busy e n" "polls (mmio s) \<le> n"
    and r: "litepcie_flash_spi e m s = (ret, m', s')"
  shows "ret = 0"
    and "polls (mmio s') = min (polls (mmio s) + SPI_TIMEOUT) (Suc n)"
    and "\<exists>t hi lo. mmio s' = mmio s @ flash_command m @ t
           @ [MRead (bar_offset CSR_FLASH_SPI_MISO_ADDR) hi,
              MRead (bar_offset (CSR_FLASH_SPI_MISO_ADDR + 4)) lo]
         \<and> rx_data m' = push_bit 32 (ucast hi) OR ucast lo
         \<and> (\<forall>ev \<in> set t. ev = MDelay 1 \<or> (\<exists>v. ev = MRead flash_status v))"
proof -
  let ?s1 = "s\<lparr>mmio := mmio s @ flash_command m\<rparr>"
  let ?s2 = "flash_wait e SPI_TIMEOUT ?s1"
  let ?hi = "dev_read e (mmio ?s2) (bar_offset CSR_FLASH_SPI_MISO_ADDR)"
  let ?s3 = "snd (litepcie_readl e CSR_FLASH_SPI_MISO_ADDR ?s2)"
  let ?lo = "dev_read e (mmio ?s3) (bar_offset (CSR_FLASH_SPI_MISO_ADDR + 4))"
  let ?s4 = "snd (litepcie_readl e (CSR_FLASH_SPI_MISO_ADDR + 4) ?s3)"
  have spi: "litepcie_flash_spi e m s = (0, m\<lparr>rx_data := push_bit 32 (ucast ?hi) OR ucast ?lo\<rparr>, ?s4)"
    using len by (simp add: litepcie_flash_spi_def litepcie_writel_def udelay_def
        flash_command_def Let_def split_beta)
  then show "ret = 0" using r by simp
  show "polls (mmio s') = min (polls (mmio s) + SPI_TIMEOUT) (Suc n)"
    using r spi flash_wait_polls [OF busy(1), of ?s1 SPI_TIMEOUT] busy(2)
    by (auto simp: miso_not_status)
  obtain t where t: "mmio ?s2 = mmio ?s1 @ t"
    "\<forall>ev \<in> set t. ev = MDelay 1 \<or> (\<exists>v. ev = MRead flash_status v)"
    using flash_wait_only_polls by blast
  show "\<exists>t hi lo. mmio s' = mmio s @ flash_command m @ t
           @ [MRead (bar_offset CSR_FLASH_SPI_MISO_ADDR) hi,
              MRead (bar_offset (CSR_FLASH_SPI_MISO_ADDR + 4)) lo]
         \<and> rx_data m' = push_bit 32 (ucast hi) OR ucast lo
         \<and> (\<forall>ev \<in> set t. ev = MDelay 1 \<or> (\<exists>v. ev = MRead flash_status v))"
    using r spi t by (intro exI [of _ t] exI [of _ ?hi] exI [of _ ?lo]) auto
qed

section \<open>Starting and stopping an engine through the ioctl\<close>

lemma regs_not_msi:
  "msi_enable \<notin> engine_reg_set (writer_regs CSR_PCIE_DMA0_BASE)"
  "msi_enable \<notin> engine_reg_set (reader_regs CSR_PCIE_DMA0_BASE)"
  by (simp_all add: engine_reg_set_def writer_regs_def reader_regs_def bar_offset_def csr_defs)

definition chan_ready :: "nat \<Rightarrow> kstate \<Rightarrow> bool" where
  "chan_ready ci s \<longleftrightarrow> ci < length (chan s) \<and> litepcie_dev (chan s ! ci)
     \<and> index (chan s ! ci) = ci \<and> base (dma_of ci s) = CSR_PCIE_DMA0_BASE"

text \<open>What the engine looks like after the register writes between two states of the driver.\<close>

definition engine_after :: "engine_regs \<Rightarrow> kstate \<Rightarrow> kstate \<Rightarrow> engine \<Rightarrow> engine" where
  "engine_after r s s' g = replay r (drop (length (mmio s)) (mmio s')) g"

definition runs_ring :: "u64 list \<Rightarrow> engine \<Rightarrow> engine \<Rightarrow> bool" where
  "runs_ring hs g g' \<longleftrightarrow> eng_enable g' \<and> eng_loop g' \<and> eng_hot g' = eng_hot g
     \<and> eng_table g' = map (desc_of hs) [0..<DMA_BUFFER_COUNT]"

definition stopped :: "engine \<Rightarrow> bool" where
  "stopped g' \<longleftrightarrow> \<not> eng_enable g' \<and> \<not> eng_loop g' \<and> eng_table g' = []"

lemma ioctl_writer_start:
  assumes "chan_ready ci s" and "enable m \<noteq> 0" and "writer_enable (dma_of ci s) \<noteq> enable m"
    and "from_ok u" and "to_ok u" and "priv_chan f = ci"
    and "litepcie_ioctl e u (IOCTL_DMA_WRITER m) f s = Ret (ret, rep, f') s'"
  shows "ret = 0 \<and> rep = DmaReply (m\<lparr>hw_count := 0, sw_count := 0\<rparr>) \<and> f' = f"
    and "dma_of ci s' = clear_writer_counts (dma_of ci s)\<lparr>writer_enable := enable m\<rparr>"
    and "runs_ring (writer_handle (dma_of ci s)) g
           (engine_after (writer_regs CSR_PCIE_DMA0_BASE) s s' g)"
    and "\<exists>v. last (mmio s') = MWrite msi_enable (v OR irq_bit (writer_interrupt (dma_of ci s)))"
proof -
  let ?s' = "upd_dma ci (\<lambda>d. d\<lparr>writer_enable := enable m\<rparr>)
    (litepcie_enable_interrupt e (writer_interrupt (dma_of ci s))
       (snd (litepcie_dma_writer_start True ci s)))"
  have ci: "ci < length (chan s)" "CSR_PCIE_DMA0_BASE = base (dma_of ci s)"
    using assms(1) by (simp_all add: chan_ready_def)
  note u = wr.start_unmask [OF ci, of ?s' "\<lambda>d. d\<lparr>writer_enable := enable m\<rparr>" e
      "writer_interrupt (dma_of ci s)", OF regs_not_msi(1) refl]
  have "litepcie_ioctl e u (IOCTL_DMA_WRITER m) f s =
      Ret (0, DmaReply (m\<lparr>hw_count := 0, sw_count := 0\<rparr>), f) ?s'"
    using assms(1-6) u(1)
    by (simp add: ioctl_defs chan_ready_def Let_def) (simp add: clear_writer_counts_def)
  then have r: "ret = 0" "rep = DmaReply (m\<lparr>hw_count := 0, sw_count := 0\<rparr>)" "f' = f" "s' = ?s'"
    using assms(7) by simp_all
  show "ret = 0 \<and> rep = DmaReply (m\<lparr>hw_count := 0, sw_count := 0\<rparr>) \<and> f' = f"
    using r by simp
  show "dma_of ci s' = clear_writer_counts (dma_of ci s)\<lparr>writer_enable := enable m\<rparr>"
    using r(4) u(1) by (simp only:)
  show "runs_ring (writer_handle (dma_of ci s)) g
           (engine_after (writer_regs CSR_PCIE_DMA0_BASE) s s' g)"
    by (simp only: engine_after_def r(4) u(2)) (simp add: runs_ring_def wr.replay_start)
  show "\<exists>v. last (mmio s') = MWrite msi_enable (v OR irq_bit (writer_interrupt (dma_of ci s)))"
    using u(3) by (simp only: r(4) irq_bit_def)
qed

lemma ioctl_writer_stop:
  assumes "chan_ready ci s" and "enable m = 0" and "writer_enable (dma_of ci s) \<noteq> 0"
    and "from_ok u" and "to_ok u" and "priv_chan f = ci"
    and "litepcie_ioctl e u (IOCTL_DMA_WRITER m) f s = Ret (ret, rep, f') s'"
  shows "ret = 0 \<and> rep = DmaReply (m\<lparr>hw_count := 0, sw_count := 0\<rparr>) \<and> f' = f"
    and "dma_of ci s' = clear_writer_counts (dma_of ci s)\<lparr>writer_enable := 0\<rparr>"
    and "stopped (engine_after (writer_regs CSR_PCIE_DMA0_BASE) s s' g)"
    and "\<exists>v. mmio s' = mmio s @ [MRead msi_enable v,
           MWrite msi_enable (v AND NOT (irq_bit (writer_interrupt (dma_of ci s))))]
           @ stop_trace (writer_regs CSR_PCIE_DMA0_BASE)"
proof -
  let ?s' = "upd_dma ci (\<lambda>d. d\<lparr>writer_enable := enable m\<rparr>)
    (snd (litepcie_dma_writer_stop True ci
       (litepcie_disable_interrupt e (writer_interrupt (dma_of ci s)) s)))"
  have ci: "ci < length (chan s)" "CSR_PCIE_DMA0_BASE = base (dma_of ci s)"
    using assms(1) by (simp_all add: chan_ready_def)
  note u = wr.mask_stop [OF ci, of ?s' "\<lambda>d. d\<lparr>writer_enable := enable m\<rparr>" e
      "writer_interrupt (dma_of ci s)", OF regs_not_msi(1) refl]
  have "litepcie_ioctl e u (IOCTL_DMA_WRITER m) f s =
      Ret (0, DmaReply (m\<lparr>hw_count := 0, sw_count := 0\<rparr>), f) ?s'"
    using assms(1-6) u(1)
    by (simp add: ioctl_defs chan_ready_def Let_def) (simp add: clear_writer_counts_def)
  then have r: "ret = 0" "rep = DmaReply (m\<lparr>hw_count := 0, sw_count := 0\<rparr>)" "f' = f" "s' = ?s'"
    using assms(7) by simp_all
  show "ret = 0 \<and> rep = DmaReply (m\<lparr>hw_count := 0, sw_count := 0\<rparr>) \<and> f' = f"
    using r by simp
  show "dma_of ci s' = clear_writer_counts (dma_of ci s)\<lparr>writer_enable := 0\<rparr>"
    using r(4) u(1) by (simp only: assms(2))
  show "stopped (engine_after (writer_regs CSR_PCIE_DMA0_BASE) s s' g)"
    by (simp only: engine_after_def r(4) u(2)) (simp add: stopped_def wr.replay_stop)
  show "\<exists>v. mmio s' = mmio s @ [MRead msi_enable v,
           MWrite msi_enable (v AND NOT (irq_bit (writer_interrupt (dma_of ci s))))]
           @ stop_trace (writer_regs CSR_PCIE_DMA0_BASE)"
    using u(3) by (simp only: r(4) irq_bit_def)
qed

lemma ioctl_reader_start:
  assumes "chan_ready ci s" and "enable m \<noteq> 0" and "reader_enable (dma_of ci s) \<noteq> enable m"
    and "from_ok u" and "to_ok u" and "priv_chan f = ci"
    and "litepcie_ioctl e u (IOCTL_DMA_READER m) f s = Ret (ret, rep, f') s'"
  shows "ret = 0 \<and> rep = DmaReply (m\<lparr>hw_count := 0, sw_count := 0\<rparr>) \<and> f' = f"
    and "dma_of ci s' = clear_reader_counts (dma_of ci s)\<lparr>reader_enable := enable m\<rparr>"
    and "runs_ring (reader_handle (dma_of ci s)) g
           (engine_after (reader_regs CSR_PCIE_DMA0_BASE) s s' g)"
    and "\<exists>v. last (mmio s') = MWrite msi_enable (v OR irq_bit (reader_interrupt (dma_of ci s)))"
proof -
  let ?s' = "upd_dma ci (\<lambda>d. d\<lparr>reader_enable := enable m\<rparr>)
    (litepcie_enable_interrupt e (reader_interrupt (dma_of ci s))
       (snd (litepcie_dma_reader_start True ci s)))"
  have ci: "ci < length (chan s)" "CSR_PCIE_DMA0_BASE = base (dma_of ci s)"
    using assms(1) by (simp_all add: chan_ready_def)
  note u = rd.start_unmask [OF ci, of ?s' "\<lambda>d. d\<lparr>reader_enable := enable m\<rparr>" e
      "reader_interrupt (dma_of ci s)", OF regs_not_msi(2) refl]
  have z: "fst (litepcie_dma_reader_start True ci s) = 0"
    "fst (litepcie_dma_reader_stop True ci t) = 0" for t
    by (simp_all add: rd.start_eq rd.stop_eq)
  have "litepcie_ioctl e u (IOCTL_DMA_READER m) f s =
      Ret (0, DmaReply (m\<lparr>hw_count := 0, sw_count := 0\<rparr>), f) ?s'"
    using assms(1-6) u(1)
    by (simp add: ioctl_defs chan_ready_def Let_def split_beta z) (simp add: clear_reader_counts_def)
  then have r: "ret = 0" "rep = DmaReply (m\<lparr>hw_count := 0, sw_count := 0\<rparr>)" "f' = f" "s' = ?s'"
    using assms(7) by simp_all
  show "ret = 0 \<and> rep = DmaReply (m\<lparr>hw_count := 0, sw_count := 0\<rparr>) \<and> f' = f"
    using r by simp
  show "dma_of ci s' = clear_reader_counts (dma_of ci s)\<lparr>reader_enable := enable m\<rparr>"
    using r(4) u(1) by (simp only:)
  show "runs_ring (reader_handle (dma_of ci s)) g
           (engine_after (reader_regs CSR_PCIE_DMA0_BASE) s s' g)"
    by (simp only: engine_after_def r(4) u(2)) (simp add: runs_ring_def rd.replay_start)
  show "\<exists>v. last (mmio s') = MWrite msi_enable (v OR irq_bit (reader_interrupt (dma_of ci s)))"
    using u(3) by (simp only: r(4) irq_bit_def)
qed

lemma ioctl_reader_stop:
  assumes "chan_ready ci s" and "enable m = 0" and "reader_enable (dma_of ci s) \<noteq> 0"
    and "from_ok u" and "to_ok u" and "priv_chan f = ci"
    and "litepcie_ioctl e u (IOCTL_DMA_READER m) f s = Ret (ret, rep, f') s'"
  shows "ret = 0 \<and> rep = DmaReply (m\<lparr>hw_count := 0, sw_count := 0\<rparr>) \<and> f' = f"
    and "dma_of ci s' = clear_reader_counts (dma_of ci s)\<lparr>reader_enable := 0\<rparr>"
    and "stopped (engine_after (reader_regs CSR_PCIE_DMA0_BASE) s s' g)"
    and "\<exists>v. mmio s' = mmio s @ [MRead msi_enable v,
           MWrite msi_enable (v AND NOT (irq_bit (reader_interrupt (dma_of ci s))))]
           @ stop_trace (reader_regs CSR_PCIE_DMA0_BASE)"
proof -
  let ?s' = "upd_dma ci (\<lambda>d. d\<lparr>reader_enable := enable m\<rparr>)
    (snd (litepcie_dma_reader_stop True ci
       (litepcie_disable_interrupt e (reader_interrupt (dma_of ci s)) s)))"
  have ci: "ci < length (chan s)" "CSR_PCIE_DMA0_BASE = base (dma_of ci s)"
    using assms(1) by (simp_all add: chan_ready_def)
  note u = rd.mask_stop [OF ci, of ?s' "\<lambda>d. d\<lparr>reader_enable := enable m\<rparr>" e
      "reader_interrupt (dma_of ci s)", OF regs_not_msi(2) refl]
  have z: "fst (litepcie_dma_reader_start True ci s) = 0"
    "fst (litepcie_dma_reader_stop True ci t) = 0" for t
    by (simp_all add: rd.start_eq rd.stop_eq)
  have "litepcie_ioctl e u (IOCTL_DMA_READER m) f s =
      Ret (0, DmaReply (m\<lparr>hw_count := 0, sw_count := 0\<rparr>), f) ?s'"
    using assms(1-6) u(1)
    by (simp add: ioctl_defs chan_ready_def Let_def split_beta z) (simp add: clear_reader_counts_def)
  then have r: "ret = 0" "rep = DmaReply (m\<lparr>hw_count := 0, sw_count := 0\<rparr>)" "f' = f" "s' = ?s'"
    using assms(7) by simp_all
  show "ret = 0 \<and> rep = DmaReply (m\<lparr>hw_count := 0, sw_count := 0\<rparr>) \<and> f' = f"
    using r by simp
  show "dma_of ci s' = clear_reader_counts (dma_of ci s)\<lparr>reader_enable := 0\<rparr>"
    using r(4) u(1) by (simp only: assms(2))
  show "stopped (engine_after (reader_regs CSR_PCIE_DMA0_BASE) s s' g)"
    by (simp only: engine_after_def r(4) u(2)) (simp add: stopped_def rd.replay_stop)
  show "\<exists>v. mmio s' = mmio s @ [MRead msi_enable v,
           MWrite msi_enable (v AND NOT (irq_bit (reader_interrupt (dma_of ci s))))]
           @ stop_trace (reader_regs CSR_PCIE_DMA0_BASE)"
    using u(3) by (simp only: r(4) irq_bit_def)
qed


section \<open>Locks\<close>

text \<open>
  A request takes a free lock and records it in the file; a taken lock is reported by status 0 and
  nothing changes; a release always clears the lock, whoever holds it.
\<close>

lemma lock_reader_cases:
  assumes "priv_chan f < length (chan s)"
  shows "dma_reader_request m \<noteq> 0 \<Longrightarrow> dma_reader_release m = 0 \<Longrightarrow>
      reader_lock (dma_of (priv_chan f) s) = 0 \<Longrightarrow>
      lock_reader m f s = (m\<lparr>dma_reader_status := 1\<rparr>, f\<lparr>reader := True\<rparr>,
        upd_dma (priv_chan f) (\<lambda>d. d\<lparr>reader_lock := 1\<rparr>) s)"
    and "dma_reader_request m \<noteq> 0 \<Longrightarrow> dma_reader_release m = 0 \<Longrightarrow>
      reader_lock (dma_of (priv_chan f) s) \<noteq> 0 \<Longrightarrow>
      lock_reader m f s = (m\<lparr>dma_reader_status := 0\<rparr>, f, s)"
    and "dma_reader_request m = 0 \<Longrightarrow> dma_reader_release m = 0 \<Longrightarrow>
      lock_reader m f s = (m\<lparr>dma_reader_status := 1\<rparr>, f, s)"
    and "dma_reader_request m = 0 \<Longrightarrow> dma_reader_release m \<noteq> 0 \<Longrightarrow>
      lock_reader m f s = (m\<lparr>dma_reader_status := 1\<rparr>, f\<lparr>reader := False\<rparr>,
        upd_dma (priv_chan f) (\<lambda>d. d\<lparr>reader_lock := 0\<rparr>) s)"
  using assms by (simp_all add: lock_reader_def Let_def)

lemma lock_writer_cases:
  assumes "priv_chan f < length (chan s)"
  shows "dma_writer_request m \<noteq> 0 \<Longrightarrow> dma_writer_release m = 0 \<Longrightarrow>
      writer_lock (dma_of (priv_chan f) s) = 0 \<Longrightarrow>
      lock_writer m f s = (m\<lparr>dma_writer_status := 1\<rparr>, f\<lparr>writer := True\<rparr>,
        upd_dma (priv_chan f) (\<lambda>d. d\<lparr>writer_lock := 1\<rparr>) s)"
    and "dma_writer_request m \<noteq> 0 \<Longrightarrow> dma_writer_release m = 0 \<Longrightarrow>
      writer_lock (dma_of (priv_chan f) s) \<noteq> 0 \<Longrightarrow>
      lock_writer m f s = (m\<lparr>dma_writer_status := 0\<rparr>, f, s)"
    and "dma_writer_request m = 0 \<Longrightarrow> dma_writer_release m = 0 \<Longrightarrow>
      lock_writer m f s = (m\<lparr>dma_writer_status := 1\<rparr>, f, s)"
    and "dma_writer_request m = 0 \<Longrightarrow> dma_writer_release m \<noteq> 0 \<Longrightarrow>
      lock_writer m f s = (m\<lparr>dma_writer_status := 1\<rparr>, f\<lparr>writer := False\<rparr>,
        upd_dma (priv_chan f) (\<lambda>d. d\<lparr>writer_lock := 0\<rparr>) s)"
  using assms by (simp_all add: lock_writer_def Let_def)

end
