(* ===== verification/Kernel_Buffers.thy ===== *)
theory Kernel_Buffers
  imports Kernel_Stream "HOL-Library.Multiset"
begin

text \<open>
  The life of the DMA buffers: what \<open>litepcie_dma_init_cpu\<close> leaves in the rings and in the
  pool of coherent allocations, and what \<open>litepcie_dma_deinit_cpu\<close> gives back. The pool is
  the list \<open>live\<close> read as a multiset.
\<close>

section \<open>Freeing\<close>

definition pair_at :: "litepcie_dma_chan \<Rightarrow> nat \<Rightarrow> u64 list" where
  "pair_at d j = [reader_addr d ! j, writer_addr d ! j]"

definition chan_buffers :: "kstate \<Rightarrow> nat \<Rightarrow> u64 list" where
  "chan_buffers s i = concat (map (pair_at (dma_of i s)) [0..<DMA_BUFFER_COUNT])"

definition all_buffers :: "kstate \<Rightarrow> u64 list" where
  "all_buffers s = concat (map (chan_buffers s) [0..<channels s])"

fun free_list :: "u64 list \<Rightarrow> kstate \<Rightarrow> unit kresult" where
  "free_list [] s = Ret () s"
| "free_list (p # ps) s = kbind (dma_free_coherent p s) (\<lambda>_ s. free_list ps s)"

lemma free_frame:
  assumes "dma_free_coherent p s = Ret () t"
  shows "chan t = chan s" "channels t = channels s"
  using assms by (auto simp: dma_free_coherent_def split: if_splits)

lemma free_list_frame:
  "free_list ps s = Ret () t \<Longrightarrow> chan t = chan s \<and> channels t = channels s"
proof (induction ps arbitrary: s)
  case (Cons p ps)
  then obtain s1 where "dma_free_coherent p s = Ret () s1" "free_list ps s1 = Ret () t"
    by (auto simp: kbind_Ret_iff)
  then show ?case using free_frame Cons.IH by metis
qed simp

lemma kbind_cong:
  assumes "r = r'" "\<And>a s. r' = Ret a s \<Longrightarrow> f a s = g a s"
  shows "kbind r f = kbind r' g"
  using assms by (cases r') simp_all

lemma kbind_assoc: "kbind (kbind r f) g = kbind r (\<lambda>a s. kbind (f a s) g)"
  by (cases r) simp_all

lemma free_list_append: "free_list (ps @ qs) s = kbind (free_list ps s) (\<lambda>_ s. free_list qs s)"
proof (induction ps arbitrary: s)
  case (Cons p ps)
  then have "free_list (ps @ qs) = (\<lambda>s. kbind (free_list ps s) (\<lambda>_ s. free_list qs s))"
    by (intro ext)
  then show ?case by (simp only: append_Cons free_list.simps kbind_assoc)
qed simp

lemma deinit_bufs_free_list:
  "dma_deinit_bufs i js s = free_list (concat (map (pair_at (dma_of i s)) js)) s"
proof (induction js arbitrary: s)
  case (Cons j js)
  have "dma_deinit_bufs i (j # js) s =
    kbind (dma_free_coherent (reader_addr (dma_of i s) ! j) s) (\<lambda>_ s1.
    kbind (dma_free_coherent (writer_addr (dma_of i s) ! j) s1) (\<lambda>_ s2.
      free_list (concat (map (pair_at (dma_of i s)) js)) s2))"
    unfolding dma_deinit_bufs.simps
    by (intro kbind_cong refl) (simp_all add: free_frame Cons.IH)
  then show ?case by (simp add: pair_at_def [of _ j] free_list.simps(2) [abs_def])
qed simp

lemma deinit_chans_free_list:
  "dma_deinit_chans is s = free_list (concat (map (chan_buffers s) is)) s"
proof (induction "is" arbitrary: s)
  case (Cons i "is")
  have "dma_deinit_chans (i # is) s = kbind (free_list (chan_buffers s i) s)
      (\<lambda>_ s1. free_list (concat (map (chan_buffers s) is)) s1)"
    unfolding dma_deinit_chans.simps
    by (intro kbind_cong) (auto simp: deinit_bufs_free_list chan_buffers_def [abs_def] Cons.IH
        dest!: free_list_frame)
  then show ?case by (simp add: free_list_append)
qed simp

lemma deinit_cpu_free_list:
  "litepcie_dma_deinit_cpu s = kbind (free_list (all_buffers s) s) (\<lambda>_ s1. Ret 0 s1)"
  by (simp add: litepcie_dma_deinit_cpu_def deinit_chans_free_list all_buffers_def)

text \<open>A list of pointers, each allocated as often as it is freed, is freed without a fault.\<close>

lemma free_list_ok:
  assumes "mset (filter (\<lambda>p. p \<noteq> 0) ps) \<subseteq># mset (live s)"
  shows "\<exists>L. free_list ps s = Ret () (s\<lparr>live := L\<rparr>)
           \<and> mset L = mset (live s) - mset (filter (\<lambda>p. p \<noteq> 0) ps)"
  using assms
proof (induction ps arbitrary: s)
  case Nil
  then show ?case by (intro exI [of _ "live s"]) simp
next
  case (Cons p ps)
  show ?case
  proof (cases "p = 0")
    case True
    then show ?thesis using Cons by (simp add: dma_free_coherent_def)
  next
    case False
    then have "p \<in> set (live s)" using Cons.prems by (simp add: insert_subset_eq_iff)
    then have free: "dma_free_coherent p s = Ret () (s\<lparr>live := remove1 p (live s)\<rparr>)"
      using False by (simp add: dma_free_coherent_def)
    have "mset (filter (\<lambda>p. p \<noteq> 0) ps) \<subseteq># mset (remove1 p (live s))"
      using Cons.prems False by (simp add: insert_subset_eq_iff)
    from Cons.IH [of "s\<lparr>live := remove1 p (live s)\<rparr>"] this
    obtain L where "free_list ps (s\<lparr>live := remove1 p (live s)\<rparr>) = Ret () (s\<lparr>live := L\<rparr>)"
      "mset L = mset (remove1 p (live s)) - mset (filter (\<lambda>p. p \<noteq> 0) ps)"
      by auto
    then show ?thesis using free False by (intro exI [of _ L]) simp
  qed
qed

text \<open>A pointer that is not allocated when its turn comes is a fault.\<close>

lemma free_list_fault:
  assumes "p \<in> set ps" "p \<noteq> 0" "p \<notin> set (live s)"
  shows "\<exists>x. free_list ps s = Oops x"
  using assms
proof (induction ps arbitrary: s)
  case (Cons q ps)
  show ?case
  proof (cases "dma_free_coherent q s")
    case (Ret a t)
    then have "p \<notin> set (live t)" and "q \<noteq> p" using Cons.prems
      by (auto simp: dma_free_coherent_def split: if_splits dest: notin_set_remove1)
    then show ?thesis using Cons Ret by auto
  qed (auto simp: dma_free_coherent_def split: if_splits)
qed simp

section \<open>Allocating\<close>

abbreviation alloc_works :: "kenv \<Rightarrow> bool" where
  "alloc_works e \<equiv> (\<forall>n. fst (dma_alloc e n) \<noteq> 0)"

definition arrays_ok :: "litepcie_dma_chan \<Rightarrow> bool" where
  "arrays_ok d \<longleftrightarrow> length (reader_addr d) = DMA_BUFFER_COUNT
     \<and> length (writer_addr d) = DMA_BUFFER_COUNT
     \<and> length (reader_handle d) = DMA_BUFFER_COUNT
     \<and> length (writer_handle d) = DMA_BUFFER_COUNT"

text \<open>The ring of a channel holds the allocations number \<open>n\<close>, \<open>n + 1\<close>, ... in order.\<close>

definition ring_slot :: "litepcie_dma_chan \<Rightarrow> nat \<Rightarrow> (u64 \<times> u64) \<times> (u64 \<times> u64)" where
  "ring_slot d j = ((reader_addr d ! j, reader_handle d ! j), (writer_addr d ! j, writer_handle d ! j))"

definition ring_at :: "kenv \<Rightarrow> nat \<Rightarrow> nat \<Rightarrow> nat \<Rightarrow> litepcie_dma_chan \<Rightarrow> bool" where
  "ring_at e n k m d \<longleftrightarrow> (\<forall>j. k \<le> j \<and> j < m \<longrightarrow>
     ring_slot d j = (dma_alloc e (n + 2 * (j - k)), dma_alloc e (n + 2 * (j - k) + 1)))"

lemma init_bufs_spec:
  assumes "i < length (chan s)" "arrays_ok (dma_of i s)" "alloc_works e"
    and "k \<le> DMA_BUFFER_COUNT" and "dma_init_bufs e i [k..<DMA_BUFFER_COUNT] s = (ok, t)"
  shows "ok \<and> ring_at e (nalloc s) k DMA_BUFFER_COUNT (dma_of i t) \<and> arrays_ok (dma_of i t)
    \<and> (\<forall>j < k. ring_slot (dma_of i t) j = ring_slot (dma_of i s) j)
    \<and> (\<forall>j. j \<noteq> i \<longrightarrow> chan t ! j = chan s ! j) \<and> length (chan t) = length (chan s)
    \<and> nalloc t = nalloc s + 2 * (DMA_BUFFER_COUNT - k) \<and> channels t = channels s
    \<and> mset (live t) = mset (live s)
        + mset (map (fst \<circ> dma_alloc e) [nalloc s..<nalloc t])"
  using assms
proof (induction "DMA_BUFFER_COUNT - k" arbitrary: k s)
  case 0
  then show ?case by (auto simp: ring_at_def)
next
  case (Suc n)
  then have k: "k < DMA_BUFFER_COUNT" by simp
  define ra where "ra = dma_alloc e (nalloc s)"
  define wa where "wa = dma_alloc e (Suc (nalloc s))"
  define s3 where "s3 = upd_dma i (\<lambda>d. d\<lparr>reader_addr := (reader_addr d)[k := fst ra],
      reader_handle := (reader_handle d)[k := snd ra], writer_addr := (writer_addr d)[k := fst wa],
      writer_handle := (writer_handle d)[k := snd wa]\<rparr>)
      (s\<lparr>nalloc := Suc (Suc (nalloc s)), live := fst wa # fst ra # live s\<rparr>)"
  have nz: "fst ra \<noteq> 0" "fst wa \<noteq> 0" using Suc.prems(3) by (simp_all add: ra_def wa_def)
  have step: "dma_init_bufs e i [k..<DMA_BUFFER_COUNT] s
      = dma_init_bufs e i [Suc k..<DMA_BUFFER_COUNT] s3"
    using nz Suc.prems(1) k
    by (simp add: upt_conv_Cons alloc_coherent_def Let_def split_beta ra_def [symmetric]
        wa_def [symmetric]) (simp add: s3_def upd_dma_def upd_chan_def)
  have d3: "dma_of i s3 = (dma_of i s)\<lparr>reader_addr := (reader_addr (dma_of i s))[k := fst ra],
      reader_handle := (reader_handle (dma_of i s))[k := snd ra],
      writer_addr := (writer_addr (dma_of i s))[k := fst wa],
      writer_handle := (writer_handle (dma_of i s))[k := snd wa]\<rparr>"
    using Suc.prems(1) by (simp add: s3_def)
  have ar: "arrays_ok (dma_of i s3)" using Suc.prems(2) by (simp add: d3 arrays_ok_def)
  have ch3: "length (chan s3) = length (chan s)" "nalloc s3 = Suc (Suc (nalloc s))"
    "channels s3 = channels s" "\<And>j. j \<noteq> i \<Longrightarrow> chan s3 ! j = chan s ! j"
    by (simp_all add: s3_def)
  have IH: "ok \<and> ring_at e (nalloc s3) (Suc k) DMA_BUFFER_COUNT (dma_of i t)
    \<and> arrays_ok (dma_of i t)
    \<and> (\<forall>j < Suc k. ring_slot (dma_of i t) j = ring_slot (dma_of i s3) j)
    \<and> (\<forall>j. j \<noteq> i \<longrightarrow> chan t ! j = chan s3 ! j) \<and> length (chan t) = length (chan s3)
    \<and> nalloc t = nalloc s3 + 2 * (DMA_BUFFER_COUNT - Suc k) \<and> channels t = channels s3
    \<and> mset (live t) = mset (live s3)
        + mset (map (fst \<circ> dma_alloc e) [nalloc s3..<nalloc t])"
  proof (rule Suc.hyps(1))
    show "n = DMA_BUFFER_COUNT - Suc k" using Suc.hyps(2) by linarith
    show "i < length (chan s3)" using Suc.prems(1) ch3(1) by linarith
    show "dma_init_bufs e i [Suc k..<DMA_BUFFER_COUNT] s3 = (ok, t)"
      using step Suc.prems(5) by argo
    show "arrays_ok (dma_of i s3)" by (rule ar)
    show "alloc_works e" by (rule Suc.prems(3))
    show "Suc k \<le> DMA_BUFFER_COUNT" using k by simp
  qed
  have slot3: "ring_slot (dma_of i s3) j = (if j = k then (ra, wa) else ring_slot (dma_of i s) j)" for j
    using Suc.prems(2) k by (auto simp: d3 ring_slot_def arrays_ok_def)
  have ring: "ring_slot (dma_of i t) j = (dma_alloc e (nalloc s + 2 * (j - k)),
      dma_alloc e (nalloc s + 2 * (j - k) + 1))" if "k \<le> j" "j < DMA_BUFFER_COUNT" for j
  proof (cases "j = k")
    case True
    then show ?thesis using IH slot3 by (simp add: ra_def wa_def)
  next
    case False
    then have "j - k = Suc (j - Suc k)" using that by simp
    then show ?thesis using IH that False ch3(2) by (simp add: ring_at_def)
  qed
  have lv: "mset (live t) = mset (live s) + mset (map (fst \<circ> dma_alloc e) [nalloc s..<nalloc t])"
  proof -
    obtain xs where xs: "[Suc (Suc (nalloc s))..<nalloc t] = xs" by simp
    have nt: "Suc (Suc (nalloc s)) \<le> nalloc t" using IH ch3(2) by simp
    have l: "[nalloc s..<nalloc t] = nalloc s # Suc (nalloc s) # xs"
      using nt xs by (simp add: upt_conv_Cons)
    have "mset (live t) = mset (live s3) + mset (map (fst \<circ> dma_alloc e) [nalloc s3..<nalloc t])"
      using IH by blast
    then show ?thesis unfolding l ch3(2) xs by (simp add: s3_def ra_def wa_def)
  qed
  have na: "nalloc t = nalloc s + 2 * (DMA_BUFFER_COUNT - k)" using IH ch3(2) k by simp
  have "\<forall>j < k. ring_slot (dma_of i t) j = ring_slot (dma_of i s) j" using IH slot3 by simp
  moreover have "ring_at e (nalloc s) k DMA_BUFFER_COUNT (dma_of i t)"
    using ring by (simp add: ring_at_def)
  moreover have "ok" "arrays_ok (dma_of i t)" "\<forall>j. j \<noteq> i \<longrightarrow> chan t ! j = chan s ! j"
    "length (chan t) = length (chan s)" "channels t = channels s"
    using IH ch3 by simp_all
  ultimately show ?case using lv na by blast
qed

lemma init_chans_spec:
  assumes "\<forall>i < length (chan s). arrays_ok (dma_of i s)" "channels s \<le> length (chan s)"
    and "alloc_works e" and "m \<le> channels s" and "dma_init_chans e [m..<channels s] s = (r, t)"
  shows "r = 0 \<and> length (chan t) = length (chan s) \<and> channels t = channels s
    \<and> (\<forall>i < m. chan t ! i = chan s ! i)
    \<and> (\<forall>i < length (chan s). arrays_ok (dma_of i t))
    \<and> (\<forall>i. m \<le> i \<and> i < channels s \<longrightarrow>
         ring_at e (nalloc s + 2 * DMA_BUFFER_COUNT * (i - m)) 0 DMA_BUFFER_COUNT (dma_of i t))
    \<and> nalloc t = nalloc s + 2 * DMA_BUFFER_COUNT * (channels s - m)
    \<and> mset (live t) = mset (live s) + mset (map (fst \<circ> dma_alloc e) [nalloc s..<nalloc t])"
  using assms
proof (induction "channels s - m" arbitrary: m s)
  case 0
  then show ?case by auto
next
  case (Suc n)
  then have m: "m < channels s" by simp
  obtain ok s1 where b: "dma_init_bufs e m [0..<DMA_BUFFER_COUNT] s = (ok, s1)" by fastforce
  have "m < length (chan s)" using m Suc.prems(2) by simp
  note B = init_bufs_spec [OF this _ Suc.prems(3) _ b, simplified]
  have B: "ok" "ring_at e (nalloc s) 0 DMA_BUFFER_COUNT (dma_of m s1)" "arrays_ok (dma_of m s1)"
    "\<forall>j. j \<noteq> m \<longrightarrow> chan s1 ! j = chan s ! j" "length (chan s1) = length (chan s)"
    "nalloc s1 = nalloc s + 2 * DMA_BUFFER_COUNT" "channels s1 = channels s"
    "mset (live s1) = mset (live s) + mset (map (fst \<circ> dma_alloc e) [nalloc s..<nalloc s1])"
    using init_bufs_spec [OF \<open>m < length (chan s)\<close> _ Suc.prems(3) _ b]
      Suc.prems(1) \<open>m < length (chan s)\<close> by simp_all
  have step: "dma_init_chans e [Suc m..<channels s1] s1 = (r, t)"
    using Suc.prems(5) m B(1,7) b by (simp add: upt_conv_Cons)
  have ar: "\<forall>i < length (chan s1). arrays_ok (dma_of i s1)"
    using Suc.prems(1) B(3-5) by metis
  have "n = channels s1 - Suc m" and "channels s1 \<le> length (chan s1)" and "Suc m \<le> channels s1"
    using Suc.hyps(2) Suc.prems(2) B(5,7) m by simp_all
  note IH = Suc.hyps(1) [OF this(1) ar this(2) Suc.prems(3) this(3) step]
  have na: "nalloc t = nalloc s + 2 * DMA_BUFFER_COUNT * (channels s - m)"
  proof -
    have "channels s - m = Suc (channels s - Suc m)" using m by simp
    then show ?thesis using IH B(6,7) by simp
  qed
  have rings: "ring_at e (nalloc s + 2 * DMA_BUFFER_COUNT * (i - m)) 0 DMA_BUFFER_COUNT (dma_of i t)"
    if "m \<le> i" "i < channels s" for i
  proof (cases "i = m")
    case True
    then show ?thesis using IH B(2) by simp
  next
    case False
    then have "i - m = Suc (i - Suc m)" "Suc m \<le> i" using that by simp_all
    then show ?thesis using IH that(2) B(6,7) by (simp add: add.assoc)
  qed
  have lv: "mset (live t) = mset (live s) + mset (map (fst \<circ> dma_alloc e) [nalloc s..<nalloc t])"
  proof -
    have "nalloc s \<le> nalloc s1" "nalloc s1 \<le> nalloc t" using B(6) IH by simp_all
    then have l: "[nalloc s..<nalloc t] = [nalloc s..<nalloc s1] @ [nalloc s1..<nalloc t]"
      by (metis le_Suc_ex upt_add_eq_append)
    have "mset (live t) = mset (live s1) + mset (map (fst \<circ> dma_alloc e) [nalloc s1..<nalloc t])"
      using IH by blast
    then show ?thesis unfolding B(8) l by simp
  qed
  have "\<forall>i < m. chan t ! i = chan s ! i" using IH B(4) by simp
  moreover have "\<forall>i < length (chan s). arrays_ok (dma_of i t)" using IH B(5) by simp
  moreover have "r = 0" "length (chan t) = length (chan s)" "channels t = channels s"
    using IH B(5,7) by simp_all
  ultimately show ?case using lv na rings by blast
qed

lemma concat_pairs:
  "concat (map (\<lambda>j. [f (n + 2 * j), f (n + 2 * j + 1)]) [0..<m]) = map f [n..<n + 2 * m]"
  by (induction m) simp_all

lemma concat_blocks:
  "concat (map (\<lambda>i. map f [n + b * i..<n + b * i + b]) [0..<m]) = map f [n..<n + b * m]"
proof (induction m)
  case (Suc m)
  have "[n..<n + b * Suc m] = [n..<n + b * m] @ [n + b * m..<n + b * m + b]"
    using upt_add_eq_append [of n "n + b * m" b] by (simp add: ac_simps)
  then show ?case using Suc by simp
qed simp

lemma chan_buffers_ring:
  assumes "ring_at e n 0 DMA_BUFFER_COUNT (dma_of i t)"
  shows "chan_buffers t i = map (fst \<circ> dma_alloc e) [n..<n + 2 * DMA_BUFFER_COUNT]"
proof -
  have "map (pair_at (dma_of i t)) [0..<DMA_BUFFER_COUNT]
      = map (\<lambda>j. [(fst \<circ> dma_alloc e) (n + 2 * j), (fst \<circ> dma_alloc e) (n + 2 * j + 1)])
          [0..<DMA_BUFFER_COUNT]"
    using assms by (intro map_cong) (auto simp: ring_at_def ring_slot_def pair_at_def prod_eq_iff)
  then show ?thesis by (simp only: chan_buffers_def concat_pairs)
qed

definition device_ok :: "kstate \<Rightarrow> bool" where
  "device_ok s \<longleftrightarrow> channels s \<le> length (chan s) \<and> (\<forall>i < length (chan s). arrays_ok (dma_of i s))"

lemma init_cpu_all_buffers:
  assumes "device_ok s" "alloc_works e" and "litepcie_dma_init_cpu e True s = (r, t)"
  shows "r = 0" and "device_ok t"
    and "all_buffers t = map (fst \<circ> dma_alloc e) [nalloc s..<nalloc t]"
    and "nalloc t = nalloc s + 2 * DMA_BUFFER_COUNT * channels s"
    and "mset (live t) = mset (live s) + mset (all_buffers t)"
    and "channels t = channels s"
proof -
  have "dma_init_chans e [0..<channels s] s = (r, t)"
    using assms(3) by (simp add: litepcie_dma_init_cpu_def)
  from init_chans_spec [OF _ _ assms(2) _ this] assms(1)
  have I: "r = 0" "length (chan t) = length (chan s)" "channels t = channels s"
    "\<forall>i < length (chan s). arrays_ok (dma_of i t)"
    "\<forall>i < channels s. ring_at e (nalloc s + 2 * DMA_BUFFER_COUNT * i) 0 DMA_BUFFER_COUNT (dma_of i t)"
    "nalloc t = nalloc s + 2 * DMA_BUFFER_COUNT * channels s"
    "mset (live t) = mset (live s) + mset (map (fst \<circ> dma_alloc e) [nalloc s..<nalloc t])"
    by (simp_all add: device_ok_def)
  then show "r = 0" "device_ok t" "channels t = channels s"
    "nalloc t = nalloc s + 2 * DMA_BUFFER_COUNT * channels s"
    using assms(1) by (simp_all add: device_ok_def)
  have "map (chan_buffers t) [0..<channels t]
      = map (\<lambda>i. map (fst \<circ> dma_alloc e) [nalloc s + 2 * DMA_BUFFER_COUNT * i
               ..<nalloc s + 2 * DMA_BUFFER_COUNT * i + 2 * DMA_BUFFER_COUNT]) [0..<channels t]"
    using I(3,5) by (intro map_cong refl chan_buffers_ring) simp
  then show a: "all_buffers t = map (fst \<circ> dma_alloc e) [nalloc s..<nalloc t]"
    by (simp only: all_buffers_def concat_blocks I(3,6))
  show "mset (live t) = mset (live s) + mset (all_buffers t)" using I(7) a by simp
qed

lemma init_deinit:
  assumes "device_ok s" "alloc_works e" and "litepcie_dma_init_cpu e True s = (r, t)"
  shows "\<exists>u. litepcie_dma_deinit_cpu t = Ret 0 (t\<lparr>live := u\<rparr>) \<and> mset u = mset (live s)"
proof -
  note I = init_cpu_all_buffers [OF assms]
  have nz: "filter (\<lambda>p. p \<noteq> 0) (all_buffers t) = all_buffers t"
    using assms(2) by (simp add: I(3) filter_id_conv)
  obtain L where "free_list (all_buffers t) t = Ret () (t\<lparr>live := L\<rparr>)"
    "mset L = mset (live t) - mset (all_buffers t)"
    using free_list_ok [of "all_buffers t" t] nz I(5) by auto
  then show ?thesis using I(5) by (intro exI [of _ L]) (simp add: deinit_cpu_free_list)
qed

text \<open>The pointers are not cleared, so the buffers of a device are given back at most once.\<close>

lemma deinit_twice_faults:
  assumes "device_ok s" "alloc_works e" "0 < channels s"
    and fresh: "\<forall>n. fst (dma_alloc e n) \<notin> set (live s)"
    and "litepcie_dma_init_cpu e True s = (r, t)"
    and "litepcie_dma_deinit_cpu t = Ret v u"
  shows "\<exists>x. litepcie_dma_deinit_cpu u = Oops x"
proof -
  note I = init_cpu_all_buffers [OF assms(1,2,5)]
  obtain L where u: "u = t\<lparr>live := L\<rparr>" "mset L = mset (live s)"
    using init_deinit [OF assms(1,2,5)] assms(6) by auto
  have len: "nalloc s < nalloc t" using I(4) assms(3) by (simp add: csr_defs)
  let ?p = "fst (dma_alloc e (nalloc s))"
  have "?p \<in> set (all_buffers u)" "?p \<noteq> 0" "?p \<notin> set (live u)"
  proof -
    have "all_buffers u = all_buffers t" by (simp add: u all_buffers_def chan_buffers_def [abs_def])
    then show "?p \<in> set (all_buffers u)" using I(3) len by auto
    show "?p \<noteq> 0" using assms(2) by simp
    have "set (live u) = set (live s)" using mset_eq_setD [OF u(2)] by (simp add: u(1))
    then show "?p \<notin> set (live u)" using fresh by simp
  qed
  from free_list_fault [OF this] show ?thesis by (auto simp: deinit_cpu_free_list)
qed

text \<open>After a successful allocation every ring is ready for transfers.\<close>

lemma init_rings_ready:
  assumes "device_ok s" "alloc_works e" "litepcie_dma_init_cpu e True s = (r, t)" "i < channels s"
  shows "ring_ready (reader_addr (dma_of i t)) t" "ring_ready (writer_addr (dma_of i t)) t"
proof -
  note I = init_cpu_all_buffers [OF assms(1-3)]
  have ar: "arrays_ok (dma_of i t)" using I(2,6) assms(4) by (auto simp: device_ok_def)
  have "p \<noteq> 0 \<and> p \<in> set (live t)" if "p \<in> set (all_buffers t)" for p
  proof
    show "p \<noteq> 0" using that assms(2) by (auto simp: I(3))
    have "p \<in># mset (live t)" unfolding I(5) using that by simp
    then show "p \<in> set (live t)" by simp
  qed
  moreover have "p \<in> set (all_buffers t)"
    if pin: "p \<in> set (reader_addr (dma_of i t)) \<union> set (writer_addr (dma_of i t))" for p
  proof -
    obtain j where "j < DMA_BUFFER_COUNT" "p \<in> set (pair_at (dma_of i t) j)"
    proof -
      obtain j where "j < DMA_BUFFER_COUNT"
        "p = reader_addr (dma_of i t) ! j \<or> p = writer_addr (dma_of i t) ! j"
        using pin ar unfolding arrays_ok_def Un_iff in_set_conv_nth by metis
      then show thesis by (intro that) (auto simp: pair_at_def)
    qed
    then have "p \<in> set (chan_buffers t i)" by (auto simp: chan_buffers_def)
    then show ?thesis using assms(4) I(6) by (auto simp: all_buffers_def)
  qed
  ultimately show "ring_ready (reader_addr (dma_of i t)) t" "ring_ready (writer_addr (dma_of i t)) t"
    using ar by (auto simp: ring_ready_def arrays_ok_def)
qed

end
