(* ===== verification/Kernel_Invariants.thy ===== *)
theory Kernel_Invariants
  imports Kernel_Ioctl Kernel_Buffers
begin

text \<open>
  Properties of the driver state that every operation keeps. The interface \<open>driver_core\<close> asks
  for closure under the elementary updates of the counters and flags of a channel; inside it every
  operation that leaves the locks and the DMA memory alone is shown to keep the property once and
  for all. Its extensions add the operations on memory (\<open>driver_property\<close>), on locks
  (\<open>driver_core_locks\<close>), and both. They are interpreted for the well-formedness of the device, for
  the value of the lock words, for the channel an open file works on and for the memory of the rings.
\<close>

lemma kbind_result:
  "kbind l (\<lambda>r s. case r of Inl er \<Rightarrow> Ret er s | Inr (a, b) \<Rightarrow> Ret (g a) s) = Ret v t
   \<Longrightarrow> \<exists>x. l = Ret x t"
  by (cases l) (auto split: sum.split_asm)

locale driver_core =
  fixes P :: "kstate \<Rightarrow> bool"
  assumes frame: "P s \<Longrightarrow> chan t = chan s \<Longrightarrow> channels t = channels s \<Longrightarrow> live t = live s \<Longrightarrow> P t"
    and writer_sw: "P s \<Longrightarrow> P (upd_dma i (\<lambda>d. d\<lparr>writer_sw_count := n d\<rparr>) s)"
    and reader_sw: "P s \<Longrightarrow> P (upd_dma i (\<lambda>d. d\<lparr>reader_sw_count := n d\<rparr>) s)"
    and writer_hw: "P s \<Longrightarrow>
      P (upd_dma i (\<lambda>d. d\<lparr>writer_hw_count := n d, writer_hw_count_last := n d\<rparr>) s)"
    and reader_hw: "P s \<Longrightarrow>
      P (upd_dma i (\<lambda>d. d\<lparr>reader_hw_count := n d, reader_hw_count_last := n d\<rparr>) s)"
    and writer_clear: "P s \<Longrightarrow> P (upd_dma i clear_writer_counts s)"
    and reader_clear: "P s \<Longrightarrow> P (upd_dma i clear_reader_counts s)"
    and writer_flag: "P s \<Longrightarrow> P (upd_dma i (\<lambda>d. d\<lparr>writer_enable := b\<rparr>) s)"
    and reader_flag: "P s \<Longrightarrow> P (upd_dma i (\<lambda>d. d\<lparr>reader_enable := b\<rparr>) s)"
begin

lemma keeps_start_stop:
  assumes "P s"
  shows "P (snd (litepcie_dma_writer_start b i s))" "P (snd (litepcie_dma_writer_stop b i s))"
    "P (snd (litepcie_dma_reader_start b i s))" "P (snd (litepcie_dma_reader_stop b i s))"
  using assms frame [OF writer_clear [OF assms, of i]] frame [OF reader_clear [OF assms, of i]]
  by (cases b; simp add: wr.start_eq wr.stop_eq rd.start_eq rd.stop_eq
      wr.start_null wr.stop_null rd.start_null rd.stop_null)+

lemma keeps_irq_mask:
  assumes "P s"
  shows "P (litepcie_enable_interrupt e n s)" "P (litepcie_disable_interrupt e n s)"
  using assms by (rule frame; simp)+

lemma keeps_registers:
  assumes "P s"
  shows "P (litepcie_writel a v s)" "P (snd (litepcie_readl e a s))" "P (udelay n s)"
  using assms by (rule frame; simp)+

lemma keeps_interrupt:
  assumes "P s"
  shows "P (litepcie_interrupt e s)"
proof -
  have chan: "P (snd (irq_chan e v i (m, s)))" if "P s" for v i m s
  proof -
    have r: "P (irq_reader e i s)" "P (irq_writer e i s)" if "P s" for s
      using reader_hw [OF keeps_registers(2) [OF that]] writer_hw [OF keeps_registers(2) [OF that]]
      by (simp_all add: irq_reader_def irq_writer_def split_beta Let_def)
    then show ?thesis using that by (auto simp: irq_chan_def Let_def split_beta)
  qed
  have fold: "P (snd (fold (irq_chan e v) js cs))" if "P (snd cs)" for v js cs
    using that
  proof (induction js arbitrary: cs)
    case (Cons j js)
    have "P (snd (irq_chan e v j cs))" using chan [OF Cons.prems, of v j "fst cs"] by simp
    then show ?case using Cons.IH by simp
  qed simp
  show ?thesis
    using assms by (auto simp: litepcie_interrupt_def split_beta
        intro!: keeps_registers fold)
qed

lemma keeps_read_loop:
  "read_loop e a ci len i ov s = Ret r t \<Longrightarrow> P s \<Longrightarrow> P t"
proof (induction e a ci len i ov s rule: read_loop.induct)
  case (1 e a ci len i ov s)
  have uc: "P (s\<lparr>ucopies := u\<rparr>)" for u using "1.prems"(2) by (rule frame) simp_all
  have sw: "P (upd_dma ci (\<lambda>d. d\<lparr>writer_sw_count := writer_sw_count d + 1\<rparr>) q)" if "P q" for q
    using that by (rule writer_sw)
  have cp: "P q" if "copy_to_user e x p s = Ret n q" for x p n q
    using that "1.prems"(2) uc
    by (auto simp: copy_to_user_def Let_def split: if_splits option.splits)
  show ?case
  proof (cases "len < DMA_BUFFER_SIZE \<or> \<not> sgt (writer_pending (dma_of ci s)) 0")
    case True
    then have "t = s" using "1.prems"(1) by (subst (asm) read_loop.simps) (auto split: if_splits)
    then show ?thesis using "1.prems"(2) by simp
  next
    case False
    show ?thesis
    proof (cases "sgt (writer_pending (dma_of ci s)) (of_nat (DMA_BUFFER_COUNT div 2))")
      case True
      then show ?thesis
        using "1.IH"(1) False "1.prems" sw by (subst (asm) read_loop.simps) simp
    next
      case late: False
      then obtain p n q where c: "slot (writer_addr (dma_of ci s)) (writer_sw_count (dma_of ci s)) = Some p"
        "copy_to_user e (user_addr a ci i s) p s = Ret n q"
        using False "1.prems"(1)
        by (subst (asm) read_loop.simps) (auto split: option.splits kresult.splits)
      then show ?thesis
        using "1.IH"(2) [of p n q] False late "1.prems" sw cp [OF c(2)]
        by (subst (asm) read_loop.simps) (auto split: if_splits)
    qed
  qed
qed

lemma keeps_write_loop:
  "write_loop e a ci len i uf s = Ret r t \<Longrightarrow> P s \<Longrightarrow> P t"
proof (induction e a ci len i uf s rule: write_loop.induct)
  case (1 e a ci len i uf s)
  have dm: "P (s\<lparr>dmem := u\<rparr>)" for u using "1.prems"(2) by (rule frame) simp_all
  have sw: "P (upd_dma ci (\<lambda>d. d\<lparr>reader_sw_count := reader_sw_count d + 1\<rparr>) q)" if "P q" for q
    using that by (rule reader_sw)
  have cp: "P q" if "copy_from_user e p x s = Ret n q" for x p n q
    using that dm by (auto simp: copy_from_user_def Let_def split: option.splits)
  show ?case
  proof (cases "len < DMA_BUFFER_SIZE \<or>
      \<not> slt (reader_pending (dma_of ci s)) (of_nat (DMA_BUFFER_COUNT div 2))")
    case True
    then have "t = s" using "1.prems"(1) by (subst (asm) write_loop.simps) (auto split: if_splits)
    then show ?thesis using "1.prems"(2) by simp
  next
    case False
    show ?thesis
    proof (cases "slt (reader_pending (dma_of ci s)) 0")
      case True
      then show ?thesis
        using "1.IH"(1) False "1.prems" sw by (subst (asm) write_loop.simps) simp
    next
      case late: False
      then obtain p n q where c: "slot (reader_addr (dma_of ci s)) (reader_sw_count (dma_of ci s)) = Some p"
        "copy_from_user e p (user_addr a ci i s) s = Ret n q"
        using False "1.prems"(1)
        by (subst (asm) write_loop.simps) (auto split: option.splits kresult.splits)
      then show ?thesis
        using "1.IH"(2) [of p n q] False late "1.prems" sw cp [OF c(2)]
        by (subst (asm) write_loop.simps) (auto split: if_splits)
    qed
  qed
qed

lemma keeps_read:
  "litepcie_read e nb a sz f s = Ret r t \<Longrightarrow> P s \<Longrightarrow> P t"
  by (auto simp: litepcie_read_def Let_def split: if_splits dest!: kbind_result
      intro: keeps_read_loop)

lemma keeps_write:
  "litepcie_write e nb a sz f s = Ret r t \<Longrightarrow> P s \<Longrightarrow> P t"
  by (auto simp: litepcie_write_def Let_def split: if_splits dest!: kbind_result
      intro: keeps_write_loop)

lemma keeps_open:
  "litepcie_open ok ci s = (r, f, t) \<Longrightarrow> P s \<Longrightarrow> P t"
  by (auto simp: litepcie_open_def Let_def split: if_splits intro!: writer_clear reader_clear)

lemma keeps_flash_spi:
  assumes "P s"
  shows "P (snd (snd (litepcie_flash_spi e m s)))"
  using assms by (rule frame) (simp_all add: litepcie_flash_spi_def Let_def split_beta)

text \<open>The ioctl: every request keeps the property if the lock request does.\<close>

lemma keeps_reply:
  "reply u r m f s = Ret x t \<Longrightarrow> P s \<Longrightarrow> P t"
  by (auto simp: reply_def split: if_splits)

lemma keeps_ioctl_dma_writer:
  assumes "ioctl_dma_writer e u m f s = Ret x t" "P s"
  shows "P t"
  using assms
  by (auto simp: ioctl_dma_writer_def Let_def split: if_splits
      elim!: keeps_reply intro!: writer_flag keeps_irq_mask keeps_start_stop)

lemma keeps_ioctl_dma_reader:
  assumes "ioctl_dma_reader e u m f s = Ret x t" "P s"
  shows "P t"
  using assms
  by (auto simp: ioctl_dma_reader_def Let_def split_beta split: if_splits
      elim!: keeps_reply intro!: reader_flag keeps_irq_mask keeps_start_stop)

lemma keeps_core_ioctl:
  assumes "litepcie_ioctl e u cmd f s = Ret x t" "P s"
    and lock: "\<forall>m. cmd \<noteq> IOCTL_LOCK m" and init: "cmd \<noteq> IOCTL_DMA_INIT"
  shows "P t"
proof -
  have flash: "P (snd (snd (litepcie_flash_spi e m s)))" for m
    by (rule keeps_flash_spi [OF assms(2)])
  have "x = (- EFAULT, NoReply, f) \<Longrightarrow> P s" using assms(2) by simp
  then show ?thesis
    using assms flash
    by (cases cmd)
      (auto simp: litepcie_ioctl_def ioctl_reg_def ioctl_flash_def ioctl_icap_def ioctl_dma_def
        Let_def split_beta reader_sw writer_sw
        split: if_splits prod.split_asm
        dest!: keeps_ioctl_dma_writer keeps_ioctl_dma_reader keeps_reply
        intro!: keeps_registers reader_sw writer_sw elim!: keeps_reply)
qed

end

text \<open>Operations that also allocate and free the buffers.\<close>

locale driver_property = driver_core +
  assumes pool: "P s \<Longrightarrow> P (s\<lparr>live := l, nalloc := n\<rparr>)"
    and writer_buf: "P s \<Longrightarrow> P (upd_dma i (\<lambda>d. d\<lparr>writer_addr := (writer_addr d)[j := p],
      writer_handle := (writer_handle d)[j := h]\<rparr>) s)"
    and reader_buf: "P s \<Longrightarrow> P (upd_dma i (\<lambda>d. d\<lparr>reader_addr := (reader_addr d)[j := p],
      reader_handle := (reader_handle d)[j := h]\<rparr>) s)"
begin

lemma any_pool: "P s \<Longrightarrow> chan t = chan s \<Longrightarrow> channels t = channels s \<Longrightarrow> P t"
  using frame [OF pool [where l = "live t" and n = "nalloc t"], where t = t] by simp

lemma keeps_deinit:
  "litepcie_dma_deinit_cpu s = Ret r t \<Longrightarrow> P s \<Longrightarrow> P t"
  by (auto simp: deinit_cpu_free_list kbind_Ret_iff dest!: free_list_frame intro: any_pool)

lemma keeps_init_bufs:
  "P s \<Longrightarrow> P (snd (dma_init_bufs e i js s))"
proof (induction js arbitrary: s)
  case (Cons j js)
  have al: "P (snd (alloc_coherent e s))" if "P s" for s
    using that by (rule any_pool) (simp_all add: alloc_coherent_def Let_def)
  show ?case
    using Cons by (auto simp: split_beta Let_def intro!: Cons.IH writer_buf reader_buf al)
qed simp

lemma keeps_init:
  assumes "P s"
  shows "P (snd (litepcie_dma_init_cpu e b s))"
proof -
  have "P (snd (dma_init_chans e is s))" if "P s" for "is" s
    using that
    by (induction "is" arbitrary: s) (auto simp: split_beta intro: keeps_init_bufs)
  then show ?thesis using assms by (simp add: litepcie_dma_init_cpu_def)
qed

lemma keeps_ioctl:
  assumes "litepcie_ioctl e u cmd f s = Ret x t" "P s" and lock: "\<forall>m. cmd \<noteq> IOCTL_LOCK m"
  shows "P t"
proof (cases "cmd = IOCTL_DMA_INIT")
  case True
  then show ?thesis
    using assms(1) keeps_init [OF assms(2), of e "litepcie_dev (chan s ! priv_chan f)"] assms(2)
    by (auto simp: litepcie_ioctl_def Let_def split: if_splits prod.split_asm)
qed (use keeps_core_ioctl [OF assms] in simp)

end

text \<open>Operations that also write the lock words.\<close>

locale driver_core_locks = driver_core +
  assumes reader_locks: "P s \<Longrightarrow> P (upd_dma i (\<lambda>d. d\<lparr>reader_lock := x\<rparr>) s)"
    and writer_locks: "P s \<Longrightarrow> P (upd_dma i (\<lambda>d. d\<lparr>writer_lock := x\<rparr>) s)"
    and reader_off: "P s \<Longrightarrow> P (upd_dma i (\<lambda>d. d\<lparr>reader_lock := 0, reader_enable := 0\<rparr>) s)"
    and writer_off: "P s \<Longrightarrow> P (upd_dma i (\<lambda>d. d\<lparr>writer_lock := 0, writer_enable := 0\<rparr>) s)"
begin

lemma keeps_lock:
  assumes "P s"
  shows "P (snd (snd (lock_reader m f s)))" "P (snd (snd (lock_writer m f s)))"
  using assms by (auto simp: lock_reader_def lock_writer_def Let_def intro!: reader_locks writer_locks)

lemma keeps_lock_ioctl:
  assumes "litepcie_ioctl e u (IOCTL_LOCK m) f s = Ret x t" "P s"
  shows "P t"
proof -
  obtain m1 f1 s1 where 1: "lock_reader m f s = (m1, f1, s1)" by (metis prod_cases3)
  obtain m2 f2 s2 where 2: "lock_writer m1 f1 s1 = (m2, f2, s2)" by (metis prod_cases3)
  have "P s2" using keeps_lock(1) [OF assms(2), of m f] keeps_lock(2) [of s1 m1 f1] 1 2 by simp
  then show ?thesis using assms 1 2
    by (auto simp: litepcie_ioctl_def ioctl_lock_def Let_def split: if_splits elim: keeps_reply)
qed

lemma keeps_release_dirs:
  assumes "P s"
  shows "P (release_reader e ci s)" "P (release_writer e ci s)"
  using assms by (auto simp: release_reader_def release_writer_def Let_def
        intro!: reader_off writer_off keeps_start_stop keeps_irq_mask)

end

locale driver_property_locks = driver_property + driver_core_locks
begin

lemma keeps_any_ioctl:
  "litepcie_ioctl e u cmd f s = Ret x t \<Longrightarrow> P s \<Longrightarrow> P t"
  using keeps_ioctl keeps_lock_ioctl by (cases "\<exists>m. cmd = IOCTL_LOCK m") blast+

lemma keeps_release:
  "litepcie_release e f s = Ret r t \<Longrightarrow> P s \<Longrightarrow> P t"
  by (auto simp: litepcie_release_def Let_def kbind_Ret_iff split: if_splits
      elim!: keeps_deinit intro!: keeps_release_dirs)

end

section \<open>The device stays well formed\<close>

definition chan_inv :: "nat \<Rightarrow> litepcie_chan \<Rightarrow> bool" where
  "chan_inv i c \<longleftrightarrow> litepcie_dev c \<and> index c = i \<and> arrays_ok (dma c)
     \<and> reader_hw_count_last (dma c) = reader_hw_count (dma c)
     \<and> writer_hw_count_last (dma c) = writer_hw_count (dma c)"

definition kinv :: "kstate \<Rightarrow> bool" where
  "kinv s \<longleftrightarrow> channels s = length (chan s) \<and> (\<forall>i < length (chan s). chan_inv i (chan s ! i))"

lemma kinv_upd_dma:
  assumes "kinv s" "\<And>c. chan_inv i c \<Longrightarrow> chan_inv i (c\<lparr>dma := g (dma c)\<rparr>)"
  shows "kinv (upd_dma i g s)"
  using assms by (cases "i < length (chan s)")
    (auto simp: kinv_def upd_dma_def upd_chan_def nth_list_update list_update_beyond)

interpretation kinv: driver_property_locks kinv
  by unfold_locales
    ((rule kinv_upd_dma, assumption,
      simp add: chan_inv_def arrays_ok_def clear_writer_counts_def clear_reader_counts_def)
     | (simp add: kinv_def))+

section \<open>The lock words\<close>

definition lock_words :: "kstate \<Rightarrow> (u8 \<times> u8) list" where
  "lock_words s = map (\<lambda>c. (reader_lock (dma c), writer_lock (dma c))) (chan s)"

lemma lock_words_upd_dma:
  "lock_words (upd_dma i g s) =
     (lock_words s)[i := (reader_lock (g (dma_of i s)), writer_lock (g (dma_of i s)))]"
  by (simp add: lock_words_def upd_dma_def upd_chan_def map_update)

lemma lock_words_same:
  "reader_lock (g (dma_of i s)) = reader_lock (dma_of i s) \<Longrightarrow>
   writer_lock (g (dma_of i s)) = writer_lock (dma_of i s) \<Longrightarrow>
   lock_words (upd_dma i g s) = lock_words s"
  unfolding lock_words_upd_dma
  by (cases "i < length (chan s)") (simp_all add: lock_words_def list_update_same_conv list_update_beyond)

interpretation lock_words: driver_property "\<lambda>s. lock_words s = L" for L
  by unfold_locales
     (simp_all add: lock_words_same clear_writer_counts_def clear_reader_counts_def,
      simp_all add: lock_words_def)

section \<open>The channel of an open file\<close>

lemma chan_ready_upd:
  assumes "chan_ready c s" "\<And>d. base (f d) = base d"
  shows "chan_ready c (upd_dma i f s)"
  using assms by (cases "i = c") (simp_all add: chan_ready_def)

interpretation usable: driver_property_locks "chan_ready c" for c
proof unfold_locales
  fix s t :: kstate assume "chan_ready c s" "chan t = chan s" "channels t = channels s"
  then show "chan_ready c t" by (simp add: chan_ready_def)
next
  fix s :: kstate and l n assume "chan_ready c s"
  then show "chan_ready c (s\<lparr>live := l, nalloc := n\<rparr>)" by (simp add: chan_ready_def)
qed (auto intro: chan_ready_upd simp: clear_writer_counts_def clear_reader_counts_def)

section \<open>The memory of the rings\<close>

text \<open>The pool of buffers and the rings that point into it.\<close>

definition ring_memory :: "kstate \<Rightarrow> u64 list \<times> (u64 list \<times> u64 list) list \<times> nat" where
  "ring_memory s =
     (live s, map (\<lambda>c. (reader_addr (dma c), writer_addr (dma c))) (chan s), channels s)"

lemma ring_memory_upd_dma:
  assumes "\<And>d. reader_addr (g d) = reader_addr d \<and> writer_addr (g d) = writer_addr d"
  shows "ring_memory (upd_dma i g s) = ring_memory s"
  using assms by (cases "i < length (chan s)")
    (simp_all add: ring_memory_def upd_dma_def upd_chan_def map_update list_update_same_conv list_update_beyond)

interpretation rings: driver_core_locks "\<lambda>s. ring_memory s = M" for M
  by unfold_locales
    (simp_all add: ring_memory_upd_dma clear_writer_counts_def clear_reader_counts_def,
     simp add: ring_memory_def)

lemma ring_memory_buffers:
  assumes "ring_memory t = ring_memory s" "channels s \<le> length (chan s)"
  shows "live t = live s" "all_buffers t = all_buffers s"
proof -
  have eq: "live t = live s" "channels t = channels s"
    "map (\<lambda>c. (reader_addr (dma c), writer_addr (dma c))) (chan t)
      = map (\<lambda>c. (reader_addr (dma c), writer_addr (dma c))) (chan s)"
    using assms(1) by (simp_all add: ring_memory_def)
  show "live t = live s" by (rule eq(1))
  have len: "length (chan t) = length (chan s)" using arg_cong [OF eq(3), of length] by simp
  have "chan_buffers t i = chan_buffers s i" if "i < channels s" for i
  proof -
    have "i < length (chan s)" using that assms(2) by simp
    then have "reader_addr (dma_of i t) = reader_addr (dma_of i s)" "writer_addr (dma_of i t) = writer_addr (dma_of i s)"
      using arg_cong [OF eq(3), of "\<lambda>l. l ! i"] len by simp_all
    then show ?thesis by (simp add: chan_buffers_def pair_at_def [abs_def])
  qed
  then have "map (chan_buffers t) [0..<channels t] = map (chan_buffers s) [0..<channels s]"
    by (simp add: eq(2))
  then show "all_buffers t = all_buffers s" by (simp only: all_buffers_def)
qed

end
