(* ===== verification/Kernel_System.thy ===== *)
theory Kernel_System
  imports Kernel_Invariants
begin

text \<open>
  The driver as a whole: open files and the device state under any interleaving of system calls
  and interrupts, one call at a time. A step is one completed call on one file, or one interrupt.
  A run in which every release of a lock comes from a file that holds it keeps the locks
  exclusive; without that discipline it does not, since the ioctl does not check who releases.
\<close>

record driver =
  kst :: kstate
  files :: "nat \<Rightarrow> litepcie_chan_priv option"

text \<open>A lock request releases only what its file holds.\<close>

definition disciplined :: "ioctl_cmd \<Rightarrow> litepcie_chan_priv \<Rightarrow> bool" where
  "disciplined cmd f = (case cmd of
     IOCTL_LOCK m \<Rightarrow> (dma_reader_release m \<noteq> 0 \<longrightarrow> reader f) \<and> (dma_writer_release m \<noteq> 0 \<longrightarrow> writer f)
   | _ \<Rightarrow> True)"

inductive drv_step :: "bool \<Rightarrow> driver \<Rightarrow> driver \<Rightarrow> bool" for strict where
  step_open: "files D fd = None \<Longrightarrow> ci < channels (kst D) \<Longrightarrow>
     litepcie_open ok ci (kst D) = (r, fo, s) \<Longrightarrow>
     drv_step strict D (D\<lparr>kst := s, files := (files D)(fd := fo)\<rparr>)"
| step_close: "files D fd = Some f \<Longrightarrow> litepcie_release e f (kst D) = Ret r s \<Longrightarrow>
     drv_step strict D (D\<lparr>kst := s, files := (files D)(fd := None)\<rparr>)"
| step_read: "files D fd = Some f \<Longrightarrow> litepcie_read e nb a n f (kst D) = Ret r s \<Longrightarrow>
     drv_step strict D (D\<lparr>kst := s\<rparr>)"
| step_write: "files D fd = Some f \<Longrightarrow> litepcie_write e nb a n f (kst D) = Ret r s \<Longrightarrow>
     drv_step strict D (D\<lparr>kst := s\<rparr>)"
| step_ioctl: "files D fd = Some f \<Longrightarrow> (strict \<longrightarrow> disciplined cmd f) \<Longrightarrow>
     litepcie_ioctl e u cmd f (kst D) = Ret (r, rep, f') s \<Longrightarrow>
     drv_step strict D (D\<lparr>kst := s, files := (files D)(fd := Some f')\<rparr>)"
| step_irq: "drv_step strict D (D\<lparr>kst := litepcie_interrupt e (kst D)\<rparr>)"

inductive_cases drv_stepE: "drv_step strict D D'"

abbreviation drv_run :: "bool \<Rightarrow> driver \<Rightarrow> driver \<Rightarrow> bool" where
  "drv_run strict \<equiv> (drv_step strict)\<^sup>*\<^sup>*"

section \<open>Well-formedness\<close>

definition drv_inv :: "driver \<Rightarrow> bool" where
  "drv_inv D \<longleftrightarrow> kinv (kst D)
     \<and> (\<forall>fd f. files D fd = Some f \<longrightarrow> priv_chan f < length (chan (kst D)))"

text \<open>No operation changes the number of channels or the channel of a file.\<close>

interpretation nchan: driver_property_locks "\<lambda>s. length (chan s) = n" for n
  by unfold_locales simp_all

lemma reply_file: "reply u r m f s = Ret (r', m', f') t \<Longrightarrow> f' = f \<and> t = s"
  by (auto simp: reply_def split: if_splits)

lemma ioctl_file:
  assumes "litepcie_ioctl e u cmd f s = Ret (r, rep, f') t"
  shows "priv_chan f' = priv_chan f"
    and "(\<forall>m. cmd \<noteq> IOCTL_LOCK m) \<Longrightarrow> f' = f"
proof -
  have lock: "priv_chan (fst (snd (lock_reader m f s))) = priv_chan f"
    "priv_chan (fst (snd (lock_writer m f s))) = priv_chan f" for m f s
    by (simp_all add: lock_reader_def lock_writer_def Let_def)
  show "priv_chan f' = priv_chan f"
  proof (cases "\<exists>m. cmd = IOCTL_LOCK m")
    case True
    then obtain m where m: "cmd = IOCTL_LOCK m" by blast
    obtain m1 f1 s1 where 1: "lock_reader m f s = (m1, f1, s1)" by (metis prod_cases3)
    obtain m2 f2 s2 where 2: "lock_writer m1 f1 s1 = (m2, f2, s2)" by (metis prod_cases3)
    have "f' = f \<or> f' = f2" using assms m 1 2
      by (auto simp: litepcie_ioctl_def ioctl_lock_def Let_def split: if_splits dest: reply_file)
    then show ?thesis using lock(1) [of m f s] lock(2) [of m1 f1 s1] 1 2 by auto
  next
    case False
    then show ?thesis using assms
      by (cases cmd) (auto simp: ioctl_defs(1-7) Let_def split_beta split: if_splits
          dest: reply_file)
  qed
  show "f' = f" if "\<forall>m. cmd \<noteq> IOCTL_LOCK m"
    using assms that
    by (cases cmd) (auto simp: ioctl_defs(1-7) Let_def split_beta split: if_splits
        dest: reply_file)
qed

lemma drv_step_inv:
  assumes "drv_step b D D'" "drv_inv D"
  shows "drv_inv D'"
proof -
  have k: "kinv (kst D)" and fs: "\<And>fd f. files D fd = Some f \<Longrightarrow> priv_chan f < length (chan (kst D))"
    using assms(2) by (auto simp: drv_inv_def)
  from assms(1) show ?thesis
  proof (cases rule: drv_step.cases)
    case (step_open fd ci ok r fo s)
    have "kinv s" "length (chan s) = length (chan (kst D))"
      using kinv.keeps_open nchan.keeps_open k step_open by blast+
    moreover have "priv_chan f < length (chan (kst D))" if "fo = Some f" for f
      using step_open that k by (auto simp: litepcie_open_def Let_def kinv_def split: if_splits)
    ultimately show ?thesis using step_open fs by (auto simp: drv_inv_def)
  next
    case (step_close fd f e r s)
    then show ?thesis using kinv.keeps_release nchan.keeps_release k fs
      by (fastforce simp: drv_inv_def)
  next
    case (step_read fd f e nb a n r s)
    then show ?thesis using kinv.keeps_read nchan.keeps_read k fs
      by (fastforce simp: drv_inv_def)
  next
    case (step_write fd f e nb a n r s)
    then show ?thesis using kinv.keeps_write nchan.keeps_write k fs
      by (fastforce simp: drv_inv_def)
  next
    case (step_ioctl fd f cmd e u r rep f' s)
    have "kinv s" "length (chan s) = length (chan (kst D))"
      using kinv.keeps_any_ioctl nchan.keeps_any_ioctl k step_ioctl by blast+
    moreover have "priv_chan f' = priv_chan f" using ioctl_file(1) step_ioctl by blast
    ultimately show ?thesis using step_ioctl fs by (auto simp: drv_inv_def)
  next
    case (step_irq e)
    then show ?thesis using kinv.keeps_interrupt nchan.keeps_interrupt k fs
      by (fastforce simp: drv_inv_def)
  qed
qed

lemma drv_run_inv:
  "drv_run b D D' \<Longrightarrow> drv_inv D \<Longrightarrow> drv_inv D'"
  by (induction rule: rtranclp_induct) (auto intro: drv_step_inv)

section \<open>Exclusive locks\<close>

text \<open>
  For one direction: \<open>h\<close> says whether a file holds the lock of its channel, \<open>w\<close> is the lock
  word of each channel. At most one file holds a lock, and a word is set exactly when a file
  holds it.
\<close>

definition holds :: "(nat \<Rightarrow> litepcie_chan_priv option) \<Rightarrow> (litepcie_chan_priv \<Rightarrow> bool) \<Rightarrow> nat \<Rightarrow> nat \<Rightarrow> bool" where
  "holds fs h a c \<longleftrightarrow> (\<exists>f. fs a = Some f \<and> h f \<and> priv_chan f = c)"

definition excl :: "(nat \<Rightarrow> litepcie_chan_priv option) \<Rightarrow> (litepcie_chan_priv \<Rightarrow> bool) \<Rightarrow> (nat \<Rightarrow> u8) \<Rightarrow> bool" where
  "excl fs h w \<longleftrightarrow> (\<forall>a b c. holds fs h a c \<and> holds fs h b c \<longrightarrow> a = b)
     \<and> (\<forall>c. w c \<noteq> 0 \<longleftrightarrow> (\<exists>a. holds fs h a c))"

lemma holds_upd:
  "holds (fs(fd := fo)) h a c \<longleftrightarrow>
     (if a = fd then (case fo of None \<Rightarrow> False | Some f \<Rightarrow> h f \<and> priv_chan f = c) else holds fs h a c)"
  by (auto simp: holds_def split: option.splits)

lemma holds_at: "fs fd = Some f \<Longrightarrow> holds fs h fd c \<longleftrightarrow> h f \<and> priv_chan f = c"
  by (auto simp: holds_def)

lemma excl_same:
  assumes "excl fs h w" "\<And>a c. holds fs' h a c = holds fs h a c"
  shows "excl fs' h w"
  using assms by (simp add: excl_def)

lemma excl_neutral:
  assumes "excl fs h w" "fs fd = Some f" "h f' = h f" "priv_chan f' = priv_chan f"
  shows "excl (fs(fd := Some f')) h w"
  by (rule excl_same [OF assms(1)]) (use assms in \<open>auto simp: holds_upd holds_at\<close>)

lemma excl_open:
  assumes "excl fs h w" "fs fd = None" "\<forall>f. fo = Some f \<longrightarrow> \<not> h f"
  shows "excl (fs(fd := fo)) h w"
  by (rule excl_same [OF assms(1)]) (use assms in \<open>auto simp: holds_def split: option.splits\<close>)

lemma excl_close:
  assumes "excl fs h w" "fs fd = Some f" "\<not> h f"
  shows "excl (fs(fd := None)) h w"
  by (rule excl_same [OF assms(1)]) (use assms in \<open>auto simp: holds_upd holds_at\<close>)

lemma excl_take:
  assumes "excl fs h w" "fs fd = Some f" "w (priv_chan f) = 0" "priv_chan f' = priv_chan f" "h f'"
  shows "excl (fs(fd := Some f')) h (w(priv_chan f := 1))"
proof -
  have free: "\<not> holds fs h a (priv_chan f)" for a
    using assms(1,3) by (auto simp: excl_def)
  have "holds (fs(fd := Some f')) h a c \<longleftrightarrow>
      (if c = priv_chan f then a = fd else holds fs h a c)" for a c
    using free assms(2,4,5) by (auto simp: holds_upd holds_at)
  then show ?thesis using assms(1) unfolding excl_def by (auto split: if_splits) blast
qed

lemma excl_drop:
  assumes "excl fs h w" "fs fd = Some f" "h f" "\<forall>f'. fo = Some f' \<longrightarrow> \<not> h f'"
  shows "excl (fs(fd := fo)) h (w(priv_chan f := 0))"
proof -
  have mine: "holds fs h a (priv_chan f) \<longleftrightarrow> a = fd" for a
    using assms(1-3) by (auto simp: excl_def holds_at)
  have "holds (fs(fd := fo)) h a c \<longleftrightarrow> c \<noteq> priv_chan f \<and> holds fs h a c" for a c
    using mine assms(2,4) by (auto simp: holds_upd holds_at split: option.splits)
  then show ?thesis using assms(1) unfolding excl_def by (auto split: if_splits) blast
qed

definition rlock :: "kstate \<Rightarrow> nat \<Rightarrow> u8" where
  "rlock s c = (if c < length (chan s) then reader_lock (dma_of c s) else 0)"

definition wlock :: "kstate \<Rightarrow> nat \<Rightarrow> u8" where
  "wlock s c = (if c < length (chan s) then writer_lock (dma_of c s) else 0)"

definition locks_ok :: "driver \<Rightarrow> bool" where
  "locks_ok D \<longleftrightarrow> excl (files D) reader (rlock (kst D)) \<and> excl (files D) writer (wlock (kst D))"

lemma rlock_words:
  "lock_words s = lock_words t \<Longrightarrow> rlock s = rlock t \<and> wlock s = wlock t"
proof -
  assume eq: "lock_words s = lock_words t"
  then have len: "length (chan s) = length (chan t)"
    by (metis length_map lock_words_def)
  have "reader_lock (dma_of c s) = reader_lock (dma_of c t)
      \<and> writer_lock (dma_of c s) = writer_lock (dma_of c t)" if "c < length (chan s)" for c
    using arg_cong [OF eq, of "\<lambda>l. l ! c"] that len by (simp add: lock_words_def)
  then show ?thesis using len by (auto simp: rlock_def wlock_def)
qed

lemma rlock_upd_dma:
  "i < length (chan s) \<Longrightarrow> rlock (upd_dma i g s) = (rlock s)(i := reader_lock (g (dma_of i s)))"
  "i < length (chan s) \<Longrightarrow> wlock (upd_dma i g s) = (wlock s)(i := writer_lock (g (dma_of i s)))"
  by (auto simp: rlock_def wlock_def fun_eq_iff)

lemma rlock_self: "i < length (chan s) \<Longrightarrow> reader_lock (dma_of i s) = rlock s i"
  "i < length (chan s) \<Longrightarrow> writer_lock (dma_of i s) = wlock s i"
  by (simp_all add: rlock_def wlock_def)

lemma lock_reader_excl:
  assumes ex: "excl fs reader (rlock s)" and f: "fs fd = Some f" and c: "priv_chan f < length (chan s)"
    and rel: "dma_reader_release m \<noteq> 0 \<longrightarrow> reader f"
    and r: "lock_reader m f s = (m', f', s')"
  shows "excl (fs(fd := Some f')) reader (rlock s')"
proof (cases "dma_reader_release m = 0")
  case False
  then have "f' = f\<lparr>reader := False\<rparr>" "rlock s' = (rlock s)(priv_chan f := 0)"
    using r c rel by (auto simp: lock_reader_def Let_def rlock_upd_dma split: if_splits)
  then show ?thesis using False rel excl_drop [OF ex f, of "Some f'"] by simp
next
  case rel0: True
  show ?thesis
  proof (cases "dma_reader_request m \<noteq> 0 \<and> rlock s (priv_chan f) = 0")
    case True
    then have "f' = f\<lparr>reader := True\<rparr>" "rlock s' = (rlock s)(priv_chan f := 1)"
      using r c rel0 by (auto simp: lock_reader_def Let_def rlock_upd_dma rlock_self)
    then show ?thesis using True excl_take [OF ex f, of f'] by simp
  next
    case False
    then have "f' = f" "s' = s"
      using r c rel0 by (auto simp: lock_reader_def Let_def rlock_self split: if_splits)
    then show ?thesis using excl_neutral [OF ex f] by simp
  qed
qed

lemma lock_writer_excl:
  assumes ex: "excl fs writer (wlock s)" and f: "fs fd = Some f" and c: "priv_chan f < length (chan s)"
    and rel: "dma_writer_release m \<noteq> 0 \<longrightarrow> writer f"
    and r: "lock_writer m f s = (m', f', s')"
  shows "excl (fs(fd := Some f')) writer (wlock s')"
proof (cases "dma_writer_release m = 0")
  case False
  then have "f' = f\<lparr>writer := False\<rparr>" "wlock s' = (wlock s)(priv_chan f := 0)"
    using r c rel by (auto simp: lock_writer_def Let_def rlock_upd_dma split: if_splits)
  then show ?thesis using False rel excl_drop [OF ex f, of "Some f'"] by simp
next
  case rel0: True
  show ?thesis
  proof (cases "dma_writer_request m \<noteq> 0 \<and> wlock s (priv_chan f) = 0")
    case True
    then have "f' = f\<lparr>writer := True\<rparr>" "wlock s' = (wlock s)(priv_chan f := 1)"
      using r c rel0 by (auto simp: lock_writer_def Let_def rlock_upd_dma rlock_self)
    then show ?thesis using True excl_take [OF ex f, of f'] by simp
  next
    case False
    then have "f' = f" "s' = s"
      using r c rel0 by (auto simp: lock_writer_def Let_def rlock_self split: if_splits)
    then show ?thesis using excl_neutral [OF ex f] by simp
  qed
qed

lemma lock_frames:
  "lock_reader m f s = (m', f', s') \<Longrightarrow> priv_chan f < length (chan s) \<Longrightarrow>
     writer f' = writer f \<and> wlock s' = wlock s \<and> priv_chan f' = priv_chan f
     \<and> dma_writer_release m' = dma_writer_release m \<and> length (chan s') = length (chan s)"
  "lock_writer m f s = (m', f', s') \<Longrightarrow> priv_chan f < length (chan s) \<Longrightarrow>
     reader f' = reader f \<and> rlock s' = rlock s \<and> priv_chan f' = priv_chan f"
  by (auto simp: lock_reader_def lock_writer_def Let_def rlock_upd_dma rlock_self fun_upd_idem_iff
      split: if_splits)

lemma lock_request_excl:
  assumes "locks_ok D" "files D fd = Some f" "priv_chan f < length (chan (kst D))"
    and "disciplined (IOCTL_LOCK m) f"
    and "litepcie_ioctl e u (IOCTL_LOCK m) f (kst D) = Ret (r, rep, f') s'"
  shows "locks_ok (D\<lparr>kst := s', files := (files D)(fd := Some f')\<rparr>)"
proof (cases "from_ok u")
  case False
  then have "f' = f" "s' = kst D" using assms(5) by (auto simp: litepcie_ioctl_def Let_def)
  then show ?thesis using assms(1,2) by (simp add: locks_ok_def fun_upd_idem)
next
  case True
  obtain m1 f1 s1 where 1: "lock_reader m f (kst D) = (m1, f1, s1)" by (metis prod_cases3)
  obtain m2 f2 s2 where 2: "lock_writer m1 f1 s1 = (m2, f2, s2)" by (metis prod_cases3)
  have res: "f' = f2" "s' = s2" using assms(5) True 1 2
    by (auto simp: litepcie_ioctl_def ioctl_lock_def reply_def split: if_splits)
  note f1 = lock_frames(1) [OF 1 assms(3)]
  have c1: "priv_chan f1 < length (chan s1)" using f1 assms(3) by simp
  note f2 = lock_frames(2) [OF 2 c1]
  let ?fs1 = "(files D)(fd := Some f1)"
  have "excl ?fs1 reader (rlock s1)"
    using assms(1-4) 1 by (intro lock_reader_excl) (auto simp: locks_ok_def disciplined_def)
  then have "excl (?fs1(fd := Some f2)) reader (rlock s2)"
    using excl_neutral [of ?fs1 reader "rlock s1" fd f1 f2] f2 by simp
  moreover have "excl ?fs1 writer (wlock (kst D))"
    using excl_neutral [of "files D" writer "wlock (kst D)" fd f f1] assms(1,2) f1
    by (simp add: locks_ok_def)
  then have "excl ?fs1 writer (wlock s1)" using f1 by simp
  then have "excl (?fs1(fd := Some f2)) writer (wlock s2)"
    by (rule lock_writer_excl [OF _ _ c1 _ 2]) (use assms(4) f1 in \<open>simp_all add: disciplined_def\<close>)
  ultimately show ?thesis using res by (simp add: locks_ok_def)
qed

lemma release_words:
  "priv_chan f < length (chan s) \<Longrightarrow> litepcie_release e f s = Ret r t \<Longrightarrow>
     rlock t = (if reader f then (rlock s)(priv_chan f := 0) else rlock s)
   \<and> wlock t = (if writer f then (wlock s)(priv_chan f := 0) else wlock s)"
proof -
  assume c: "priv_chan f < length (chan s)" and r: "litepcie_release e f s = Ret r t"
  let ?i = "priv_chan f"
  define s1 where "s1 = (if reader f then release_reader e ?i s else s)"
  define s2 where "s2 = (if writer f then release_writer e ?i s1 else s1)"
  have words: "lock_words (snd (litepcie_dma_reader_stop b j (litepcie_disable_interrupt e n q))) = lock_words q"
    "lock_words (snd (litepcie_dma_writer_stop b j (litepcie_disable_interrupt e n q))) = lock_words q"
    for b j n q
    by (intro lock_words.keeps_start_stop lock_words.keeps_irq_mask refl)+
  have len: "length (chan (snd (litepcie_dma_reader_stop b j q))) = length (chan q)"
    "length (chan (snd (litepcie_dma_writer_stop b j q))) = length (chan q)" for b j q
    by (intro nchan.keeps_start_stop refl)+
  have rr: "rlock (release_reader e ?i q) = (rlock q)(?i := 0) \<and> wlock (release_reader e ?i q) = wlock q
      \<and> length (chan (release_reader e ?i q)) = length (chan q)"
    if "?i < length (chan q)" for q
    using that rlock_words [OF words(1)] len(1)
    by (simp add: release_reader_def Let_def rlock_upd_dma rlock_self fun_upd_idem_iff)
  have ww: "wlock (release_writer e ?i q) = (wlock q)(?i := 0) \<and> rlock (release_writer e ?i q) = rlock q"
    if "?i < length (chan q)" for q
    using that rlock_words [OF words(2)] len(2)
    by (simp add: release_writer_def Let_def rlock_upd_dma rlock_self fun_upd_idem_iff)
  obtain v where "litepcie_dma_deinit_cpu s2 = Ret v t"
    using r by (auto simp: litepcie_release_def Let_def s1_def s2_def kbind_Ret_iff split: if_splits)
  then have "lock_words t = lock_words s2" using lock_words.keeps_deinit by blast
  then show ?thesis
    using rlock_words [of t s2] rr [OF c] ww [of s1] c by (auto simp: s1_def s2_def)
qed

lemma close_locks:
  assumes "locks_ok D" "files D fd = Some f" "priv_chan f < length (chan (kst D))"
    and "litepcie_release e f (kst D) = Ret r s"
  shows "locks_ok (D\<lparr>kst := s, files := (files D)(fd := None)\<rparr>)"
proof -
  have "excl ((files D)(fd := None)) reader (rlock s)"
    using release_words [OF assms(3,4)] assms(1,2)
      excl_drop [of "files D" reader "rlock (kst D)" fd f None]
      excl_close [of "files D" reader "rlock (kst D)" fd f]
    by (simp add: locks_ok_def split: if_splits)
  moreover have "excl ((files D)(fd := None)) writer (wlock s)"
    using release_words [OF assms(3,4)] assms(1,2)
      excl_drop [of "files D" writer "wlock (kst D)" fd f None]
      excl_close [of "files D" writer "wlock (kst D)" fd f]
    by (simp add: locks_ok_def split: if_splits)
  ultimately show ?thesis by (simp add: locks_ok_def)
qed

lemma keep_locks:
  assumes "locks_ok D" "lock_words s = lock_words (kst D)"
  shows "locks_ok (D\<lparr>kst := s\<rparr>)"
  using assms rlock_words [OF assms(2)] by (simp add: locks_ok_def)

lemma strict_step_locks:
  assumes "drv_step True D D'" "drv_inv D" "locks_ok D"
  shows "locks_ok D'"
proof -
  have fs: "\<And>fd f. files D fd = Some f \<Longrightarrow> priv_chan f < length (chan (kst D))"
    using assms(2) by (auto simp: drv_inv_def)
  from assms(1) show ?thesis
  proof (cases rule: drv_step.cases)
    case (step_open fd ci ok r fo s)
    have "lock_words s = lock_words (kst D)"
      using lock_words.keeps_open step_open(4) by blast
    moreover have "\<forall>f. fo = Some f \<longrightarrow> \<not> reader f \<and> \<not> writer f"
      using step_open(4) by (auto simp: litepcie_open_def Let_def split: if_splits)
    ultimately show ?thesis
      using assms(3) step_open(1,2) rlock_words [of s "kst D"]
      by (simp add: locks_ok_def excl_open)
  next
    case (step_close fd f e r s)
    then show ?thesis using close_locks assms(3) fs by blast
  next
    case (step_read fd f e nb a n r s)
    then show ?thesis using keep_locks assms(3) lock_words.keeps_read by blast
  next
    case (step_write fd f e nb a n r s)
    then show ?thesis using keep_locks assms(3) lock_words.keeps_write by blast
  next
    case (step_ioctl fd f cmd e u r rep f' s)
    show ?thesis
    proof (cases "\<exists>m. cmd = IOCTL_LOCK m")
      case True
      then show ?thesis using lock_request_excl assms(3) fs step_ioctl by blast
    next
      case False
      then have "f' = f" using ioctl_file(2) step_ioctl by blast
      then have "(files D)(fd := Some f') = files D" using step_ioctl by (simp add: fun_upd_idem)
      moreover have "lock_words s = lock_words (kst D)"
        using lock_words.keeps_ioctl False step_ioctl by blast
      ultimately show ?thesis using keep_locks [OF assms(3)] step_ioctl by simp
    qed
  next
    case (step_irq e)
    then show ?thesis using keep_locks [OF assms(3)] lock_words.keeps_interrupt by blast
  qed
qed

lemma strict_run_locks:
  assumes "drv_run True D D'" "drv_inv D" "locks_ok D"
  shows "drv_inv D' \<and> locks_ok D'"
  using assms
  by (induction rule: rtranclp_induct) (auto intro: drv_step_inv strict_step_locks)

lemma excl_unique:
  assumes "excl fs h w" "fs a = Some f" "fs b = Some g" "priv_chan f = priv_chan g" "h f" "h g"
  shows "a = b"
proof -
  have "holds fs h a (priv_chan f)" "holds fs h b (priv_chan f)"
    using assms by (simp_all add: holds_at)
  then show ?thesis using assms(1) unfolding excl_def by blast
qed

lemma locks_exclusive:
  assumes "locks_ok D" "files D a = Some f" "files D b = Some g" "priv_chan f = priv_chan g"
  shows "reader f \<and> reader g \<longrightarrow> a = b" and "writer f \<and> writer g \<longrightarrow> a = b"
  using assms by (auto simp: locks_ok_def intro: excl_unique)

end
