(* ===== verification/Kernel_Probe.thy ===== *)
theory Kernel_Probe
  imports Kernel_System
begin

text \<open>
  Life of the device in \<open>main.c\<close>: module load and unload, \<open>litepcie_pci_probe\<close> with its
  error exits, \<open>litepcie_pci_remove\<close>, and the character devices. The answers of the kernel
  services are the record \<open>probe_env\<close>; what the kernel holds on behalf of the driver
  (interrupt vectors and handlers, character devices, nodes under /dev, the UART platform device,
  the next free minor) is the record \<open>kworld\<close>. An interrupt handler is registered under a
  cookie, and \<open>free_irq\<close> removes it only when called with the same cookie.
\<close>

section \<open>Services and resources of the kernel\<close>

datatype cookie = PciDev | LitepcieDev

record kworld =
  minor_idx :: int
  vectors :: bool
  handlers :: "(nat \<times> cookie) list"
  cdevs :: "int list"
  nodes :: "int list"
  uart :: bool

record probe_env =
  kzalloc_ok :: bool
  enable_ret :: int
  revision_id :: u8
  bar0_is_mem :: bool
  iomap_ret :: int
  bar0_mapped :: bool
  dma_mask_ret :: int
  irq_vectors :: int
  request_irq :: "nat \<Rightarrow> int"
  cdev_add :: "nat \<Rightarrow> int"
  device_create :: "nat \<Rightarrow> bool"
  tty_alloc :: bool
  uart_register :: int

definition free_irq :: "nat \<Rightarrow> cookie \<Rightarrow> kworld \<Rightarrow> kworld" where
  "free_irq i c w = w\<lparr>handlers := remove1 (i, c) (handlers w)\<rparr>"

section \<open>Character devices\<close>

text \<open>The loop over \<open>cdev_add\<close>: the first failing channel stops it.\<close>

fun add_cdevs :: "probe_env \<Rightarrow> nat list \<Rightarrow> kworld \<Rightarrow> int \<times> kworld" where
  "add_cdevs pe [] w = (0, w)"
| "add_cdevs pe (i # is) w =
     (if cdev_add pe i < 0 then (cdev_add pe i, w)
      else add_cdevs pe is (w\<lparr>cdevs := (minor_idx w + int i) # cdevs w\<rparr>))"

text \<open>The loop over \<open>device_create\<close>; on failure the number of nodes made so far.\<close>

fun create_nodes :: "probe_env \<Rightarrow> nat list \<Rightarrow> kworld \<Rightarrow> nat option \<times> kworld" where
  "create_nodes pe [] w = (None, w)"
| "create_nodes pe (i # is) w =
     (if \<not> device_create pe i then (Some i, w)
      else create_nodes pe is (w\<lparr>nodes := (minor_idx w + int i) # nodes w\<rparr>))"

definition device_destroy :: "int \<Rightarrow> kworld \<Rightarrow> kworld" where
  "device_destroy m w = w\<lparr>nodes := remove1 m (nodes w)\<rparr>"

definition cdev_del :: "int \<Rightarrow> kworld \<Rightarrow> kworld" where
  "cdev_del m w = w\<lparr>cdevs := remove1 m (cdevs w)\<rparr>"

definition litepcie_alloc_chdev :: "probe_env \<Rightarrow> kstate \<Rightarrow> kworld \<Rightarrow> int \<times> kstate \<times> kworld" where
  "litepcie_alloc_chdev pe s w =
     (let index = minor_idx w;
          s = s\<lparr>minor_base := index\<rparr>;
          fail_alloc = (\<lambda>w. fold (\<lambda>i. cdev_del (index + int i)) [0..<channels s] w)
      in case add_cdevs pe [0..<channels s] w of (ret, w) \<Rightarrow>
        if ret < 0 then (ret, s, fail_alloc w)
        else case create_nodes pe [0..<channels s] w of
          (Some i, w) \<Rightarrow>
            (- EINVAL, s, fail_alloc (fold (\<lambda>j. device_destroy (index + int j)) [0..<i] w))
        | (None, w) \<Rightarrow> (0, s, w\<lparr>minor_idx := index + int (channels s)\<rparr>))"

definition litepcie_free_chdev :: "kstate \<Rightarrow> kworld \<Rightarrow> kworld" where
  "litepcie_free_chdev s w =
     fold (\<lambda>i w. cdev_del (minor_base s + int i) (device_destroy (minor_base s + int i) w))
       [0..<channels s] w"

section \<open>Probe\<close>

definition DMA_CHANNEL_COUNT :: nat where [csr_defs]: "DMA_CHANNEL_COUNT = DMA_CHANNELS"

definition zero_dma :: litepcie_dma_chan where
  "zero_dma = \<lparr>base = 0, writer_interrupt = 0, reader_interrupt = 0,
     reader_handle = replicate DMA_BUFFER_COUNT 0, writer_handle = replicate DMA_BUFFER_COUNT 0,
     reader_addr = replicate DMA_BUFFER_COUNT 0, writer_addr = replicate DMA_BUFFER_COUNT 0,
     reader_hw_count = 0, reader_hw_count_last = 0, reader_sw_count = 0,
     writer_hw_count = 0, writer_hw_count_last = 0, writer_sw_count = 0,
     writer_enable = 0, reader_enable = 0, writer_lock = 0, reader_lock = 0\<rparr>"

definition zero_chan :: litepcie_chan where
  "zero_chan = \<lparr>litepcie_dev = False, dma = zero_dma, block_size = 0, index = 0, minor = 0\<rparr>"

text \<open>\<open>devm_kzalloc\<close>: an all-zero device.\<close>

definition zero_device :: kstate where
  "zero_device = \<lparr>chan = replicate DMA_CHANNEL_COUNT zero_chan, minor_base = 0, irqs = 0,
     channels = 0, mmio = [], live = [], nalloc = 0, dmem = (\<lambda>_. []), ucopies = []\<rparr>"

definition probe_reset :: "kenv \<Rightarrow> kstate \<Rightarrow> kstate" where
  "probe_reset e s =
     fold (\<lambda>i s. snd (litepcie_readl e (CSR_IDENTIFIER_MEM_BASE + of_nat (i * 4)) s)) [0..<256]
       (udelay 10000 (litepcie_writel CSR_CTRL_RESET_ADDR 1 s))"

text \<open>
  The loop over \<open>request_irq\<close>: on failure of the \<open>i\<close>-th it frees the earlier ones with the
  cookie \<open>dev\<close>, which is not the one they were requested with.
\<close>

fun request_irqs :: "probe_env \<Rightarrow> nat list \<Rightarrow> kstate \<Rightarrow> kworld \<Rightarrow> int \<times> kstate \<times> kworld" where
  "request_irqs pe [] s w = (0, s, w)"
| "request_irqs pe (i # is) s w =
     (if request_irq pe i < 0
      then (request_irq pe i, s, fold (\<lambda>j. free_irq j PciDev) (rev [0..<i]) w)
      else request_irqs pe is (s\<lparr>irqs := irqs s + 1\<rparr>)
             (w\<lparr>handlers := (i, LitepcieDev) # handlers w\<rparr>))"

definition init_chan :: "nat \<Rightarrow> kstate \<Rightarrow> kstate" where
  "init_chan i s = upd_chan i (\<lambda>c. c\<lparr>
     index := i,
     block_size := of_nat DMA_BUFFER_SIZE,
     minor := minor_base s + int i,
     litepcie_dev := True,
     dma := (dma c)\<lparr>writer_lock := 0, reader_lock := 0,
              base := CSR_PCIE_DMA0_BASE,
              writer_interrupt := PCIE_DMA0_WRITER_INTERRUPT,
              reader_interrupt := PCIE_DMA0_READER_INTERRUPT\<rparr>\<rparr>) s"

definition pci_free_irq_vectors :: "kworld \<Rightarrow> kworld" where
  "pci_free_irq_vectors w = w\<lparr>vectors := False\<rparr>"

text \<open>From the character devices on: the exits \<open>fail3\<close>, \<open>fail2\<close> and the direct return.\<close>

definition probe_chans :: "probe_env \<Rightarrow> kstate \<Rightarrow> kworld \<Rightarrow> int \<times> kstate option \<times> kworld" where
  "probe_chans pe s w =
     (let s = s\<lparr>channels := DMA_CHANNELS\<rparr> in
      case litepcie_alloc_chdev pe s w of (ret, s, w) \<Rightarrow>
        if ret \<noteq> 0 then (ret, None, pci_free_irq_vectors w) else
        let s = fold init_chan [0..<channels s] s in
        if \<not> tty_alloc pe then (- ENOMEM, None, w)
        else if uart_register pe < 0 then
          (uart_register pe, None, pci_free_irq_vectors (litepcie_free_chdev s w))
        else (0, Some s, w\<lparr>uart := True\<rparr>))"

definition litepcie_pci_probe :: "kenv \<Rightarrow> probe_env \<Rightarrow> kworld \<Rightarrow> int \<times> kstate option \<times> kworld" where
  "litepcie_pci_probe e pe w =
     (if \<not> kzalloc_ok pe then (- ENOMEM, None, w)
      else if enable_ret pe \<noteq> 0 then (enable_ret pe, None, w)
      else if revision_id pe \<noteq> 0 then (- EIO, None, w)
      else if \<not> bar0_is_mem pe then (- EIO, None, w)
      else if iomap_ret pe < 0 then (- EIO, None, w)
      else if \<not> bar0_mapped pe then (- EIO, None, w)
      else let s = probe_reset e zero_device in
      if dma_mask_ret pe \<noteq> 0 then (dma_mask_ret pe, None, w)
      else if irq_vectors pe < 0 then (irq_vectors pe, None, w)
      else case request_irqs pe [0..<nat (irq_vectors pe)] (s\<lparr>irqs := 0\<rparr>) (w\<lparr>vectors := True\<rparr>)
        of (ret, s, w) \<Rightarrow>
          if ret < 0 then (ret, None, pci_free_irq_vectors w) else probe_chans pe s w)"

section \<open>Remove\<close>

definition litepcie_pci_remove :: "kstate \<Rightarrow> kworld \<Rightarrow> kstate \<times> kworld" where
  "litepcie_pci_remove s w =
     (let s = litepcie_stop_dma s;
          s = litepcie_writel CSR_PCIE_MSI_ENABLE_ADDR 0 s;
          w = fold (\<lambda>i. free_irq i LitepcieDev) [0..<irqs s] w;
          w = w\<lparr>uart := False\<rparr>;
          w = litepcie_free_chdev s w
      in (s, pci_free_irq_vectors w))"

section \<open>Module load and unload\<close>

record module_env =
  class_ok :: bool
  chrdev_ret :: int
  register_ret :: int

record module_state =
  class_made :: bool
  chrdev_region :: bool
  driver_registered :: bool

definition litepcie_module_init :: "module_env \<Rightarrow> module_state \<Rightarrow> int \<times> module_state" where
  "litepcie_module_init me m =
     (if \<not> class_ok me then (- EEXIST, m) else
      let m = m\<lparr>class_made := True\<rparr> in
      if chrdev_ret me < 0 then (chrdev_ret me, m\<lparr>class_made := False\<rparr>) else
      let m = m\<lparr>chrdev_region := True\<rparr> in
      if register_ret me < 0 then
        (register_ret me, m\<lparr>chrdev_region := False, class_made := False\<rparr>)
      else (0, m\<lparr>driver_registered := True\<rparr>))"

definition litepcie_module_exit :: "module_state \<Rightarrow> module_state" where
  "litepcie_module_exit m =
     m\<lparr>driver_registered := False, chrdev_region := False, class_made := False\<rparr>"

section \<open>Revisions\<close>

record revision =
  yy :: int
  mm :: int
  dd :: int

definition compare_revisions :: "revision \<Rightarrow> revision \<Rightarrow> int" where
  "compare_revisions d1 d2 =
     (if yy d1 < yy d2 then - 1
      else if yy d1 > yy d2 then 1
      else if mm d1 < mm d2 then - 1
      else if mm d1 > mm d2 then 1
      else if dd d1 < dd d2 then - 1
      else if dd d1 > dd d2 then 1
      else 0)"

section \<open>What probe and remove do\<close>

lemma fold_readl_mmio:
  "\<exists>m. fold (\<lambda>i s. snd (litepcie_readl e (g i) s)) js s = s\<lparr>mmio := m\<rparr>"
proof (induction js arbitrary: s)
  case Nil
  then show ?case by (intro exI [of _ "mmio s"]) simp
next
  case (Cons j js)
  obtain m where "fold (\<lambda>i s. snd (litepcie_readl e (g i) s)) js (snd (litepcie_readl e (g j) s))
      = (snd (litepcie_readl e (g j) s))\<lparr>mmio := m\<rparr>" using Cons.IH by blast
  then show ?case by (intro exI [of _ m]) (simp add: litepcie_readl_def Let_def)
qed

lemma probe_reset_mmio: "\<exists>m. probe_reset e s = s\<lparr>mmio := m\<rparr>"
  using fold_readl_mmio [of e "\<lambda>i. CSR_IDENTIFIER_MEM_BASE + of_nat (i * 4)" "[0..<256]"
      "udelay 10000 (litepcie_writel CSR_CTRL_RESET_ADDR 1 s)"]
  by (auto simp: probe_reset_def udelay_def litepcie_writel_def)

lemma probe_reset_simps [simp]:
  "chan (probe_reset e s) = chan s" "live (probe_reset e s) = live s"
  "channels (probe_reset e s) = channels s" "minor_base (probe_reset e s) = minor_base s"
  "irqs (probe_reset e s) = irqs s"
  using probe_reset_mmio [of e s] by auto

lemma request_irqs_ok:
  "\<forall>i \<in> set is. 0 \<le> request_irq pe i \<Longrightarrow>
   request_irqs pe is s w = (0, s\<lparr>irqs := irqs s + length is\<rparr>,
     w\<lparr>handlers := rev (map (\<lambda>i. (i, LitepcieDev)) is) @ handlers w\<rparr>)"
proof (induction "is" arbitrary: s w)
  case (Cons i "is")
  then have "\<not> request_irq pe i < 0" by simp
  then show ?case using Cons by (simp add: add.commute)
qed simp

lemma free_irqs_requested:
  assumes "\<forall>i < n. (i, c) \<notin> set ys" "handlers w = ys @ rev (map (\<lambda>i. (i, c)) [0..<n]) @ old"
  shows "fold (\<lambda>i. free_irq i c) [0..<n] w = w\<lparr>handlers := ys @ old\<rparr>"
  using assms
proof (induction n arbitrary: ys)
  case (Suc n)
  have "fold (\<lambda>i. free_irq i c) [0..<n] w = w\<lparr>handlers := (ys @ [(n, c)]) @ old\<rparr>"
    using Suc.prems by (intro Suc.IH) auto
  then show ?case using Suc.prems(1) by (simp add: free_irq_def [of n] remove1_append)
qed (simp add: kworld.defs)

text \<open>The device after a successful probe: one channel, with everything the driver relies on.\<close>

definition device0 :: kstate where
  "device0 = init_chan 0 (zero_device\<lparr>channels := DMA_CHANNELS\<rparr>)"

lemma device0_chan:
  "chan device0 = [\<lparr>litepcie_dev = True,
     dma = zero_dma\<lparr>base := CSR_PCIE_DMA0_BASE, writer_interrupt := PCIE_DMA0_WRITER_INTERRUPT,
            reader_interrupt := PCIE_DMA0_READER_INTERRUPT\<rparr>,
     block_size = of_nat DMA_BUFFER_SIZE, index = 0, minor = 0\<rparr>]"
  "channels device0 = 1"
  by (simp_all add: device0_def init_chan_def upd_chan_def zero_device_def zero_chan_def zero_dma_def
      DMA_CHANNEL_COUNT_def DMA_CHANNELS_def)

definition probe_good :: "probe_env \<Rightarrow> bool" where
  "probe_good pe \<longleftrightarrow> kzalloc_ok pe \<and> enable_ret pe = 0 \<and> revision_id pe = 0 \<and> bar0_is_mem pe
     \<and> 0 \<le> iomap_ret pe \<and> bar0_mapped pe \<and> dma_mask_ret pe = 0 \<and> 0 \<le> irq_vectors pe
     \<and> (\<forall>i < nat (irq_vectors pe). 0 \<le> request_irq pe i) \<and> 0 \<le> cdev_add pe 0
     \<and> device_create pe 0 \<and> tty_alloc pe \<and> 0 \<le> uart_register pe"

definition probed :: "probe_env \<Rightarrow> kworld \<Rightarrow> kworld" where
  "probed pe w = \<lparr>minor_idx = minor_idx w + 1, vectors = True,
     handlers = rev (map (\<lambda>i. (i, LitepcieDev)) [0..<nat (irq_vectors pe)]) @ handlers w,
     cdevs = minor_idx w # cdevs w, nodes = minor_idx w # nodes w, uart = True\<rparr>"

lemma probe_success:
  assumes "probe_good pe"
  shows "\<exists>s. litepcie_pci_probe e pe w = (0, Some s, probed pe w)
    \<and> chan s = [(chan device0 ! 0)\<lparr>minor := minor_idx w\<rparr>] \<and> channels s = 1
    \<and> minor_base s = minor_idx w \<and> irqs s = nat (irq_vectors pe) \<and> live s = []"
  using assms
  by (simp add: litepcie_pci_probe_def probe_good_def request_irqs_ok probe_chans_def
      litepcie_alloc_chdev_def device0_def init_chan_def upd_chan_def zero_device_def
      DMA_CHANNEL_COUNT_def DMA_CHANNELS_def probed_def Let_def)

lemma probe_establishes:
  assumes "litepcie_pci_probe e pe w = (0, Some s, w')" "probe_good pe"
  shows "kinv s" and "irq_lines s" and "chan_ready 0 s" and "device_ok s"
    and "counts_at 0 0 (dma_of 0 s)"
  using probe_success [OF assms(2), of e w] assms(1)
  by (auto simp: kinv_def chan_inv_def irq_lines_def chan_ready_def device_ok_def counts_at_def
      device0_chan zero_dma_def arrays_ok_def)

lemma remove_undoes_probe:
  assumes "litepcie_pci_probe e pe w = (0, Some s, w')" "probe_good pe"
    and t: "channels t = channels s" "minor_base t = minor_base s" "irqs t = irqs s"
  shows "snd (litepcie_pci_remove t w') = w\<lparr>minor_idx := minor_idx w + 1, vectors := False, uart := False\<rparr>"
proof -
  have w': "w' = probed pe w" and s: "channels s = 1" "minor_base s = minor_idx w"
    "irqs s = nat (irq_vectors pe)"
    using probe_success [OF assms(2), of e w] assms(1) by auto
  have stop: "channels (litepcie_stop_dma t) = channels t" "irqs (litepcie_stop_dma t) = irqs t"
    "minor_base (litepcie_stop_dma t) = minor_base t"
  proof -
    have "channels (fold stop_dma_chan js q) = channels q \<and> irqs (fold stop_dma_chan js q) = irqs q
      \<and> minor_base (fold stop_dma_chan js q) = minor_base q" for js q
      by (induction js arbitrary: q) (simp_all add: stop_dma_chan_def)
    then show "channels (litepcie_stop_dma t) = channels t" "irqs (litepcie_stop_dma t) = irqs t"
      "minor_base (litepcie_stop_dma t) = minor_base t"
      by (simp_all add: litepcie_stop_dma_def)
  qed
  have irq: "fold (\<lambda>i. free_irq i LitepcieDev) [0..<nat (irq_vectors pe)] (probed pe w)
      = (probed pe w)\<lparr>handlers := handlers w\<rparr>"
    using free_irqs_requested [of "nat (irq_vectors pe)" LitepcieDev "[]" "probed pe w" "handlers w"]
    by (simp add: probed_def)
  show ?thesis
    by (simp add: litepcie_pci_remove_def Let_def stop s t w' irq litepcie_free_chdev_def
        pci_free_irq_vectors_def cdev_del_def device_destroy_def)
      (simp add: probed_def)
qed

text \<open>
  An interrupt that cannot be requested: the earlier handlers stay registered, although the
  vectors are given back.
\<close>

lemma free_irq_other_cookie:
  "\<forall>i. (i, c) \<notin> set (handlers w) \<Longrightarrow> fold (\<lambda>j. free_irq j c) js w = w"
  by (induction js) (simp_all add: free_irq_def remove1_idem)

lemma request_irqs_fail:
  assumes "\<forall>i < k. 0 \<le> request_irq pe i" "request_irq pe k < 0" "k < n"
    and "\<forall>i. (i, PciDev) \<notin> set (handlers w)"
  shows "request_irqs pe [0..<n] s w = (request_irq pe k, s\<lparr>irqs := irqs s + k\<rparr>,
     w\<lparr>handlers := rev (map (\<lambda>i. (i, LitepcieDev)) [0..<k]) @ handlers w\<rparr>)"
proof -
  have app: "request_irqs pe (is @ js) s w = request_irqs pe js (s\<lparr>irqs := irqs s + length is\<rparr>)
     (w\<lparr>handlers := rev (map (\<lambda>i. (i, LitepcieDev)) is) @ handlers w\<rparr>)"
    if "\<forall>i \<in> set is. 0 \<le> request_irq pe i" for "is" js
    using that
  proof (induction "is" arbitrary: s w)
    case (Cons i "is")
    then have "\<not> request_irq pe i < 0" by simp
    then show ?case using Cons by (simp add: add.commute)
  qed simp
  have "[0..<n] = [0..<k] @ k # [Suc k..<n]"
    using assms(3) by (metis le_eq_less_or_eq upt_add_eq_append upt_conv_Cons less_imp_add_positive le0 add_0)
  then have "request_irqs pe [0..<n] s w = request_irqs pe (k # [Suc k..<n])
     (s\<lparr>irqs := irqs s + k\<rparr>)
     (w\<lparr>handlers := rev (map (\<lambda>i. (i, LitepcieDev)) [0..<k]) @ handlers w\<rparr>)"
    using app [of "[0..<k]" "k # [Suc k..<n]"] assms(1) by simp
  then show ?thesis
    using assms(2,4) free_irq_other_cookie [of PciDev
        "w\<lparr>handlers := rev (map (\<lambda>i. (i, LitepcieDev)) [0..<k]) @ handlers w\<rparr>" "rev [0..<k]"]
    by auto
qed

end
