(* ===== verification/Example_Device.thy ===== *)
theory Example_Device
  imports Kernel_Probe
begin

text \<open>
  Concrete inputs for the witnesses of the properties: an environment in which every call of
  the outside world succeeds, and a device as \<open>litepcie_pci_probe\<close> leaves it, with buffers
  allocated and some data in its rings.
\<close>

definition env0 :: kenv where
  "env0 = \<lparr>dev_read = (\<lambda>h a. 0),
     dma_alloc = (\<lambda>n. (of_nat (65536 * Suc (n mod 1024)), of_nat (65536 * Suc (n mod 1024)))),
     copy_fault = (\<lambda>a. 0), user_data = (\<lambda>a. replicate 65536 7), signal_pending = False,
     phys_addr = (\<lambda>a. a), page_shift = 12, remap_ok = (\<lambda>i. True)\<rparr>"

lemma env0_simps [simp]:
  "copy_fault env0 a = 0" "user_data env0 a = replicate 65536 7" "dev_read env0 h r = 0"
  "page_shift env0 = 12" "remap_ok env0 i" "phys_addr env0 p = p" "\<not> signal_pending env0"
  by (simp_all add: env0_def)

lemma buffer_address: "m \<le> 1024 \<Longrightarrow> unat (of_nat (65536 * m) :: u64) = 65536 * m"
  by (intro unat_of_nat_small) simp

lemma env0_alloc: "fst (dma_alloc env0 n) \<noteq> 0"
proof -
  have "Suc (n mod 1024) \<le> 1024" by (simp add: Suc_le_eq)
  then have "unat (of_nat (65536 * Suc (n mod 1024)) :: u64) = 65536 * Suc (n mod 1024)"
    by (rule buffer_address)
  then show ?thesis by (auto simp: env0_def simp del: of_nat_Suc of_nat_mult)
qed

section \<open>A device with data in flight\<close>

definition rx_ring :: "u64 list" where
  "rx_ring = map (\<lambda>j. of_nat (65536 * Suc j)) [0..<256]"

definition tx_ring :: "u64 list" where
  "tx_ring = map (\<lambda>j. of_nat (65536 * (257 + j))) [0..<256]"

lemma buffer_address_inj:
  "a \<le> 1024 \<Longrightarrow> b \<le> 1024 \<Longrightarrow> (of_nat (65536 * a) :: u64) = of_nat (65536 * b) \<Longrightarrow> a = b"
  by (metis buffer_address mult_cancel1 zero_neq_numeral)

lemma rings:
  "length rx_ring = 256" "length tx_ring = 256" "distinct tx_ring" "distinct rx_ring"
  "\<forall>p \<in> set rx_ring. p \<noteq> 0" "\<forall>p \<in> set tx_ring. p \<noteq> 0"
proof -
  have nz: "(of_nat (65536 * Suc m) :: u64) \<noteq> 0" if "Suc m \<le> 1024" for m
    using buffer_address [OF that] by (metis mult_eq_0_iff nat.distinct(1) unat_0 zero_neq_numeral)
  show "\<forall>p \<in> set rx_ring. p \<noteq> 0"
    using nz by (auto simp: rx_ring_def simp del: of_nat_mult of_nat_Suc)
  show "\<forall>p \<in> set tx_ring. p \<noteq> 0"
  proof
    fix p assume "p \<in> set tx_ring"
    then obtain j where j: "j < 256" "p = of_nat (65536 * Suc (256 + j))"
      by (auto simp: tx_ring_def simp del: of_nat_mult of_nat_Suc of_nat_add)
    then have "Suc (256 + j) \<le> 1024" by simp
    from nz [OF this] j(2) show "p \<noteq> 0" by simp
  qed
  have "inj_on (\<lambda>j. of_nat (65536 * (m + j)) :: u64) (set [0..<256])" if "m \<le> 257" for m
  proof (rule inj_onI)
    fix x y assume xy: "x \<in> set [0..<256]" "y \<in> set [0..<256]"
      and eq: "(of_nat (65536 * (m + x)) :: u64) = of_nat (65536 * (m + y))"
    have "m + x \<le> 1024" "m + y \<le> 1024" using xy that by auto
    from buffer_address_inj [OF this eq] show "x = y" by simp
  qed
  from this [of 1] this [of 257] show "distinct rx_ring" "distinct tx_ring"
    by (simp_all only: rx_ring_def tx_ring_def distinct_map distinct_upt) simp_all
qed (simp_all add: rx_ring_def tx_ring_def)

definition busy_dma :: "litepcie_dma_chan \<Rightarrow> litepcie_dma_chan" where
  "busy_dma d = d\<lparr>writer_addr := rx_ring, reader_addr := tx_ring, writer_handle := rx_ring,
     reader_handle := tx_ring, writer_hw_count := 3, writer_hw_count_last := 3,
     reader_hw_count := 5, reader_hw_count_last := 5, reader_sw_count := 7\<rparr>"

definition busy :: kstate where
  "busy = (upd_dma 0 busy_dma device0)\<lparr>live := rx_ring @ tx_ring\<rparr>"

definition file0 :: litepcie_chan_priv where
  "file0 = \<lparr>priv_chan = 0, reader = False, writer = False\<rparr>"

lemma busy_dma_of: "dma_of 0 busy = busy_dma (dma_of 0 device0)"
  by (simp add: busy_def device0_chan)

lemma busy_simps [simp]:
  "length (chan busy) = 1" "channels busy = 1" "litepcie_dev (chan busy ! 0)"
  "live busy = rx_ring @ tx_ring" "block_size (chan busy ! 0) = 65536" "index (chan busy ! 0) = 0"
  by (simp_all add: busy_def device0_chan csr_defs upd_dma_def upd_chan_def)

lemma busy_ready:
  "ring_ready (writer_addr (dma_of 0 busy)) busy" "ring_ready (reader_addr (dma_of 0 busy)) busy"
  "rx_ready env0 0 0 3 busy" "tx_ready env0 0 7 5 busy" "chan_ready 0 busy"
proof -
  show rx: "ring_ready (writer_addr (dma_of 0 busy)) busy"
    and tx: "ring_ready (reader_addr (dma_of 0 busy)) busy"
    using rings by (simp_all add: ring_ready_def busy_dma_of busy_dma_def csr_defs)
  show "rx_ready env0 0 0 3 busy"
    using rx by (simp add: rx_ready_def busy_dma_of) (simp add: busy_dma_def device0_chan zero_dma_def)
  show "tx_ready env0 0 7 5 busy"
    using tx by (simp add: tx_ready_def busy_dma_of) (simp add: busy_dma_def device0_chan zero_dma_def)
  show "chan_ready 0 busy"
    by (simp add: chan_ready_def busy_dma_of) (simp add: busy_dma_def device0_chan)
qed

section \<open>A probe that succeeds\<close>

definition probe0 :: probe_env where
  "probe0 = \<lparr>kzalloc_ok = True, enable_ret = 0, revision_id = 0, bar0_is_mem = True,
     iomap_ret = 0, bar0_mapped = True, dma_mask_ret = 0, irq_vectors = 1,
     request_irq = (\<lambda>i. 0), cdev_add = (\<lambda>i. 0), device_create = (\<lambda>i. True), tty_alloc = True,
     uart_register = 0\<rparr>"

definition world0 :: kworld where
  "world0 = \<lparr>minor_idx = 0, vectors = False, handlers = [], cdevs = [], nodes = [], uart = False\<rparr>"

lemma probe0_good: "probe_good probe0"
  by (simp add: probe_good_def probe0_def)

lemma device0_facts:
  "kinv device0" "device_ok device0" "irq_lines device0" "counts_at 0 0 (dma_of 0 device0)"
  "live device0 = []" "length (chan device0) = 1" "channels device0 = 1" "nalloc device0 = 0"
  by (simp_all add: kinv_def chan_inv_def arrays_ok_def device_ok_def irq_lines_def counts_at_def
      device0_chan zero_dma_def)
    (simp_all add: device0_def init_chan_def upd_chan_def zero_device_def csr_defs)

end
