(* ===== verification/Lib_Dma.thy ===== *)
theory Lib_Dma
  imports Kernel_System
begin

text \<open>
  The user library \<open>liblitepcie\<close>: the helpers of \<open>litepcie_helpers.c\<close> and the DMA control
  of \<open>litepcie_dma.c\<close>, on top of the driver model. A library call may return, abort the
  process (\<open>checked_ioctl\<close> on a failed request), block in the driver, or meet a kernel fault.

  What the process meets outside is the record \<open>lib_env\<close>: the driver's environment, whether
  its arguments can be copied, the results of open, mmap and calloc, and what happens during
  \<open>poll\<close>: the interrupts taken meanwhile, as a function on the driver state, and whether the
  call fails.
\<close>

section \<open>Calls into the driver\<close>

datatype 'a lib_result = Done 'a | Abort | Block | Fault kfault

definition lbind :: "'a lib_result \<Rightarrow> ('a \<Rightarrow> 'b lib_result) \<Rightarrow> 'b lib_result" where
  "lbind r g = (case r of Done a \<Rightarrow> g a | Abort \<Rightarrow> Abort | Block \<Rightarrow> Block | Fault x \<Rightarrow> Fault x)"

lemma lbind_simps [simp]:
  "lbind (Done a) g = g a" "lbind Abort g = Abort" "lbind Block g = Block"
  "lbind (Fault x) g = Fault x"
  by (simp_all add: lbind_def)

lemma lbind_Done_iff: "lbind r g = Done b \<longleftrightarrow> (\<exists>a. r = Done a \<and> g a = Done b)"
  by (cases r) auto

record lib_env =
  le_k :: kenv
  le_arg :: uarg
  open_ret :: int
  mmap_ret :: "u64 \<Rightarrow> u64 option"
  calloc_ret :: "nat \<Rightarrow> u64"
  poll_wait :: "kstate \<Rightarrow> kstate"
  poll_fails :: bool

text \<open>The process's view of the device: the driver's state of its open file, and the driver.\<close>

type_synonym fd = "litepcie_chan_priv \<times> kstate"

definition checked_ioctl :: "lib_env \<Rightarrow> ioctl_cmd \<Rightarrow> fd \<Rightarrow> (ioctl_reply \<times> fd) lib_result" where
  "checked_ioctl le cmd fd =
     (case litepcie_ioctl (le_k le) (le_arg le) cmd (fst fd) (snd fd) of
        Ret (status, m, f) s \<Rightarrow> if status \<noteq> 0 then Abort else Done (m, (f, s))
      | Sleep \<Rightarrow> Block
      | Oops x \<Rightarrow> Fault x)"

section \<open>Helpers\<close>

definition get_time_ms :: "int \<Rightarrow> nat \<Rightarrow> u64" where
  "get_time_ms tv_sec tv_nsec = of_int tv_sec * 1000 + of_nat (tv_nsec div 1000000)"

definition litepcie_readl_u :: "lib_env \<Rightarrow> u32 \<Rightarrow> fd \<Rightarrow> (u32 \<times> fd) lib_result" where
  "litepcie_readl_u le addr fd =
     lbind (checked_ioctl le (IOCTL_REG \<lparr>reg_addr = addr, reg_val = 0, is_write = 0\<rparr>) fd)
       (\<lambda>(m, fd). Done (case m of RegReply r \<Rightarrow> reg_val r | _ \<Rightarrow> 0, fd))"

definition litepcie_writel_u :: "lib_env \<Rightarrow> u32 \<Rightarrow> u32 \<Rightarrow> fd \<Rightarrow> fd lib_result" where
  "litepcie_writel_u le addr val fd =
     lbind (checked_ioctl le (IOCTL_REG \<lparr>reg_addr = addr, reg_val = val, is_write = 1\<rparr>) fd)
       (\<lambda>(m, fd). Done fd)"

definition litepcie_reload :: "lib_env \<Rightarrow> fd \<Rightarrow> fd lib_result" where
  "litepcie_reload le fd =
     lbind (checked_ioctl le (IOCTL_ICAP \<lparr>icap_addr = 0x4, icap_data = 0xf\<rparr>) fd)
       (\<lambda>(m, fd). Done fd)"

section \<open>DMA control\<close>

record litepcie_dma_ctrl =
  use_reader :: u8
  use_writer :: u8
  loopback :: u8
  zero_copy :: u8
  fds_fd :: int
  fds_events :: u32
  fds_revents :: u32
  buf_rd :: u64
  buf_wr :: u64
  c_reader_hw_count :: u64
  c_reader_sw_count :: u64
  c_writer_hw_count :: u64
  c_writer_sw_count :: u64
  buffers_available_read :: u32
  buffers_available_write :: u32
  usr_read_buf_offset :: u32
  usr_write_buf_offset :: u32
  mmap_info :: litepcie_ioctl_mmap_dma_info

definition litepcie_dma_set_loopback :: "lib_env \<Rightarrow> u8 \<Rightarrow> fd \<Rightarrow> fd lib_result" where
  "litepcie_dma_set_loopback le loopback_enable fd =
     lbind (checked_ioctl le (IOCTL_DMA loopback_enable) fd) (\<lambda>(m, fd). Done fd)"

definition counts_of :: "ioctl_reply \<Rightarrow> u64 \<times> u64" where
  "counts_of m = (case m of DmaReply d \<Rightarrow> (hw_count d, sw_count d) | _ \<Rightarrow> (0, 0))"

definition litepcie_dma_writer :: "lib_env \<Rightarrow> u8 \<Rightarrow> fd \<Rightarrow> ((u64 \<times> u64) \<times> fd) lib_result" where
  "litepcie_dma_writer le en fd =
     lbind (checked_ioctl le (IOCTL_DMA_WRITER \<lparr>enable = en, hw_count = 0, sw_count = 0\<rparr>) fd)
       (\<lambda>(m, fd). Done (counts_of m, fd))"

definition litepcie_dma_reader :: "lib_env \<Rightarrow> u8 \<Rightarrow> fd \<Rightarrow> ((u64 \<times> u64) \<times> fd) lib_result" where
  "litepcie_dma_reader le en fd =
     lbind (checked_ioctl le (IOCTL_DMA_READER \<lparr>enable = en, hw_count = 0, sw_count = 0\<rparr>) fd)
       (\<lambda>(m, fd). Done (counts_of m, fd))"

definition litepcie_request_dma :: "lib_env \<Rightarrow> u8 \<Rightarrow> u8 \<Rightarrow> fd \<Rightarrow> (u8 \<times> fd) lib_result" where
  "litepcie_request_dma le rdr wtr fd =
     lbind (checked_ioctl le (IOCTL_LOCK \<lparr>
         dma_reader_request = (if rdr > 0 then 1 else 0),
         dma_writer_request = (if wtr > 0 then 1 else 0),
         dma_reader_release = 0, dma_writer_release = 0,
         dma_reader_status = 0, dma_writer_status = 0\<rparr>) fd)
       (\<lambda>(m, fd). Done (case m of LockReply l \<Rightarrow> dma_reader_status l | _ \<Rightarrow> 0, fd))"

definition litepcie_release_dma :: "lib_env \<Rightarrow> u8 \<Rightarrow> u8 \<Rightarrow> fd \<Rightarrow> fd lib_result" where
  "litepcie_release_dma le rdr wtr fd =
     lbind (checked_ioctl le (IOCTL_LOCK \<lparr>
         dma_reader_request = 0, dma_writer_request = 0,
         dma_reader_release = (if rdr > 0 then 1 else 0),
         dma_writer_release = (if wtr > 0 then 1 else 0),
         dma_reader_status = 0, dma_writer_status = 0\<rparr>) fd)
       (\<lambda>(m, fd). Done fd)"

text \<open>The buffers of the process: mapped from the driver, or allocated.\<close>

definition get_buffers :: "lib_env \<Rightarrow> litepcie_dma_ctrl \<Rightarrow> fd \<Rightarrow> (int \<times> litepcie_dma_ctrl \<times> fd) lib_result" where
  "get_buffers le d fd =
     (if zero_copy d \<noteq> 0 then
        lbind (checked_ioctl le IOCTL_MMAP_DMA_INFO fd) (\<lambda>(m, fd).
          let d = (case m of InfoReply i \<Rightarrow> d\<lparr>mmap_info := i\<rparr> | _ \<Rightarrow> d);
              rx = mmap_ret le (dma_rx_buf_offset (mmap_info d));
              tx = mmap_ret le (dma_tx_buf_offset (mmap_info d))
          in if use_writer d \<noteq> 0 \<and> rx = None then Done (- 1, d, fd) else
          let d = (if use_writer d \<noteq> 0 then d\<lparr>buf_rd := the rx\<rparr> else d)
          in if use_reader d \<noteq> 0 \<and> tx = None then Done (- 1, d, fd) else
          let d = (if use_reader d \<noteq> 0 then d\<lparr>buf_wr := the tx\<rparr> else d)
          in Done (0, d, fd))
      else
        let d = (if use_writer d \<noteq> 0 then d\<lparr>buf_rd := calloc_ret le 0\<rparr> else d)
        in if use_writer d \<noteq> 0 \<and> buf_rd d = 0 then Done (- 1, d, fd) else
        let d = (if use_reader d \<noteq> 0 then d\<lparr>buf_wr := calloc_ret le 1\<rparr> else d)
        in if use_reader d \<noteq> 0 \<and> buf_wr d = 0 then Done (- 1, d, fd)
        else Done (0, d, fd))"

text \<open>
  \<open>litepcie_dma_init\<close>: the driver state before the open, the channel of the device node. When
  the node cannot be opened there is no file, and the result has None.
\<close>

definition litepcie_dma_init ::
    "lib_env \<Rightarrow> u8 \<Rightarrow> nat \<Rightarrow> litepcie_dma_ctrl \<Rightarrow> kstate \<Rightarrow>
     (int \<times> litepcie_dma_ctrl \<times> litepcie_chan_priv option \<times> kstate) lib_result" where
  "litepcie_dma_init le zc ci d s =
     (let d = d\<lparr>c_reader_hw_count := 0, c_reader_sw_count := 0,
                c_writer_hw_count := 0, c_writer_sw_count := 0, zero_copy := zc\<rparr>;
          d = (if use_reader d \<noteq> 0 then d\<lparr>fds_events := fds_events d OR POLLOUT\<rparr> else d);
          d = (if use_writer d \<noteq> 0 then d\<lparr>fds_events := fds_events d OR POLLIN\<rparr> else d);
          d = d\<lparr>fds_fd := open_ret le\<rparr>
      in if fds_fd d < 0 then Done (- 1, d, None, s) else
      case litepcie_open True ci s of (r, fo, s) \<Rightarrow>
      lbind (checked_ioctl le IOCTL_DMA_INIT (the fo, s)) (\<lambda>(m, fd).
      lbind (litepcie_request_dma le (use_reader d) (use_writer d) fd) (\<lambda>(status, fd).
        if status = 0 then Done (- 1, d, Some (fst fd), snd fd) else
        lbind (litepcie_dma_set_loopback le (loopback d) fd) (\<lambda>fd.
        lbind (get_buffers le d fd) (\<lambda>(ret, d, fd).
          Done (ret, d, Some (fst fd), snd fd))))))"

definition litepcie_dma_cleanup :: "lib_env \<Rightarrow> litepcie_dma_ctrl \<Rightarrow> fd \<Rightarrow> (litepcie_dma_ctrl \<times> kstate) lib_result" where
  "litepcie_dma_cleanup le d fd =
     lbind (if use_reader d \<noteq> 0 then
              lbind (litepcie_dma_reader le 0 fd) (\<lambda>((hw, sw), fd).
                Done (d\<lparr>c_reader_hw_count := hw, c_reader_sw_count := sw\<rparr>, fd))
            else Done (d, fd)) (\<lambda>(d, fd).
     lbind (if use_writer d \<noteq> 0 then
              lbind (litepcie_dma_writer le 0 fd) (\<lambda>((hw, sw), fd).
                Done (d\<lparr>c_writer_hw_count := hw, c_writer_sw_count := sw\<rparr>, fd))
            else Done (d, fd)) (\<lambda>(d, fd).
     lbind (litepcie_release_dma le (use_reader d) (use_writer d) fd) (\<lambda>fd.
       case litepcie_release (le_k le) (fst fd) (snd fd) of
         Ret r s \<Rightarrow> Done (d, s)
       | Sleep \<Rightarrow> Block
       | Oops x \<Rightarrow> Fault x)))"

section \<open>One round of processing\<close>

text \<open>
  \<open>poll\<close> on the one descriptor. A failing call leaves \<open>revents\<close> alone and returns -1; the
  library then compares the function \<open>poll\<close> itself with 0, so it does not notice.
\<close>

definition poll_call :: "lib_env \<Rightarrow> litepcie_dma_ctrl \<Rightarrow> fd \<Rightarrow> int \<times> litepcie_dma_ctrl \<times> fd" where
  "poll_call le d fd =
     (let s = poll_wait le (snd fd);
          ev = litepcie_poll (fst fd) s AND fds_events d
      in if poll_fails le then (- 1, d, (fst fd, s))
         else (if ev = 0 then 0 else 1, d\<lparr>fds_revents := ev\<rparr>, (fst fd, s)))"

definition u32_of_s64 :: "u64 \<Rightarrow> u32" where
  "u32_of_s64 x = ucast x"

definition ring_offset :: "u64 \<Rightarrow> u32" where
  "ring_offset cnt = of_int (slot_index cnt)"

definition process_read :: "lib_env \<Rightarrow> litepcie_dma_ctrl \<Rightarrow> fd \<Rightarrow> (litepcie_dma_ctrl \<times> fd) lib_result" where
  "process_read le d fd =
     (if fds_revents d AND POLLIN = 0 then Done (d\<lparr>buffers_available_read := 0\<rparr>, fd)
      else if zero_copy d \<noteq> 0 then
        let d = d\<lparr>buffers_available_read := u32_of_s64 (c_writer_hw_count d - c_writer_sw_count d),
                  usr_read_buf_offset := ring_offset (c_writer_sw_count d)\<rparr>
        in lbind (checked_ioctl le (IOCTL_MMAP_DMA_WRITER_UPDATE
                    (c_writer_sw_count d + ucast (buffers_available_read d))) fd)
             (\<lambda>(m, fd). Done (d, fd))
      else case litepcie_read (le_k le) False (buf_rd d) DMA_BUFFER_TOTAL_SIZE (fst fd) (snd fd) of
        Ret len s \<Rightarrow>
          if len < 0 then Abort
          else Done (d\<lparr>buffers_available_read := of_int (len div int DMA_BUFFER_SIZE),
                       usr_read_buf_offset := 0\<rparr>, (fst fd, s))
      | Sleep \<Rightarrow> Block
      | Oops x \<Rightarrow> Fault x)"

definition process_write :: "lib_env \<Rightarrow> litepcie_dma_ctrl \<Rightarrow> fd \<Rightarrow> (litepcie_dma_ctrl \<times> fd) lib_result" where
  "process_write le d fd =
     (if fds_revents d AND POLLOUT = 0 then Done (d\<lparr>buffers_available_write := 0\<rparr>, fd)
      else if zero_copy d \<noteq> 0 then
        let d = d\<lparr>buffers_available_write :=
                    u32_of_s64 (of_nat (DMA_BUFFER_COUNT div 2)
                                - (c_reader_sw_count d - c_reader_hw_count d)),
                  usr_write_buf_offset := ring_offset (c_reader_sw_count d)\<rparr>
        in lbind (checked_ioctl le (IOCTL_MMAP_DMA_READER_UPDATE
                    (c_reader_sw_count d + ucast (buffers_available_write d))) fd)
             (\<lambda>(m, fd). Done (d, fd))
      else case litepcie_write (le_k le) False (buf_wr d) DMA_BUFFER_TOTAL_SIZE (fst fd) (snd fd) of
        Ret len s \<Rightarrow>
          if len < 0 then Abort
          else Done (d\<lparr>buffers_available_write := of_int (len div int DMA_BUFFER_SIZE),
                       usr_write_buf_offset := 0\<rparr>, (fst fd, s))
      | Sleep \<Rightarrow> Block
      | Oops x \<Rightarrow> Fault x)"

definition litepcie_dma_process :: "lib_env \<Rightarrow> litepcie_dma_ctrl \<Rightarrow> fd \<Rightarrow> (litepcie_dma_ctrl \<times> fd) lib_result" where
  "litepcie_dma_process le d fd =
     lbind (if use_writer d \<noteq> 0 then
              lbind (litepcie_dma_writer le 1 fd) (\<lambda>((hw, sw), fd).
                Done (d\<lparr>c_writer_hw_count := hw, c_writer_sw_count := sw\<rparr>, fd))
            else Done (d, fd)) (\<lambda>(d, fd).
     lbind (if use_reader d \<noteq> 0 then
              lbind (litepcie_dma_reader le 1 fd) (\<lambda>((hw, sw), fd).
                Done (d\<lparr>c_reader_hw_count := hw, c_reader_sw_count := sw\<rparr>, fd))
            else Done (d, fd)) (\<lambda>(d, fd).
     case poll_call le d fd of (ret, d, fd) \<Rightarrow>
       if ret = 0 then Done (d, fd)
       else lbind (process_read le d fd) (\<lambda>(d, fd). process_write le d fd)))"

section \<open>Handing out buffers\<close>

definition litepcie_dma_next_read_buffer :: "litepcie_dma_ctrl \<Rightarrow> u64 option \<times> litepcie_dma_ctrl" where
  "litepcie_dma_next_read_buffer d =
     (if buffers_available_read d = 0 then (None, d) else
      (Some (buf_rd d + ucast (usr_read_buf_offset d * of_nat DMA_BUFFER_SIZE)),
       d\<lparr>buffers_available_read := buffers_available_read d - 1,
         usr_read_buf_offset := (usr_read_buf_offset d + 1) mod of_nat DMA_BUFFER_COUNT\<rparr>))"

definition litepcie_dma_next_write_buffer :: "litepcie_dma_ctrl \<Rightarrow> u64 option \<times> litepcie_dma_ctrl" where
  "litepcie_dma_next_write_buffer d =
     (if buffers_available_write d = 0 then (None, d) else
      (Some (buf_wr d + ucast (usr_write_buf_offset d * of_nat DMA_BUFFER_SIZE)),
       d\<lparr>buffers_available_write := buffers_available_write d - 1,
         usr_write_buf_offset := (usr_write_buf_offset d + 1) mod of_nat DMA_BUFFER_COUNT\<rparr>))"

section \<open>The interface of a buffer cursor\<close>

text \<open>Taking buffers until there is none left.\<close>

primrec drain :: "('d \<Rightarrow> u64 option \<times> 'd) \<Rightarrow> nat \<Rightarrow> 'd \<Rightarrow> u64 list \<times> 'd" where
  "drain nxt 0 d = ([], d)"
| "drain nxt (Suc n) d =
     (case nxt d of (None, d1) \<Rightarrow> ([], d1)
      | (Some a, d1) \<Rightarrow> (case drain nxt n d1 of (as, d2) \<Rightarrow> (a # as, d2)))"

definition ring_addr :: "u64 \<Rightarrow> u32 \<Rightarrow> nat \<Rightarrow> u64" where
  "ring_addr b o1 k = b + of_nat ((unat o1 + k) mod 256 * 65536)"

locale buffer_cursor =
  fixes nxt :: "'d \<Rightarrow> u64 option \<times> 'd"
    and avail :: "'d \<Rightarrow> u32"
    and off :: "'d \<Rightarrow> u32"
    and buf :: "'d \<Rightarrow> u64"
  assumes empty: "avail d = 0 \<Longrightarrow> nxt d = (None, d)"
    and some: "avail d \<noteq> 0 \<Longrightarrow> \<exists>d'. nxt d = (Some (buf d + ucast (off d * of_nat DMA_BUFFER_SIZE)), d')
      \<and> avail d' = avail d - 1 \<and> off d' = (off d + 1) mod of_nat DMA_BUFFER_COUNT \<and> buf d' = buf d"
begin

lemma off_next: "unat ((o1 + 1 :: u32) mod of_nat DMA_BUFFER_COUNT) = (unat o1 + 1) mod 256"
  if "unat o1 < 256"
proof -
  have "unat (o1 + 1) = unat o1 + 1" using that by (intro unat_add_lem [THEN iffD1, THEN trans]) auto
  then show ?thesis by (simp add: csr_defs unat_mod)
qed

lemma addr_first: "unat (off d) < 256 \<Longrightarrow>
   buf d + ucast (off d * of_nat DMA_BUFFER_SIZE) = ring_addr (buf d) (off d) 0"
proof -
  assume o1: "unat (off d) < 256"
  then have "unat (off d * of_nat DMA_BUFFER_SIZE) = unat (off d) * 65536"
    by (simp add: unat_word_ariths csr_defs)
  then have "(ucast (off d * of_nat DMA_BUFFER_SIZE) :: u64) = of_nat (unat (off d) * 65536)"
    by (metis unat_ucast_u32 word_of_natI)
  then show ?thesis using o1 by (simp add: ring_addr_def)
qed

text \<open>The buffers come out in ring order from the offset on, as many as are available.\<close>

lemma drain_all:
  assumes "unat (off d) < 256" "n = unat (avail d)"
  shows "fst (drain nxt n d) = map (ring_addr (buf d) (off d)) [0..<n]
    \<and> avail (snd (drain nxt n d)) = 0
    \<and> unat (off (snd (drain nxt n d))) = (unat (off d) + n) mod 256"
  using assms
proof (induction n arbitrary: d)
  case 0
  then show ?case by (simp add: unat_eq_0 [symmetric])
next
  case (Suc n)
  then have av: "avail d \<noteq> 0" by auto
  then obtain d' where d': "nxt d = (Some (ring_addr (buf d) (off d) 0), d')" "avail d' = avail d - 1"
    "off d' = (off d + 1) mod of_nat DMA_BUFFER_COUNT" "buf d' = buf d"
    using some [OF av] addr_first [OF Suc.prems(1)] by metis
  have o1: "unat (off d') = (unat (off d) + 1) mod 256"
    using off_next [OF Suc.prems(1)] d'(3) by simp
  have n: "n = unat (avail d')"
    using Suc.prems(2) av by (simp add: d'(2) unat_minus_one)
  have sl: "ring_addr (buf d') (off d') k = ring_addr (buf d) (off d) (Suc k)" for k
    by (simp add: ring_addr_def o1 d'(4) mod_simps)
  have "[0..<Suc n] = 0 # map Suc [0..<n]" by (simp only: map_Suc_upt upt_conv_Cons [of 0 "Suc n"] zero_less_Suc)
  then show ?case
    using Suc.IH [of d'] n o1 by (simp add: d'(1) split_beta sl comp_def mod_simps del: upt_Suc)
qed

end

interpretation next_read: buffer_cursor litepcie_dma_next_read_buffer buffers_available_read
  usr_read_buf_offset buf_rd
  by unfold_locales (simp_all add: litepcie_dma_next_read_buffer_def)

interpretation next_write: buffer_cursor litepcie_dma_next_write_buffer buffers_available_write
  usr_write_buf_offset buf_wr
  by unfold_locales (simp_all add: litepcie_dma_next_write_buffer_def)

section \<open>Results of the calls\<close>

lemma lib_readl_writel:
  assumes "chan_ready (priv_chan (fst fd)) (snd fd)" "from_ok (le_arg le)" "to_ok (le_arg le)"
  shows "litepcie_readl_u le a fd = Done (fst (litepcie_readl (le_k le) a (snd fd)),
           (fst fd, snd (litepcie_readl (le_k le) a (snd fd))))"
    and "litepcie_writel_u le a v fd = Done (fst fd, litepcie_writel a v (snd fd))"
  using assms
  by (simp_all add: litepcie_readl_u_def litepcie_writel_u_def checked_ioctl_def ioctl_defs
      chan_ready_def split_beta)

text \<open>
  The answer to a request is that of the reader alone: 0 exactly when the reader is requested
  and its lock is taken, whatever the writer's lock.
\<close>

lemma request_dma_status:
  assumes "priv_chan (fst fd) < length (chan (snd fd))" "from_ok (le_arg le)" "to_ok (le_arg le)"
  shows "\<exists>st fd'. litepcie_request_dma le rdr wtr fd = Done (st, fd')
    \<and> (st = 0 \<longleftrightarrow> rdr > 0 \<and> rlock (snd fd) (priv_chan (fst fd)) \<noteq> 0)
    \<and> (st = 0 \<or> st = 1)
    \<and> rlock (snd fd') = (if rdr > 0 then (rlock (snd fd))(priv_chan (fst fd) :=
         (if rlock (snd fd) (priv_chan (fst fd)) \<noteq> 0 then rlock (snd fd) (priv_chan (fst fd)) else 1))
         else rlock (snd fd))"
proof -
  obtain f s where fd: "fd = (f, s)" by fastforce
  show ?thesis
    using assms unfolding fd
    by (auto simp: litepcie_request_dma_def checked_ioctl_def litepcie_ioctl_def ioctl_lock_def
        reply_def lock_reader_def lock_writer_def Let_def rlock_upd_dma rlock_self)
qed

section \<open>A zero-copy round\<close>

lemma writer_already_on:
  assumes "from_ok (le_arg le)" "to_ok (le_arg le)" "writer_enable (dma_of (priv_chan f) s) = en"
  shows "litepcie_dma_writer le en (f, s) =
    Done ((writer_hw_count (dma_of (priv_chan f) s), writer_sw_count (dma_of (priv_chan f) s)), (f, s))"
  using assms
  by (simp add: litepcie_dma_writer_def checked_ioctl_def litepcie_ioctl_def ioctl_dma_writer_def
      reply_def Let_def upd_dma_same counts_of_def)

lemma reader_already_on:
  assumes "from_ok (le_arg le)" "to_ok (le_arg le)" "reader_enable (dma_of (priv_chan f) s) = en"
  shows "litepcie_dma_reader le en (f, s) =
    Done ((reader_hw_count (dma_of (priv_chan f) s), reader_sw_count (dma_of (priv_chan f) s)), (f, s))"
  using assms
  by (simp add: litepcie_dma_reader_def checked_ioctl_def litepcie_ioctl_def ioctl_dma_reader_def
      reply_def Let_def upd_dma_same counts_of_def)

lemma u32_of_diff:
  assumes "S \<le> H" "H - S < 2 ^ 32"
  shows "u32_of_s64 (of_nat H - of_nat S) = of_nat (H - S)"
    and "ucast (of_nat (H - S) :: u32) = (of_nat (H - S) :: u64)"
proof -
  have "(of_nat H - of_nat S :: u64) = of_nat (H - S)" using assms by simp
  then show "u32_of_s64 (of_nat H - of_nat S) = of_nat (H - S)"
    using assms by (simp only: u32_of_s64_def)
      (intro word_of_natI, simp add: unsigned_ucast_eq unat_of_nat_small take_bit_nat_eq_self del: of_nat_diff)
  have "unat (of_nat (H - S) :: u32) = H - S" using assms by (intro unat_of_nat_small) simp
  then show "ucast (of_nat (H - S) :: u32) = (of_nat (H - S) :: u64)"
    by (intro word_of_natI) simp
qed

lemma ring_offset_of_nat: "S < 2 ^ 63 \<Longrightarrow> ring_offset (of_nat S) = of_nat (S mod 256)"
  by (simp add: ring_offset_def slot_index_of_nat del: of_int_of_nat_eq) (simp only: of_int_of_nat_eq)

definition polled :: "lib_env \<Rightarrow> litepcie_dma_ctrl \<Rightarrow> fd \<Rightarrow> u32" where
  "polled le d fd = litepcie_poll (fst fd) (poll_wait le (snd fd)) AND fds_events d"

lemma process_zero_copy_read:
  assumes "from_ok (le_arg le)" "to_ok (le_arg le)" "\<not> poll_fails le"
    and d: "use_writer d \<noteq> 0" "use_reader d = 0" "zero_copy d \<noteq> 0"
    and s: "writer_enable (dma_of (priv_chan f) s) = 1"
      "writer_hw_count (dma_of (priv_chan f) s) = of_nat H"
      "writer_sw_count (dma_of (priv_chan f) s) = of_nat S"
    and n: "S \<le> H" "H < 2 ^ 63" "H - S < 2 ^ 32"
    and p: "polled le d (f, s) AND POLLIN \<noteq> 0" "polled le d (f, s) AND POLLOUT = 0"
  shows "\<exists>d'. litepcie_dma_process le d (f, s) =
      Done (d', (f, upd_dma (priv_chan f) (set_writer_sw H) (poll_wait le s)))
    \<and> buffers_available_read d' = of_nat (H - S) \<and> usr_read_buf_offset d' = of_nat (S mod 256)
    \<and> buf_rd d' = buf_rd d \<and> buffers_available_write d' = 0"
proof -
  have nz: "polled le d (f, s) \<noteq> 0" using p(1) by auto
  have sw: "of_nat S + ucast (of_nat (H - S) :: u32) = (of_nat H :: u64)"
  proof -
    have "(of_nat S + of_nat (H - S) :: u64) = of_nat H" using n(1) by (simp flip: of_nat_add)
    then show ?thesis by (simp only: u32_of_diff(2) [OF n(1,3)])
  qed
  have off: "ring_offset (of_nat S) = of_nat (S mod 256)"
    using n by (intro ring_offset_of_nat) simp
  show ?thesis
    using assms(1-3) d s p nz
    by (simp add: litepcie_dma_process_def writer_already_on poll_call_def polled_def Let_def
        process_read_def process_write_def checked_ioctl_def litepcie_ioctl_def sw off
        u32_of_diff(1) [OF n(1,3)] set_writer_sw_def [abs_def])
qed

lemma process_zero_copy_write:
  assumes "from_ok (le_arg le)" "to_ok (le_arg le)" "\<not> poll_fails le"
    and d: "use_writer d = 0" "use_reader d \<noteq> 0" "zero_copy d \<noteq> 0"
    and s: "reader_enable (dma_of (priv_chan f) s) = 1"
      "reader_hw_count (dma_of (priv_chan f) s) = of_nat H"
      "reader_sw_count (dma_of (priv_chan f) s) = of_nat S"
    and n: "S \<le> H + 128" "S < 2 ^ 63" "H < 2 ^ 63" "H + 128 - S < 2 ^ 32"
    and p: "polled le d (f, s) AND POLLOUT \<noteq> 0" "polled le d (f, s) AND POLLIN = 0"
  shows "\<exists>d'. litepcie_dma_process le d (f, s) =
      Done (d', (f, upd_dma (priv_chan f) (set_reader_sw (H + 128)) (poll_wait le s)))
    \<and> buffers_available_write d' = of_nat (H + 128 - S) \<and> usr_write_buf_offset d' = of_nat (S mod 256)
    \<and> buf_wr d' = buf_wr d \<and> buffers_available_read d' = 0"
proof -
  have nz: "polled le d (f, s) \<noteq> 0" using p(1) by auto
  have room: "u32_of_s64 (of_nat (DMA_BUFFER_COUNT div 2) - (of_nat S - of_nat H)) = of_nat (H + 128 - S)"
    using u32_of_diff(1) [of S "H + 128"] n by (simp add: csr_defs algebra_simps)
  have sw: "of_nat S + ucast (of_nat (H + 128 - S) :: u32) = (of_nat (H + 128) :: u64)"
  proof -
    have "(of_nat S + of_nat (H + 128 - S) :: u64) = of_nat (H + 128)"
      using n(1) by (simp flip: of_nat_add)
    then show ?thesis using u32_of_diff(2) [of S "H + 128"] n by (simp only:)
  qed
  have off: "ring_offset (of_nat S) = of_nat (S mod 256)"
    using n by (intro ring_offset_of_nat) simp
  show ?thesis
    using assms(1-3) d s p nz
    by (simp add: litepcie_dma_process_def reader_already_on poll_call_def polled_def Let_def
        process_read_def process_write_def checked_ioctl_def litepcie_ioctl_def off
        room sw set_reader_sw_def [abs_def] del: of_nat_add)
qed

end
