(* ===== verification/Lib_Flash.thy ===== *)
theory Lib_Flash
  imports Lib_Dma
begin

text \<open>
  The flash programming of \<open>litepcie_flash.c\<close>. The functions run over a port to the SPI
  controller of the flash: register writes and reads, SPI transfers and sleeping; the chip behind
  it is not part of the repository. A call is None when the process aborts in
  \<open>checked_ioctl\<close>, when a wait for the chip never ends, or when a buffer is read past its end.
  \<open>kernel_port\<close> is the port the library really uses, through the driver.
\<close>

section \<open>The port\<close>

record 'c spi_port =
  p_write :: "u32 \<Rightarrow> u32 \<Rightarrow> 'c \<Rightarrow> 'c option"
  p_read :: "u32 \<Rightarrow> 'c \<Rightarrow> (u32 \<times> 'c) option"
  p_flash :: "int \<Rightarrow> u64 \<Rightarrow> 'c \<Rightarrow> (u64 \<times> 'c) option"
  p_sleep :: "nat \<Rightarrow> 'c \<Rightarrow> 'c"

definition lib_option :: "'a lib_result \<Rightarrow> 'a option" where
  "lib_option r = (case r of Done a \<Rightarrow> Some a | _ \<Rightarrow> None)"

definition kernel_port :: "lib_env \<Rightarrow> fd spi_port" where
  "kernel_port le = \<lparr>
     p_write = (\<lambda>a v fd. lib_option (litepcie_writel_u le a v fd)),
     p_read = (\<lambda>a fd. lib_option (litepcie_readl_u le a fd)),
     p_flash = (\<lambda>n d fd. lib_option
        (lbind (checked_ioctl le (IOCTL_FLASH \<lparr>tx_len = n, tx_data = d, rx_data = 0\<rparr>) fd)
          (\<lambda>(m, fd). Done (case m of FlashReply r \<Rightarrow> rx_data r | _ \<Rightarrow> 0, fd)))),
     p_sleep = (\<lambda>us fd. fd)\<rparr>"

section \<open>Commands\<close>

definition FLASH_READ :: u8 where "FLASH_READ = 0x03"
definition FLASH_WREN :: u8 where "FLASH_WREN = 0x06"
definition FLASH_WRDI :: u8 where "FLASH_WRDI = 0x04"
definition FLASH_PP :: u8 where "FLASH_PP = 0x02"
definition FLASH_SE :: u8 where "FLASH_SE = 0xD8"
definition FLASH_RDSR :: u8 where "FLASH_RDSR = 0x05"
definition FLASH_WRSR :: u8 where "FLASH_WRSR = 0x01"
definition FLASH_WIP :: u8 where "FLASH_WIP = 0x01"
definition FLASH_SECTOR_SIZE :: nat where "FLASH_SECTOR_SIZE = 65536"
definition FLASH_RETRIES :: nat where "FLASH_RETRIES = 16"

lemmas flash_consts = FLASH_READ_def FLASH_WREN_def FLASH_WRDI_def FLASH_PP_def FLASH_SE_def
  FLASH_RDSR_def FLASH_WRSR_def FLASH_WIP_def FLASH_SECTOR_SIZE_def FLASH_RETRIES_def

definition flash_spi_cs :: "'c spi_port \<Rightarrow> u8 \<Rightarrow> 'c \<Rightarrow> 'c option" where
  "flash_spi_cs P cs_n c = p_write P CSR_FLASH_CS_N_OUT_ADDR (ucast cs_n) c"

definition flash_spi :: "'c spi_port \<Rightarrow> int \<Rightarrow> u8 \<Rightarrow> u32 \<Rightarrow> 'c \<Rightarrow> (u64 \<times> 'c) option" where
  "flash_spi P n cmd dat c =
     Option.bind (flash_spi_cs P 0 c) (\<lambda>c.
     Option.bind (p_flash P n (ucast dat OR push_bit 32 (ucast cmd)) c) (\<lambda>(rx, c).
     Option.bind (flash_spi_cs P 1 c) (\<lambda>c. Some (rx, c))))"

definition flash_read_id :: "'c spi_port \<Rightarrow> u8 \<Rightarrow> 'c \<Rightarrow> (u32 \<times> 'c) option" where
  "flash_read_id P reg c =
     map_option (\<lambda>(rx, c). (ucast (rx AND 0xffffff), c)) (flash_spi P 32 reg 0 c)"

definition flash_write_enable :: "'c spi_port \<Rightarrow> 'c \<Rightarrow> 'c option" where
  "flash_write_enable P c = map_option snd (flash_spi P 8 FLASH_WREN 0 c)"

definition flash_write_disable :: "'c spi_port \<Rightarrow> 'c \<Rightarrow> 'c option" where
  "flash_write_disable P c = map_option snd (flash_spi P 8 FLASH_WRDI 0 c)"

definition flash_read_status :: "'c spi_port \<Rightarrow> 'c \<Rightarrow> (u8 \<times> 'c) option" where
  "flash_read_status P c =
     map_option (\<lambda>(rx, c). (ucast (rx AND 0xff), c)) (flash_spi P 16 FLASH_RDSR 0 c)"

definition flash_write_status :: "'c spi_port \<Rightarrow> u8 \<Rightarrow> 'c \<Rightarrow> 'c option" where
  "flash_write_status P v c =
     map_option snd (flash_spi P 16 FLASH_WRSR (push_bit 24 (ucast v)) c)"

definition flash_erase_sector :: "'c spi_port \<Rightarrow> u32 \<Rightarrow> 'c \<Rightarrow> 'c option" where
  "flash_erase_sector P addr c = map_option snd (flash_spi P 32 FLASH_SE (push_bit 8 addr) c)"

definition flash_read_sector_lock :: "'c spi_port \<Rightarrow> u32 \<Rightarrow> 'c \<Rightarrow> (u8 \<times> 'c) option" where
  "flash_read_sector_lock P addr c =
     map_option (\<lambda>(rx, c). (ucast (rx AND 0xff), c)) (flash_spi P 40 FLASH_WRSR (push_bit 8 addr) c)"

definition flash_write_sector_lock :: "'c spi_port \<Rightarrow> u32 \<Rightarrow> u8 \<Rightarrow> 'c \<Rightarrow> 'c option" where
  "flash_write_sector_lock P addr byte c =
     map_option snd (flash_spi P 40 FLASH_WRSR (push_bit 8 addr OR ucast byte) c)"

definition flash_write :: "'c spi_port \<Rightarrow> u32 \<Rightarrow> u8 \<Rightarrow> 'c \<Rightarrow> 'c option" where
  "flash_write P addr byte c =
     map_option snd (flash_spi P 40 FLASH_PP (push_bit 8 addr OR ucast byte) c)"

primrec send_bytes :: "'c spi_port \<Rightarrow> u8 list \<Rightarrow> 'c \<Rightarrow> 'c option" where
  "send_bytes P [] c = Some c"
| "send_bytes P (b # bs) c =
     Option.bind (p_flash P 8 (push_bit 32 (ucast b)) c) (\<lambda>(rx, c). send_bytes P bs c)"

definition flash_write_buffer :: "'c spi_port \<Rightarrow> u32 \<Rightarrow> u8 list \<Rightarrow> 'c \<Rightarrow> 'c option" where
  "flash_write_buffer P addr buf c =
     (if length buf = 1 then flash_write P addr (hd buf) c else
      Option.bind (flash_spi_cs P 0 c) (\<lambda>c.
      Option.bind (p_flash P 32 (push_bit 32 (ucast FLASH_PP) OR push_bit 8 (ucast addr)) c) (\<lambda>(rx, c).
      Option.bind (send_bytes P buf c) (\<lambda>c.
        flash_spi_cs P 1 c))))"

definition litepcie_flash_read :: "'c spi_port \<Rightarrow> u32 \<Rightarrow> 'c \<Rightarrow> (u8 \<times> 'c) option" where
  "litepcie_flash_read P addr c =
     map_option (\<lambda>(rx, c). (ucast (rx AND 0xff), c)) (flash_spi P 40 FLASH_READ (push_bit 8 addr) c)"

primrec read_bytes :: "'c spi_port \<Rightarrow> u64 \<Rightarrow> nat \<Rightarrow> 'c \<Rightarrow> (u8 list \<times> 'c) option" where
  "read_bytes P d 0 c = Some ([], c)"
| "read_bytes P d (Suc n) c =
     Option.bind (p_flash P 8 d c) (\<lambda>(rx, c).
     Option.bind (read_bytes P d n c) (\<lambda>(bs, c). Some (ucast rx # bs, c)))"

definition litepcie_flash_read_buffer :: "'c spi_port \<Rightarrow> u32 \<Rightarrow> nat \<Rightarrow> 'c \<Rightarrow> (u8 list \<times> 'c) option" where
  "litepcie_flash_read_buffer P addr n c =
     (if n = 1 then map_option (\<lambda>(b, c). ([b], c)) (litepcie_flash_read P addr c) else
      let d = push_bit 32 (ucast FLASH_READ) OR push_bit 8 (ucast addr) in
      Option.bind (flash_spi_cs P 0 c) (\<lambda>c.
      Option.bind (p_flash P 32 d c) (\<lambda>(rx, c).
      Option.bind (read_bytes P d n c) (\<lambda>(bs, c).
      Option.bind (flash_spi_cs P 1 c) (\<lambda>c. Some (bs, c))))))"

definition litepcie_flash_get_erase_block_size :: nat where
  "litepcie_flash_get_erase_block_size = FLASH_SECTOR_SIZE"

definition litepcie_flash_get_flash_program_size :: "'c spi_port \<Rightarrow> 'c \<Rightarrow> (nat \<times> 'c) option" where
  "litepcie_flash_get_flash_program_size P c =
     Option.bind (p_write P CSR_FLASH_CS_N_OUT_ADDR 0 c) (\<lambda>c.
     Option.bind (p_read P CSR_FLASH_CS_N_OUT_ADDR c) (\<lambda>(v0, c).
     Option.bind (p_write P CSR_FLASH_CS_N_OUT_ADDR 1 c) (\<lambda>c.
     Option.bind (p_read P CSR_FLASH_CS_N_OUT_ADDR c) (\<lambda>(v1, c).
       Some (if v0 AND 1 = 0 \<and> v1 AND 1 = 1 then 256 else 1, c)))))"

section \<open>Programming\<close>

partial_function (option) wait_ready :: "'c spi_port \<Rightarrow> nat \<Rightarrow> 'c \<Rightarrow> 'c option" where
  "wait_ready P us c =
     Option.bind (flash_read_status P c) (\<lambda>(st, c).
       if st AND FLASH_WIP \<noteq> 0 then wait_ready P us (p_sleep P us c) else Some c)"

function erase_loop :: "'c spi_port \<Rightarrow> u32 \<Rightarrow> nat \<Rightarrow> nat \<Rightarrow> 'c \<Rightarrow> 'c option" where
  "erase_loop P fbase sz i c =
     (if i < sz then
        Option.bind (flash_write_enable P c) (\<lambda>c.
        Option.bind (flash_erase_sector P (fbase + of_nat i) c) (\<lambda>c.
        Option.bind (wait_ready P 1000 c) (\<lambda>c.
          erase_loop P fbase sz (i + FLASH_SECTOR_SIZE) c)))
      else Some c)"
  by pat_completeness auto
termination
  by (relation "measure (\<lambda>(P, fbase, sz, i, c). sz - i)") (auto simp: FLASH_SECTOR_SIZE_def)

definition slice :: "'a list \<Rightarrow> nat \<Rightarrow> nat \<Rightarrow> 'a list option" where
  "slice buf i n = (if i + n \<le> length buf then Some (take n (drop i buf)) else None)"

text \<open>One page: program it and read it back.\<close>

definition program_page :: "'c spi_port \<Rightarrow> u32 \<Rightarrow> u8 list \<Rightarrow> 'c \<Rightarrow> (u8 list \<times> 'c) option" where
  "program_page P addr page c =
     Option.bind (wait_ready P 100 c) (\<lambda>c.
     Option.bind (flash_write_enable P c) (\<lambda>c.
     Option.bind (flash_write_buffer P addr page c) (\<lambda>c.
     Option.bind (flash_write_disable P c) (\<lambda>c.
     Option.bind (wait_ready P 100 c) (\<lambda>c.
       litepcie_flash_read_buffer P addr (length page) c)))))"

text \<open>The page loop; the page size \<open>ps\<close> is 256 or 1, written \<open>Suc k\<close>.\<close>

function page_loop :: "'c spi_port \<Rightarrow> u8 list \<Rightarrow> u32 \<Rightarrow> nat \<Rightarrow> nat \<Rightarrow> nat \<Rightarrow> nat \<Rightarrow> 'c \<Rightarrow> (int \<times> 'c) option" where
  "page_loop P buf fbase sz k i retries c =
     (if i < sz then
        Option.bind (slice buf i (Suc k)) (\<lambda>page.
        Option.bind (program_page P (fbase + of_nat i) page c) (\<lambda>(cmp_buf, c).
          if page \<noteq> cmp_buf then
            (if Suc retries > FLASH_RETRIES then Some (1, c)
             else page_loop P buf fbase sz k i (Suc retries) c)
          else page_loop P buf fbase sz k (i + Suc k) 0 c))
      else Some (0, c))"
  by pat_completeness auto
termination
  by (relation "measures [\<lambda>(P, buf, fbase, sz, k, i, r, c). sz - i,
                          \<lambda>(P, buf, fbase, sz, k, i, r, c). FLASH_RETRIES - r]") auto

declare erase_loop.simps [simp del] page_loop.simps [simp del]

definition litepcie_flash_write :: "'c spi_port \<Rightarrow> u8 list \<Rightarrow> u32 \<Rightarrow> nat \<Rightarrow> 'c \<Rightarrow> (int \<times> 'c) option" where
  "litepcie_flash_write P buf fbase sz c =
     Option.bind (litepcie_flash_get_flash_program_size P c) (\<lambda>(ps, c).
     Option.bind (flash_read_id P 0 c) (\<lambda>(fid, c).
     Option.bind (flash_write_enable P c) (\<lambda>c.
     Option.bind (erase_loop P fbase sz 0 c) (\<lambda>c.
     Option.bind (flash_write_disable P c) (\<lambda>c.
       page_loop P buf fbase sz (ps - 1) 0 0 c)))))"

section \<open>What goes over the wire\<close>

text \<open>
  The controller shifts out the top \<open>n\<close> of the 40 bits, most significant first: the bytes of a
  transfer.
\<close>

definition wire :: "nat \<Rightarrow> u64 \<Rightarrow> u8 list" where
  "wire n d = map (\<lambda>k. ucast (drop_bit (32 - 8 * k) d)) [0..<n div 8]"

lemma upt_five: "[0..<5] = [0, 1, 2, 3, 4::nat]" "[0..<4] = [0, 1, 2, 3::nat]" "[0..<1] = [0::nat]"
  by (simp_all add: upt_rec)

lemma bit_beyond [simp]:
  "\<not> bit (x :: u32) (32 + n)" "\<not> bit (b :: u8) (8 + n)" "\<not> bit (b :: u8) (16 + n)"
  "\<not> bit (b :: u8) (24 + n)"
  by (auto dest: bit_imp_le_length)

lemma wire_frame:
  fixes dat :: u32 and cmd :: u8
  shows "wire 40 (ucast dat OR push_bit 32 (ucast cmd)) =
     [cmd, ucast (drop_bit 24 dat), ucast (drop_bit 16 dat), ucast (drop_bit 8 dat), ucast dat]"
    and "wire 32 (ucast dat OR push_bit 32 (ucast cmd)) =
     [cmd, ucast (drop_bit 24 dat), ucast (drop_bit 16 dat), ucast (drop_bit 8 dat)]"
    and "wire 8 (ucast dat OR push_bit 32 (ucast cmd)) = [cmd]"
  by (auto simp: wire_def upt_five bit_simps intro!: bit_word_eqI)

lemma wire_address:
  fixes addr :: u32 and byte :: u8
  shows "wire 40 (ucast (push_bit 8 addr OR ucast byte :: u32) OR push_bit 32 (ucast cmd)) =
     [cmd, ucast (drop_bit 16 addr), ucast (drop_bit 8 addr), ucast addr, byte]"
    and "wire 32 (ucast (push_bit 8 addr :: u32) OR push_bit 32 (ucast cmd)) =
     [cmd, ucast (drop_bit 16 addr), ucast (drop_bit 8 addr), ucast addr]"
  unfolding wire_frame by (auto simp: bit_simps intro!: bit_word_eqI)

text \<open>The command of a page transfer: an address above 16 MB runs into the command byte.\<close>

lemma wire_page_command:
  fixes addr :: u32 and cmd :: u8
  shows "wire 32 (push_bit 32 (ucast cmd) OR push_bit 8 (ucast addr)) =
     [cmd OR ucast (drop_bit 24 addr), ucast (drop_bit 16 addr), ucast (drop_bit 8 addr), ucast addr]"
  by (auto simp: wire_def upt_five bit_simps intro!: bit_word_eqI)

section \<open>A programmed and verified image\<close>

text \<open>
  The chip as a memory \<open>mem\<close> of \<open>2 ^ 24\<close> bytes (addresses on the wire have three bytes): a
  read returns its contents, programming a page touches only the addresses of the page, nothing
  else but an erase changes it.
\<close>

definition chip_memory :: "'c spi_port \<Rightarrow> ('c \<Rightarrow> nat \<Rightarrow> u8) \<Rightarrow> nat \<Rightarrow> bool" where
  "chip_memory P mem k \<longleftrightarrow>
     (\<forall>a c bs c'. a + k < 2 ^ 24 \<and> litepcie_flash_read_buffer P (of_nat a) (Suc k) c = Some (bs, c') \<longrightarrow>
        bs = map (\<lambda>j. mem c (a + j)) [0..<Suc k] \<and> mem c' = mem c)
   \<and> (\<forall>a bs c c' x. a + k < 2 ^ 24 \<and> x < 2 ^ 24
        \<and> flash_write_buffer P (of_nat a) bs c = Some c' \<and> length bs = Suc k
        \<and> \<not> (a \<le> x \<and> x \<le> a + k) \<longrightarrow> mem c' x = mem c x)
   \<and> (\<forall>c c'. flash_write_enable P c = Some c' \<longrightarrow> mem c' = mem c)
   \<and> (\<forall>c c'. flash_write_disable P c = Some c' \<longrightarrow> mem c' = mem c)
   \<and> (\<forall>c st c'. flash_read_status P c = Some (st, c') \<longrightarrow> mem c' = mem c)
   \<and> (\<forall>c us. mem (p_sleep P us c) = mem c)"

lemma bind_Some_iff: "Option.bind x f = Some y \<longleftrightarrow> (\<exists>a. x = Some a \<and> f a = Some y)"
  by (cases x) auto

lemma wait_ready_mem:
  assumes "chip_memory P mem k" "wait_ready P us c = Some c'"
  shows "mem c' = mem c"
proof -
  let ?Q = "\<lambda>x y. case x of ((P', us), c) \<Rightarrow> P' = P \<longrightarrow> mem y = mem c"
  have "?Q ((P, us), c) c'"
  proof (rule wait_ready.raw_induct [where Pa = ?Q, OF _ assms(2)])
    fix wr P' us c y
    assume IH: "\<And>P' us c y. wr P' us c = Some y \<Longrightarrow> ?Q ((P', us), c) y"
      and st: "Option.bind (flash_read_status P' c) (\<lambda>(st, c).
          if st AND FLASH_WIP \<noteq> 0 then wr P' us (p_sleep P' us c) else Some c) = Some y"
    show "?Q ((P', us), c) y"
      using st assms(1) by (auto simp: bind_Some_iff chip_memory_def split: if_splits dest!: IH)
  qed
  then show ?thesis by simp
qed

lemma program_page_mem:
  assumes "chip_memory P mem k" "program_page P (of_nat a) page c = Some (bs, c')"
    and "length page = Suc k" "a + k < 2 ^ 24"
  shows "bs = map (\<lambda>j. mem c' (a + j)) [0..<Suc k]"
    and "x < 2 ^ 24 \<Longrightarrow> \<not> (a \<le> x \<and> x \<le> a + k) \<Longrightarrow> mem c' x = mem c x"
proof -
  obtain c1 c2 c3 c4 c5 where
    1: "wait_ready P 100 c = Some c1" "flash_write_enable P c1 = Some c2"
       "flash_write_buffer P (of_nat a) page c2 = Some c3" "flash_write_disable P c3 = Some c4"
       "wait_ready P 100 c4 = Some c5"
       "litepcie_flash_read_buffer P (of_nat a) (Suc k) c5 = Some (bs, c')"
    using assms(2,3) by (auto simp: program_page_def bind_Some_iff)
  have m: "mem c1 = mem c" "mem c2 = mem c1" "mem c4 = mem c3" "mem c5 = mem c4"
    using 1 assms(1) wait_ready_mem [OF assms(1)] by (auto simp: chip_memory_def)
  have r: "bs = map (\<lambda>j. mem c5 (a + j)) [0..<Suc k]" "mem c' = mem c5"
    using 1(6) assms(1,4) unfolding chip_memory_def by blast+
  show "bs = map (\<lambda>j. mem c' (a + j)) [0..<Suc k]" using r by (simp only:)
  assume "x < 2 ^ 24" "\<not> (a \<le> x \<and> x \<le> a + k)"
  then have "mem c3 x = mem c2 x" using 1(3) assms(1,3,4) unfolding chip_memory_def by blast
  then show "mem c' x = mem c x" using m r(2) by simp
qed

definition image_ok :: "('c \<Rightarrow> nat \<Rightarrow> u8) \<Rightarrow> u8 list \<Rightarrow> nat \<Rightarrow> nat \<Rightarrow> 'c \<Rightarrow> bool" where
  "image_ok mem buf a n c \<longleftrightarrow> (\<forall>j < n. mem c (a + j) = buf ! j)"

lemma page_loop_image:
  assumes "chip_memory P mem k" and "page_loop P buf (of_nat a) sz k i r c = Some (0, c')"
    and "image_ok mem buf a i c" and "a + sz + k \<le> 2 ^ 24"
  shows "image_ok mem buf a sz c'"
  using assms
proof (induction P buf "of_nat a :: u32" sz k i r c rule: page_loop.induct)
  case (1 P buf sz k i r c)
  note chip = "1.prems"(1) and run = "1.prems"(2) and img = "1.prems"(3) and small = "1.prems"(4)
  note unfold = page_loop.simps [of P buf "of_nat a" sz k i r c]
  show ?case
  proof (cases "i < sz")
    case False
    then have "c' = c" using run by (simp add: unfold)
    then show ?thesis using img False by (simp add: image_ok_def)
  next
    case True
    obtain page where page: "slice buf i (Suc k) = Some page"
      using run True by (auto simp: unfold bind_Some_iff)
    obtain cmp c1 where pp: "program_page P (of_nat a + of_nat i) page c = Some (cmp, c1)"
      using run True page by (auto simp: unfold bind_Some_iff)
    have len: "length page = Suc k" "\<And>j. j < Suc k \<Longrightarrow> page ! j = buf ! (i + j)"
      using page by (auto simp: slice_def split: if_splits)
    have "program_page P (of_nat (a + i)) page c = Some (cmp, c1)" using pp by simp
    note pm = program_page_mem [OF chip this len(1)]
    have range: "a + i + k < 2 ^ 24" using True small by simp
    have old: "image_ok mem buf a i c1"
      unfolding image_ok_def
    proof (intro allI impI)
      fix j assume j: "j < i"
      then have "mem c1 (a + j) = mem c (a + j)" using range by (intro pm(2)) simp_all
      then show "mem c1 (a + j) = buf ! j" using img j by (simp add: image_ok_def)
    qed
    show ?thesis
    proof (cases "page = cmp")
      case same: True
      have new: "mem c1 (a + (i + j)) = buf ! (i + j)" if "j < Suc k" for j
      proof -
        have "cmp ! j = mem c1 (a + i + j)"
          using that by (subst pm(1) [OF range]) (simp add: nth_map_upt del: upt_Suc)
        then show ?thesis using same len(2) [OF that] by (simp add: add.assoc)
      qed
      have "image_ok mem buf a (i + Suc k) c1"
        unfolding image_ok_def
      proof (intro allI impI)
        fix j assume "j < i + Suc k"
        then consider "j < i" | "i \<le> j" "j - i < Suc k" by linarith
        then show "mem c1 (a + j) = buf ! j"
        proof cases
          case 1 then show ?thesis using old by (simp add: image_ok_def)
        next
          case 2 then show ?thesis using new [of "j - i"] by simp
        qed
      qed
      moreover have "page_loop P buf (of_nat a) sz k (i + Suc k) 0 c1 = Some (0, c')"
        using run True page pp same by (simp add: unfold)
      ultimately show ?thesis
        using "1.hyps"(2) [OF True page pp] same chip small by simp
    next
      case False
      then have "\<not> Suc r > FLASH_RETRIES" "page_loop P buf (of_nat a) sz k i (Suc r) c1 = Some (0, c')"
        using run True page pp by (simp_all add: unfold split: if_splits)
      then show ?thesis using "1.hyps"(1) [OF True page pp refl] False chip small old by simp
    qed
  qed
qed

lemma flash_write_image:
  assumes "litepcie_flash_get_flash_program_size P c = Some (ps, c0)"
    and "chip_memory P mem (ps - 1)" and "a + sz + ps \<le> 2 ^ 24"
    and "litepcie_flash_write P buf (of_nat a) sz c = Some (0, c')"
  shows "image_ok mem buf a sz c'"
proof -
  obtain c5 where run: "page_loop P buf (of_nat a) sz (ps - 1) 0 0 c5 = Some (0, c')"
    using assms(1,4) by (auto simp: litepcie_flash_write_def bind_Some_iff)
  show ?thesis
    by (rule page_loop_image [OF assms(2) run])
      (use assms(3) in \<open>simp_all add: image_ok_def\<close>)
qed

section \<open>Programming comes to an end\<close>

text \<open>
  The interface of a port on which transfers of 8 to 40 bits and register accesses always come
  back. On such a port, with a chip that does not stay busy, programming returns 0 or 1.
\<close>

definition never_busy :: "'c spi_port \<Rightarrow> bool" where
  "never_busy P \<longleftrightarrow> (\<forall>c st c'. flash_read_status P c = Some (st, c') \<longrightarrow> st AND FLASH_WIP = 0)"

locale flash_port =
  fixes P :: "'c spi_port"
    and good :: "'c \<Rightarrow> bool"
  assumes port_write: "good c \<Longrightarrow> \<exists>c'. p_write P a v c = Some c' \<and> good c'"
    and port_read: "good c \<Longrightarrow> \<exists>v c'. p_read P a c = Some (v, c') \<and> good c'"
    and port_flash: "good c \<Longrightarrow> 8 \<le> n \<Longrightarrow> n \<le> 40 \<Longrightarrow> \<exists>rx c'. p_flash P n d c = Some (rx, c') \<and> good c'"
    and port_sleep: "good c \<Longrightarrow> good (p_sleep P us c)"
begin

lemma cs_returns: "good c \<Longrightarrow> \<exists>c'. flash_spi_cs P v c = Some c' \<and> good c'"
  by (simp add: flash_spi_cs_def port_write)

lemma byte_returns: "good c \<Longrightarrow> \<exists>rx c'. p_flash P 8 d c = Some (rx, c') \<and> good c'"
  by (rule port_flash) simp_all

lemma spi_returns:
  assumes "good c" "8 \<le> n" "n \<le> 40"
  shows "\<exists>rx c'. flash_spi P n cmd d c = Some (rx, c') \<and> good c'"
proof -
  obtain c1 where 1: "flash_spi_cs P 0 c = Some c1" "good c1"
    using cs_returns assms(1) by blast
  obtain rx c2 where 2: "p_flash P n (ucast d OR push_bit 32 (ucast cmd)) c1 = Some (rx, c2)" "good c2"
    using port_flash 1(2) assms by blast
  obtain c3 where "flash_spi_cs P 1 c2 = Some c3" "good c3"
    using cs_returns 2(2) by blast
  then show ?thesis using 1 2 by (simp add: flash_spi_def)
qed

lemma commands_return:
  assumes "good c"
  shows "\<exists>c'. flash_write_enable P c = Some c' \<and> good c'"
    "\<exists>c'. flash_write_disable P c = Some c' \<and> good c'"
    "\<exists>c'. flash_erase_sector P a c = Some c' \<and> good c'"
    "\<exists>c'. flash_write P a b c = Some c' \<and> good c'"
    "\<exists>v c'. flash_read_status P c = Some (v, c') \<and> good c'"
    "\<exists>v c'. flash_read_id P r c = Some (v, c') \<and> good c'"
    "\<exists>v c'. litepcie_flash_read P a c = Some (v, c') \<and> good c'"
  using spi_returns [OF assms, of 8 FLASH_WREN 0] spi_returns [OF assms, of 8 FLASH_WRDI 0]
    spi_returns [OF assms, of 32 FLASH_SE "push_bit 8 a"]
    spi_returns [OF assms, of 40 FLASH_PP "push_bit 8 a OR ucast b"]
    spi_returns [OF assms, of 16 FLASH_RDSR 0] spi_returns [OF assms, of 32 r 0]
    spi_returns [OF assms, of 40 FLASH_READ "push_bit 8 a"]
  by (auto simp: flash_write_enable_def flash_write_disable_def flash_erase_sector_def
      flash_write_def flash_read_status_def flash_read_id_def litepcie_flash_read_def)

lemma send_bytes_returns: "good c \<Longrightarrow> \<exists>c'. send_bytes P bs c = Some c' \<and> good c'"
proof (induction bs arbitrary: c)
  case (Cons b bs)
  obtain rx c1 where "p_flash P 8 (push_bit 32 (ucast b)) c = Some (rx, c1)" "good c1"
    using byte_returns [OF Cons.prems] by blast
  then show ?case using Cons.IH by auto
qed simp

lemma read_bytes_returns:
  "good c \<Longrightarrow> \<exists>bs c'. read_bytes P d n c = Some (bs, c') \<and> good c'"
proof (induction n arbitrary: c)
  case (Suc n)
  obtain rx c1 where 1: "p_flash P 8 d c = Some (rx, c1)" "good c1"
    using byte_returns [OF Suc.prems] by blast
  then obtain bs c2 where "read_bytes P d n c1 = Some (bs, c2)" "good c2" using Suc.IH by blast
  then show ?case using 1 by auto
qed simp

lemma buffers_return:
  assumes "good c"
  shows "\<exists>c'. flash_write_buffer P a buf c = Some c' \<and> good c'"
    and "\<exists>bs c'. litepcie_flash_read_buffer P a n c = Some (bs, c') \<and> good c'"
proof -
  obtain c1 where 1: "flash_spi_cs P 0 c = Some c1" "good c1"
    using cs_returns assms by blast
  have cmd: "\<exists>rx c'. p_flash P 32 d c1 = Some (rx, c') \<and> good c'" for d
    using 1(2) by (intro port_flash) simp_all
  show "\<exists>c'. flash_write_buffer P a buf c = Some c' \<and> good c'"
  proof (cases "length buf = 1")
    case True
    then show ?thesis using commands_return(4) [OF assms] by (simp add: flash_write_buffer_def)
  next
    case False
    obtain rx c2 where 2: "p_flash P 32 (push_bit 32 (ucast FLASH_PP) OR push_bit 8 (ucast a)) c1
        = Some (rx, c2)" "good c2" using cmd by blast
    obtain c3 where 3: "send_bytes P buf c2 = Some c3" "good c3" using send_bytes_returns 2 by blast
    obtain c4 where "flash_spi_cs P 1 c3 = Some c4" "good c4" using cs_returns 3 by blast
    then show ?thesis using False 1 2 3 by (simp add: flash_write_buffer_def)
  qed
  show "\<exists>bs c'. litepcie_flash_read_buffer P a n c = Some (bs, c') \<and> good c'"
  proof (cases "n = 1")
    case True
    then show ?thesis using commands_return(7) [OF assms, of a]
      by (auto simp: litepcie_flash_read_buffer_def)
  next
    case False
    let ?d = "push_bit 32 (ucast FLASH_READ) OR push_bit 8 (ucast a)"
    obtain rx c2 where 2: "p_flash P 32 ?d c1 = Some (rx, c2)" "good c2" using cmd by blast
    obtain bs c3 where 3: "read_bytes P ?d n c2 = Some (bs, c3)" "good c3"
      using read_bytes_returns 2 by blast
    obtain c4 where "flash_spi_cs P 1 c3 = Some c4" "good c4" using cs_returns 3 by blast
    then show ?thesis using False 1 2 3 by (simp add: litepcie_flash_read_buffer_def Let_def)
  qed
qed

lemma wait_ready_returns:
  assumes "good c" and idle: "never_busy P"
  shows "\<exists>c'. wait_ready P us c = Some c' \<and> good c'"
proof -
  obtain st c1 where 1: "flash_read_status P c = Some (st, c1)" "good c1"
    using commands_return(5) [OF assms(1)] by blast
  then have "st AND FLASH_WIP = 0" using idle unfolding never_busy_def by blast
  then show ?thesis using 1 by (subst wait_ready.simps) simp
qed

lemma erase_loop_returns:
  assumes "good c" and idle: "never_busy P"
  shows "\<exists>c'. erase_loop P a sz i c = Some c' \<and> good c'"
  using assms(1)
proof (induction "sz - i" arbitrary: i c rule: less_induct)
  case less
  show ?case
  proof (cases "i < sz")
    case False
    then show ?thesis using less.prems by (subst erase_loop.simps) simp
  next
    case True
    obtain c1 where 1: "flash_write_enable P c = Some c1" "good c1"
      using commands_return(1) [OF less.prems] by blast
    obtain c2 where 2: "flash_erase_sector P (a + of_nat i) c1 = Some c2" "good c2"
      using commands_return(3) [OF 1(2)] by blast
    obtain c3 where 3: "wait_ready P 1000 c2 = Some c3" "good c3"
      using wait_ready_returns [OF 2(2) idle] by blast
    have "sz - (i + FLASH_SECTOR_SIZE) < sz - i" using True by (simp add: FLASH_SECTOR_SIZE_def)
    from less.hyps [OF this 3(2)] show ?thesis
      using True 1(1) 2(1) 3(1) by (subst erase_loop.simps) simp
  qed
qed

lemma program_page_returns:
  assumes "good c" and idle: "never_busy P"
  shows "\<exists>bs c'. program_page P a page c = Some (bs, c') \<and> good c'"
proof -
  obtain c1 where 1: "wait_ready P 100 c = Some c1" "good c1"
    using wait_ready_returns [OF assms(1) idle] by blast
  obtain c2 where 2: "flash_write_enable P c1 = Some c2" "good c2"
    using commands_return(1) [OF 1(2)] by blast
  obtain c3 where 3: "flash_write_buffer P a page c2 = Some c3" "good c3"
    using buffers_return(1) [OF 2(2)] by blast
  obtain c4 where 4: "flash_write_disable P c3 = Some c4" "good c4"
    using commands_return(2) [OF 3(2)] by blast
  obtain c5 where 5: "wait_ready P 100 c4 = Some c5" "good c5"
    using wait_ready_returns [OF 4(2) idle] by blast
  obtain bs c6 where "litepcie_flash_read_buffer P a (length page) c5 = Some (bs, c6)" "good c6"
    using buffers_return(2) [OF 5(2)] by blast
  then show ?thesis using 1 2 3 4 5 by (simp add: program_page_def)
qed

lemma prologue_returns:
  assumes "good c" and idle: "never_busy P"
  shows "\<exists>ps c'. litepcie_flash_get_flash_program_size P c = Some (ps, c') \<and> good c' \<and> (ps = 1 \<or> ps = 256)"
proof -
  obtain c1 where 1: "p_write P CSR_FLASH_CS_N_OUT_ADDR 0 c = Some c1" "good c1"
    using port_write [OF assms(1)] by blast
  obtain v0 c2 where 2: "p_read P CSR_FLASH_CS_N_OUT_ADDR c1 = Some (v0, c2)" "good c2"
    using port_read [OF 1(2)] by blast
  obtain c3 where 3: "p_write P CSR_FLASH_CS_N_OUT_ADDR 1 c2 = Some c3" "good c3"
    using port_write [OF 2(2)] by blast
  obtain v1 c4 where 4: "p_read P CSR_FLASH_CS_N_OUT_ADDR c3 = Some (v1, c4)" "good c4"
    using port_read [OF 3(2)] by blast
  show ?thesis using 1 2 3 4 by (simp add: litepcie_flash_get_flash_program_size_def)
qed

end

lemma dvd_add_le: "(d :: nat) dvd n \<Longrightarrow> d dvd i \<Longrightarrow> i < n \<Longrightarrow> i + d \<le> n"
  by (metis add_le_cancel_left dvd_diff_nat dvd_imp_le le_add_diff_inverse less_imp_le_nat zero_less_diff)

lemma page_loop_returns:
  assumes "flash_port P good" "never_busy P" "good c" "sz \<le> length buf"
    and "Suc k dvd sz" "Suc k dvd i"
  shows "\<exists>r c'. page_loop P buf a sz k i n c = Some (r, c') \<and> good c' \<and> (r = 0 \<or> r = 1)"
  using assms
proof (induction P buf a sz k i n c rule: page_loop.induct)
  case (1 P buf a sz k i n c)
  note unfold = page_loop.simps [of P buf a sz k i n c]
  show ?case
  proof (cases "i < sz")
    case False
    then show ?thesis using "1.prems" by (simp add: unfold)
  next
    case True
    have "i + Suc k \<le> sz" using True "1.prems"(5,6) by (intro dvd_add_le) simp_all
    then have page: "slice buf i (Suc k) = Some (take (Suc k) (drop i buf))" (is "_ = Some ?p")
      using "1.prems"(4) by (simp add: slice_def)
    obtain bs c1 where pp: "program_page P (a + of_nat i) ?p c = Some (bs, c1)" "good c1"
      using flash_port.program_page_returns [OF "1.prems"(1,3,2)] by blast
    show ?thesis
    proof (cases "?p = bs")
      case True
      then show ?thesis
        using "1.IH"(2) [OF \<open>i < sz\<close> page pp(1) refl] "1.prems" pp page \<open>i < sz\<close>
        by (simp add: unfold del: add_Suc_right)
    next
      case False
      then show ?thesis
        using "1.IH"(1) [OF \<open>i < sz\<close> page pp(1) refl False] "1.prems" pp page \<open>i < sz\<close>
        by (simp add: unfold)
    qed
  qed
qed

text \<open>The caller pads the image to whole pages.\<close>

lemma flash_write_returns:
  assumes port: "flash_port P good" and idle: "never_busy P" and "good c" and "sz \<le> length buf" "256 dvd sz"
  shows "\<exists>r c'. litepcie_flash_write P buf a sz c = Some (r, c') \<and> (r = 0 \<or> r = 1)"
proof -
  obtain ps c1 where 1: "litepcie_flash_get_flash_program_size P c = Some (ps, c1)" "good c1"
    "ps = 1 \<or> ps = 256" using flash_port.prologue_returns [OF port assms(3) idle] by blast
  obtain fid c2 where 2: "flash_read_id P 0 c1 = Some (fid, c2)" "good c2"
    using flash_port.commands_return(6) [OF port 1(2)] by blast
  obtain c3 where 3: "flash_write_enable P c2 = Some c3" "good c3"
    using flash_port.commands_return(1) [OF port 2(2)] by blast
  obtain c4 where 4: "erase_loop P a sz 0 c3 = Some c4" "good c4"
    using flash_port.erase_loop_returns [OF port 3(2) idle] by blast
  obtain c5 where 5: "flash_write_disable P c4 = Some c5" "good c5"
    using flash_port.commands_return(2) [OF port 4(2)] by blast
  have "Suc (ps - 1) dvd sz" using 1(3) assms(5) by auto
  from page_loop_returns [OF port idle 5(2) assms(4) this, of 0 a 0] show ?thesis
    using 1 2 3 4 5 by (auto simp: litepcie_flash_write_def)
qed

section \<open>The driver provides the port\<close>

definition good_arg :: uarg where
  "good_arg = \<lparr>from_ok = True, to_ok = True\<rparr>"

interpretation kernel_port: flash_port "kernel_port (le\<lparr>le_arg := good_arg\<rparr>)"
  "\<lambda>fd. chan_ready (priv_chan (fst fd)) (snd fd)" for le
proof (unfold_locales, goal_cases)
  case (1 c a v)
  then show ?case
    by (simp add: kernel_port_def lib_readl_writel good_arg_def lib_option_def chan_ready_def)
next
  case (2 c a)
  then show ?case
    by (simp add: kernel_port_def lib_readl_writel good_arg_def lib_option_def chan_ready_def)
next
  case (3 c n d)
  let ?m = "\<lparr>tx_len = n, tx_data = d, rx_data = 0\<rparr>"
  obtain ret m s where r: "litepcie_flash_spi (le_k le) ?m (snd c) = (ret, m, s)"
    by (metis prod_cases3)
  have "chan s = chan (snd c)" "ret = 0" using r 3 by (auto simp: litepcie_flash_spi_def Let_def split_beta)
  then show ?case using 3 r
    by (simp add: kernel_port_def good_arg_def lib_option_def checked_ioctl_def ioctl_defs
        chan_ready_def)
next
  case (4 c us)
  then show ?case by (simp add: kernel_port_def)
qed

end
