(* ===== verification/Util_Apps.thy ===== *)
theory Util_Apps
  imports Lib_Flash
begin

text \<open>
  The applications of \<open>litepcie-user-library\<close>: recording to and playing from a file
  (\<open>litepcie_test.c\<close>), and the flash, scratch register and LMS7002M commands of
  \<open>litepcie_util.c\<close>. Files are byte lists; register accesses go through the port of
  \<^theory_text>\<open>Lib_Flash\<close>, where None stands for an abort or a wait that never ends.
\<close>

section \<open>Record\<close>

text \<open>
  The loop over the available read buffers. \<open>fw\<close> is what \<open>fwrite\<close> does with a request; the
  subtraction \<open>size - total_len\<close> is one of \<open>size_t\<close>.
\<close>

record rec_state =
  rec_file :: "u8 list"
  total_len :: u64
  keep_running :: bool

definition write_len :: "u32 \<Rightarrow> u64 \<Rightarrow> nat" where
  "write_len sz done_len = min (unat (ucast sz - done_len :: u64)) DMA_BUFFER_SIZE"

definition record_buffer :: "(nat \<Rightarrow> nat) \<Rightarrow> u32 \<Rightarrow> u8 list \<Rightarrow> rec_state \<Rightarrow> rec_state" where
  "record_buffer fw sz buf r =
     (let len = fw (write_len sz (total_len r));
          r = r\<lparr>rec_file := rec_file r @ take len buf, total_len := total_len r + of_nat len\<rparr>
      in if sz > 0 \<and> total_len r \<ge> ucast sz then r\<lparr>keep_running := False\<rparr> else r)"

definition litepcie_record :: "(nat \<Rightarrow> nat) \<Rightarrow> u32 \<Rightarrow> u8 list list \<Rightarrow> rec_state \<Rightarrow> rec_state" where
  "litepcie_record fw sz bufs r = fold (record_buffer fw sz) bufs r"

section \<open>Play\<close>

record play_state =
  pos :: nat
  current_loop :: u32
  playing :: bool

text \<open>\<open>fread\<close> from the position; it meets the end of the file when it gets less than asked.\<close>

definition file_read :: "u8 list \<Rightarrow> nat \<Rightarrow> nat \<Rightarrow> u8 list \<times> nat \<times> bool" where
  "file_read f p n = (take n (drop p f), min (p + n) (max p (length f)), length f < p + n)"

definition play_buffer :: "u8 list \<Rightarrow> u32 \<Rightarrow> u8 list \<Rightarrow> play_state \<Rightarrow> u8 list \<times> play_state" where
  "play_buffer f loops old p =
     (case file_read f (pos p) DMA_BUFFER_SIZE of (bs, q, eof) \<Rightarrow>
        if \<not> eof then (bs @ drop (length bs) old, p\<lparr>pos := q\<rparr>) else
        let cl = current_loop p + 1;
            p = p\<lparr>current_loop := cl, playing := (playing p \<and> cl < loops)\<rparr>
        in case file_read f 0 (DMA_BUFFER_SIZE - length bs) of (bs2, q2, eof2) \<Rightarrow>
          ((bs @ bs2) @ drop (length bs + length bs2) old, p\<lparr>pos := q2\<rparr>))"

fun litepcie_play :: "u8 list \<Rightarrow> u32 \<Rightarrow> u8 list list \<Rightarrow> play_state \<Rightarrow> u8 list list \<times> play_state" where
  "litepcie_play f loops [] p = ([], p)"
| "litepcie_play f loops (old # olds) p =
     (case play_buffer f loops old p of (b, p1) \<Rightarrow>
      case litepcie_play f loops olds p1 of (bs, p2) \<Rightarrow> (b # bs, p2))"

section \<open>Flash commands\<close>

definition flash_pad :: "nat \<Rightarrow> nat" where
  "flash_pad size1 =
     (let sector_size = litepcie_flash_get_erase_block_size
      in (size1 + sector_size - 1) div sector_size * sector_size)"

definition flash_image :: "u8 list \<Rightarrow> u8 list" where
  "flash_image buf1 = buf1 @ replicate (flash_pad (length buf1) - length buf1) 0"

definition flash_program :: "'c spi_port \<Rightarrow> u32 \<Rightarrow> u8 list \<Rightarrow> 'c \<Rightarrow> (int \<times> 'c) option" where
  "flash_program P fbase buf1 c =
     litepcie_flash_write P (flash_image buf1) fbase (flash_pad (length buf1)) c"

fun flash_dump :: "'c spi_port \<Rightarrow> u32 \<Rightarrow> nat list \<Rightarrow> 'c \<Rightarrow> (u8 list \<times> 'c) option" where
  "flash_dump P fbase [] c = Some ([], c)"
| "flash_dump P fbase (i # is) c =
     Option.bind (litepcie_flash_read P (fbase + of_nat i) c) (\<lambda>(b, c).
     Option.bind (flash_dump P fbase is c) (\<lambda>(bs, c). Some (b # bs, c)))"

definition util_flash_read :: "'c spi_port \<Rightarrow> nat \<Rightarrow> u32 \<Rightarrow> 'c \<Rightarrow> (u8 list \<times> 'c) option" where
  "util_flash_read P sz offset c = flash_dump P offset [0..<sz] c"

section \<open>Scratch register\<close>

definition scratch_test :: "'c spi_port \<Rightarrow> 'c \<Rightarrow> ((u32 \<times> u32) \<times> 'c) option" where
  "scratch_test P c =
     Option.bind (p_write P CSR_CTRL_SCRATCH_ADDR 0x12345678 c) (\<lambda>c.
     Option.bind (p_read P CSR_CTRL_SCRATCH_ADDR c) (\<lambda>(v1, c).
     Option.bind (p_write P CSR_CTRL_SCRATCH_ADDR 0xdeadbeef c) (\<lambda>c.
     Option.bind (p_read P CSR_CTRL_SCRATCH_ADDR c) (\<lambda>(v2, c). Some ((v1, v2), c)))))"

section \<open>LMS7002M\<close>

definition SPI_START :: u32 where "SPI_START = 1"
definition SPI_DONE :: u32 where "SPI_DONE = 1"
definition SPI_LENGTH :: u32 where "SPI_LENGTH = push_bit 8 1"

partial_function (option) lms_wait :: "'c spi_port \<Rightarrow> 'c \<Rightarrow> 'c option" where
  "lms_wait P c =
     Option.bind (p_read P CSR_LMS7002M_SPI_STATUS_ADDR c) (\<lambda>(v, c).
       if v AND SPI_DONE = 0 then lms_wait P c else Some c)"

definition lms_frame_write :: "u32 \<Rightarrow> u32 \<Rightarrow> u32" where
  "lms_frame_write addr val =
     push_bit 16 (push_bit 15 1 OR (addr AND 0x7fff)) OR (val AND 0xffff)"

definition lms_frame_read :: "u32 \<Rightarrow> u32" where
  "lms_frame_read addr = push_bit 16 (push_bit 15 0 OR (addr AND 0x7fff))"

definition lms7002m_spi_write :: "'c spi_port \<Rightarrow> u32 \<Rightarrow> u32 \<Rightarrow> 'c \<Rightarrow> 'c option" where
  "lms7002m_spi_write P addr val c =
     Option.bind (p_write P CSR_LMS7002M_SPI_MOSI_ADDR (lms_frame_write addr val) c) (\<lambda>c.
     Option.bind (p_write P CSR_LMS7002M_SPI_CONTROL_ADDR (32 * SPI_LENGTH OR SPI_START) c) (\<lambda>c.
       lms_wait P c))"

definition lms7002m_spi_read :: "'c spi_port \<Rightarrow> u32 \<Rightarrow> 'c \<Rightarrow> (u32 \<times> 'c) option" where
  "lms7002m_spi_read P addr c =
     Option.bind (p_write P CSR_LMS7002M_SPI_MOSI_ADDR (lms_frame_read addr) c) (\<lambda>c.
     Option.bind (p_write P CSR_LMS7002M_SPI_CONTROL_ADDR (32 * SPI_LENGTH OR SPI_START) c) (\<lambda>c.
     Option.bind (lms_wait P c) (\<lambda>c.
     Option.bind (p_read P CSR_LMS7002M_SPI_MISO_ADDR c) (\<lambda>(v, c). Some (v AND 0xffff, c)))))"

definition lms7002m_reset :: "'c spi_port \<Rightarrow> 'c \<Rightarrow> ((u32 \<times> u32) \<times> 'c) option" where
  "lms7002m_reset P c =
     Option.bind (p_write P CSR_LMS7002M_CONTROL_ADDR 0 c) (\<lambda>c.
     Option.bind (lms7002m_spi_write P 0x20 0x0000 c) (\<lambda>c.
     Option.bind (lms7002m_spi_read P 0x20 c) (\<lambda>(v1, c).
     Option.bind (lms7002m_spi_write P 0x20 0xffff c) (\<lambda>c.
     Option.bind (lms7002m_spi_read P 0x20 c) (\<lambda>(v2, c). Some ((v1, v2), c))))))"

fun lms_dump_loop :: "'c spi_port \<Rightarrow> nat list \<Rightarrow> 'c \<Rightarrow> (u32 list \<times> 'c) option" where
  "lms_dump_loop P [] c = Some ([], c)"
| "lms_dump_loop P (i # is) c =
     Option.bind (lms7002m_spi_read P (of_nat i) c) (\<lambda>(v, c).
     Option.bind (lms_dump_loop P is c) (\<lambda>(vs, c). Some (v # vs, c)))"

definition lms7002m_dump :: "'c spi_port \<Rightarrow> 'c \<Rightarrow> (u32 list \<times> 'c) option" where
  "lms7002m_dump P c =
     Option.bind (p_write P CSR_LMS7002M_CONTROL_ADDR 0 c) (\<lambda>c. lms_dump_loop P [0..<64] c)"

text \<open>Setting one bit of a control register, \<open>enable * (1 << offset)\<close> with an 8-bit \<open>enable\<close>.\<close>

definition set_control_bit :: "nat \<Rightarrow> u8 \<Rightarrow> u32 \<Rightarrow> u32" where
  "set_control_bit n en control =
     (control AND NOT (push_bit n 1)) OR (ucast en * push_bit n 1)"

definition lms7002m_set_tx_pattern :: "'c spi_port \<Rightarrow> u8 \<Rightarrow> 'c \<Rightarrow> 'c option" where
  "lms7002m_set_tx_pattern P en c =
     Option.bind (p_read P CSR_LMS7002M_TX_PATTERN_CONTROL_ADDR c) (\<lambda>(control, c).
       p_write P CSR_LMS7002M_TX_PATTERN_CONTROL_ADDR
         (set_control_bit CSR_LMS7002M_TX_PATTERN_CONTROL_ENABLE_OFFSET en control) c)"

definition lms7002m_set_tx_rx_loopback :: "'c spi_port \<Rightarrow> u8 \<Rightarrow> 'c \<Rightarrow> 'c option" where
  "lms7002m_set_tx_rx_loopback P en c =
     Option.bind (p_read P CSR_LMS7002M_CONTROL_ADDR c) (\<lambda>(control, c).
       p_write P CSR_LMS7002M_CONTROL_ADDR
         (set_control_bit CSR_LMS7002M_CONTROL_TX_RX_LOOPBACK_ENABLE_OFFSET en control) c)"

section \<open>Lemmas: record\<close>

text \<open>
  With a size and complete writes, the file is the beginning of the stream, cut at the size, and
  recording stops exactly when the size is reached.
\<close>

lemma record_buffer_spec:
  assumes "\<And>n. fw n = n" "0 < unat sz" "length buf = DMA_BUFFER_SIZE"
    and "total_len r = of_nat (length (rec_file r))" "length (rec_file r) \<le> unat sz"
  shows "rec_file (record_buffer fw sz buf r) = rec_file r @ take (unat sz - length (rec_file r)) buf"
    and "total_len (record_buffer fw sz buf r) = of_nat (length (rec_file (record_buffer fw sz buf r)))"
    and "keep_running (record_buffer fw sz buf r) \<longleftrightarrow>
           keep_running r \<and> length (rec_file (record_buffer fw sz buf r)) < unat sz"
    and "length (rec_file (record_buffer fw sz buf r)) \<le> unat sz"
proof -
  let ?t = "length (rec_file r)"
  have sz: "(ucast sz :: u64) = of_nat (unat sz)" by (intro word_of_natI) simp
  have sz64: "unat sz < 2 ^ 64" by (rule less_trans [OF unat_u32_less]) simp
  have "(ucast sz - total_len r :: u64) = of_nat (unat sz - ?t)"
    unfolding sz assms(4) using assms(5) by (simp only: of_nat_diff)
  then have wl: "write_len sz (total_len r) = min (unat sz - ?t) DMA_BUFFER_SIZE"
    using sz64 by (simp only: write_len_def) (subst unat_of_nat_small, simp_all)
  let ?l = "min (unat sz - ?t) DMA_BUFFER_SIZE"
  have content: "rec_file (record_buffer fw sz buf r) = rec_file r @ take ?l buf"
    by (simp add: record_buffer_def wl assms(1) Let_def)
  have len: "length (rec_file (record_buffer fw sz buf r)) = ?t + ?l"
    using assms(3) by (simp add: content)
  have tot: "total_len (record_buffer fw sz buf r) = of_nat (?t + ?l)"
    by (simp add: record_buffer_def wl assms(1) Let_def) (simp add: assms(4))
  show "rec_file (record_buffer fw sz buf r) = rec_file r @ take (unat sz - ?t) buf"
    using assms(3) by (simp add: content min_def)
  show "total_len (record_buffer fw sz buf r) = of_nat (length (rec_file (record_buffer fw sz buf r)))"
    by (simp only: tot len)
  show le: "length (rec_file (record_buffer fw sz buf r)) \<le> unat sz" using assms(5) len by simp
  have "ucast sz \<le> total_len r + of_nat ?l \<longleftrightarrow> unat sz \<le> ?t + ?l"
  proof -
    have "total_len r + of_nat ?l = of_nat (?t + ?l)" by (simp add: assms(4))
    moreover have "?t + ?l < 2 ^ 64" using le len sz64 by simp
    ultimately show ?thesis by (simp only: word_le_nat_alt unat_ucast_u32) (subst unat_of_nat_small, simp_all)
  qed
  moreover have "sz > 0" using assms(2) by (simp add: word_less_nat_alt)
  ultimately show "keep_running (record_buffer fw sz buf r) \<longleftrightarrow>
           keep_running r \<and> length (rec_file (record_buffer fw sz buf r)) < unat sz"
    unfolding len by (auto simp: record_buffer_def wl assms(1) Let_def)
qed

lemma record_stream:
  assumes "\<And>n. fw n = n" "0 < unat sz" "\<forall>b \<in> set bufs. length b = DMA_BUFFER_SIZE"
    and "total_len r = of_nat (length (rec_file r))" "length (rec_file r) \<le> unat sz"
    and "keep_running r \<longleftrightarrow> length (rec_file r) < unat sz"
  shows "rec_file (litepcie_record fw sz bufs r) = take (unat sz) (rec_file r @ concat bufs)"
    and "keep_running (litepcie_record fw sz bufs r) \<longleftrightarrow>
           length (rec_file r @ concat bufs) < unat sz"
proof -
  have "rec_file (litepcie_record fw sz bufs r) = take (unat sz) (rec_file r @ concat bufs)
    \<and> (keep_running (litepcie_record fw sz bufs r) \<longleftrightarrow> length (rec_file r @ concat bufs) < unat sz)"
    using assms(3-6)
  proof (induction bufs arbitrary: r)
    case Nil
    then show ?case by (simp add: litepcie_record_def)
  next
    case (Cons b bufs)
    let ?r = "record_buffer fw sz b r"
    note S = record_buffer_spec [OF assms(1,2) _ Cons.prems(2,3), of b]
    have b: "length b = DMA_BUFFER_SIZE" using Cons.prems(1) by simp
    have f: "rec_file ?r = take (unat sz) (rec_file r @ b)"
      using S(1) [OF b] Cons.prems(3) by simp
    have k: "keep_running ?r \<longleftrightarrow> length (rec_file ?r) < unat sz"
      using S(3) [OF b] Cons.prems(3,4) by (auto simp: S(1) [OF b])
    have IH: "rec_file (litepcie_record fw sz bufs ?r) = take (unat sz) (rec_file ?r @ concat bufs)
      \<and> (keep_running (litepcie_record fw sz bufs ?r) \<longleftrightarrow> length (rec_file ?r @ concat bufs) < unat sz)"
      using Cons.prems(1) by (intro Cons.IH S(2) [OF b] S(4) [OF b] k) simp
    have step: "litepcie_record fw sz (b # bufs) r = litepcie_record fw sz bufs ?r"
      by (simp add: litepcie_record_def)
    show ?case unfolding step using IH by (auto simp: f min_def)
  qed
  then show "rec_file (litepcie_record fw sz bufs r) = take (unat sz) (rec_file r @ concat bufs)"
    "keep_running (litepcie_record fw sz bufs r) \<longleftrightarrow> length (rec_file r @ concat bufs) < unat sz"
    by blast+
qed

text \<open>Size 0: nothing is ever written and nothing stops the recording.\<close>

lemma record_size_zero:
  assumes "\<And>n. fw n = n" "total_len r = 0"
  shows "litepcie_record fw 0 bufs r = r"
proof -
  have "record_buffer fw 0 b r = r" for b
    by (simp add: record_buffer_def write_len_def assms)
  then show ?thesis by (induction bufs) (simp_all add: litepcie_record_def)
qed

section \<open>Lemmas: play\<close>

text \<open>The file repeated without end.\<close>

definition cyclic :: "'a list \<Rightarrow> nat \<Rightarrow> nat \<Rightarrow> 'a list" where
  "cyclic f p n = map (\<lambda>k. f ! ((p + k) mod length f)) [0..<n]"

lemma cyclic_prefix: "p + n \<le> length f \<Longrightarrow> cyclic f p n = take n (drop p f)"
  by (rule nth_equalityI) (simp_all add: cyclic_def)

lemma cyclic_append: "cyclic f p (m + n) = cyclic f p m @ cyclic f (p + m) n"
proof -
  have "[0..<m + n] = [0..<m] @ map (\<lambda>k. m + k) [0..<n]"
    using upt_add_eq_append [of 0 m n] map_add_upt [of m n] by (simp add: add.commute)
  then show ?thesis by (simp add: cyclic_def comp_def add.assoc)
qed

lemma cyclic_mod: "cyclic f (p mod length f) n = cyclic f p n" "cyclic f (p + length f) n = cyclic f p n"
proof -
  have "(p + length f + k) mod length f = (p + k) mod length f" for k
    by (metis add.assoc add.commute mod_add_self2)
  then show "cyclic f (p mod length f) n = cyclic f p n" "cyclic f (p + length f) n = cyclic f p n"
    by (simp_all add: cyclic_def mod_simps)
qed

lemma play_buffer_spec:
  assumes "DMA_BUFFER_SIZE \<le> length f" "pos p \<le> length f"
  shows "fst (play_buffer f loops old p) = cyclic f (pos p) DMA_BUFFER_SIZE @ drop DMA_BUFFER_SIZE old"
    and "pos (snd (play_buffer f loops old p)) \<le> length f"
    and "pos (snd (play_buffer f loops old p)) mod length f = (pos p + DMA_BUFFER_SIZE) mod length f"
    and "current_loop (snd (play_buffer f loops old p)) =
           current_loop p + (if length f < pos p + DMA_BUFFER_SIZE then 1 else 0)"
proof -
  let ?B = DMA_BUFFER_SIZE
  let ?a = "length f - pos p"
  have "fst (play_buffer f loops old p) = cyclic f (pos p) ?B @ drop ?B old
    \<and> pos (snd (play_buffer f loops old p)) \<le> length f
    \<and> pos (snd (play_buffer f loops old p)) mod length f = (pos p + ?B) mod length f
    \<and> current_loop (snd (play_buffer f loops old p)) =
           current_loop p + (if length f < pos p + ?B then 1 else 0)"
  proof (cases "length f < pos p + ?B")
    case False
    then show ?thesis
      by (simp add: play_buffer_def file_read_def cyclic_prefix Let_def)
  next
    case True
    then have a: "?B = ?a + (?B - ?a)" "?B - ?a \<le> length f" using assms by simp_all
    have c: "cyclic f (pos p) ?B = drop (pos p) f @ take (?B - ?a) f"
    proof -
      have "cyclic f (pos p) ?B = cyclic f (pos p) ?a @ cyclic f (pos p + ?a) (?B - ?a)"
        using a(1) cyclic_append by metis
      moreover have "cyclic f (pos p + ?a) (?B - ?a) = cyclic f 0 (?B - ?a)"
        using cyclic_mod(2) [of f 0] assms(2) by simp
      moreover have "cyclic f (pos p) ?a = drop (pos p) f"
        using cyclic_prefix [of "pos p" ?a f] assms(2) by simp
      moreover have "cyclic f 0 (?B - ?a) = take (?B - ?a) f"
        using cyclic_prefix [of 0 "?B - ?a" f] a(2) by simp
      ultimately show ?thesis by simp
    qed
    have q: "pos p + ?B = (?B - ?a) + length f" using a(1) assms(2) by simp
    have "length (drop (pos p) f) = ?a" "length (take (?B - ?a) f) = ?B - ?a"
      using a(2) by simp_all
    moreover have "take ?B (drop (pos p) f) = drop (pos p) f" using a(1) by simp
    ultimately have r: "fst (play_buffer f loops old p) = (drop (pos p) f @ take (?B - ?a) f) @ drop ?B old"
      "pos (snd (play_buffer f loops old p)) = ?B - ?a"
      "current_loop (snd (play_buffer f loops old p)) = current_loop p + 1"
      using True a by (simp_all add: play_buffer_def file_read_def Let_def)
    have m: "(?B - ?a) mod length f = (pos p + ?B) mod length f" by (simp only: q mod_add_self2)
    show ?thesis unfolding r c using True a(2) m by simp
  qed
  then show "fst (play_buffer f loops old p) = cyclic f (pos p) ?B @ drop ?B old"
    "pos (snd (play_buffer f loops old p)) \<le> length f"
    "pos (snd (play_buffer f loops old p)) mod length f = (pos p + ?B) mod length f"
    "current_loop (snd (play_buffer f loops old p)) =
           current_loop p + (if length f < pos p + ?B then 1 else 0)" by blast+
qed

text \<open>The buffers sent to the board are the file repeated without a gap.\<close>

lemma play_stream:
  assumes "DMA_BUFFER_SIZE \<le> length f" "pos p \<le> length f"
    and "\<forall>b \<in> set olds. length b = DMA_BUFFER_SIZE"
  shows "concat (fst (litepcie_play f loops olds p)) = cyclic f (pos p) (length olds * DMA_BUFFER_SIZE)"
  using assms(2,3)
proof (induction olds arbitrary: p)
  case Nil
  then show ?case by (simp add: cyclic_def)
next
  case (Cons b bs)
  note S = play_buffer_spec [OF assms(1) Cons.prems(1), of loops b]
  let ?p = "snd (play_buffer f loops b p)"
  have "concat (fst (litepcie_play f loops bs ?p)) = cyclic f (pos ?p) (length bs * DMA_BUFFER_SIZE)"
    using Cons.IH [OF S(2)] Cons.prems(2) by simp
  also have "\<dots> = cyclic f (pos p + DMA_BUFFER_SIZE) (length bs * DMA_BUFFER_SIZE)"
    using cyclic_mod(1) S(3) by metis
  finally show ?case
    using S(1) Cons.prems(2) by (simp add: split_beta cyclic_append)
qed

section \<open>Lemmas: flash commands\<close>

lemma flash_pad_bounds:
  "65536 dvd flash_pad n" "n \<le> flash_pad n" "flash_pad n < n + 65536"
proof -
  have eq: "flash_pad n = (n + 65535) div 65536 * 65536"
    by (simp add: flash_pad_def litepcie_flash_get_erase_block_size_def FLASH_SECTOR_SIZE_def Let_def)
  show "65536 dvd flash_pad n" by (simp add: eq)
  have "(n + 65535) mod 65536 < 65536" by simp
  moreover have "flash_pad n + (n + 65535) mod 65536 = n + 65535"
    by (simp only: eq div_mult_mod_eq)
  ultimately show "n \<le> flash_pad n" "flash_pad n < n + 65536" by linarith+
qed

lemma flash_image_length: "length (flash_image buf) = flash_pad (length buf)"
  using flash_pad_bounds(2) [of "length buf"] by (simp add: flash_image_def)

text \<open>Programming a file that succeeds leaves its bytes, and zeros up to the sector end.\<close>

lemma flash_program_image:
  assumes "litepcie_flash_get_flash_program_size P c = Some (ps, c0)"
    and "chip_memory P mem (ps - 1)" and "a + flash_pad (length buf) + ps \<le> 2 ^ 24"
    and "flash_program P (of_nat a) buf c = Some (0, c')"
  shows "\<forall>j < length buf. mem c' (a + j) = buf ! j"
    and "\<forall>j. length buf \<le> j \<and> j < flash_pad (length buf) \<longrightarrow> mem c' (a + j) = 0"
proof -
  have "image_ok mem (flash_image buf) a (flash_pad (length buf)) c'"
    using flash_write_image [OF assms(1-3)] assms(4) by (simp add: flash_program_def)
  then have j: "mem c' (a + j) = flash_image buf ! j" if "j < flash_pad (length buf)" for j
    using that by (simp add: image_ok_def)
  show "\<forall>j < length buf. mem c' (a + j) = buf ! j"
    using j flash_pad_bounds(2) [of "length buf"] by (auto simp: flash_image_def nth_append)
  show "\<forall>j. length buf \<le> j \<and> j < flash_pad (length buf) \<longrightarrow> mem c' (a + j) = 0"
    using j by (auto simp: flash_image_def nth_append)
qed

lemma flash_program_returns:
  assumes "flash_port P good" "never_busy P" "good c"
  shows "\<exists>r c'. flash_program P a buf c = Some (r, c') \<and> (r = 0 \<or> r = 1)"
proof -
  have "256 dvd flash_pad (length buf)"
    using flash_pad_bounds(1) by (rule dvd_trans [rotated]) simp
  then show ?thesis unfolding flash_program_def
    by (intro flash_write_returns [OF assms]) (simp_all add: flash_image_length)
qed

text \<open>Reading the flash byte by byte returns its contents and changes nothing.\<close>

lemma flash_dump_mem:
  assumes "chip_memory P mem 0" "flash_dump P (of_nat a) is c = Some (bs, c')"
    and "\<forall>i \<in> set is. a + i < 2 ^ 24"
  shows "bs = map (\<lambda>i. mem c (a + i)) is \<and> mem c' = mem c"
  using assms(2,3)
proof (induction "is" arbitrary: c bs)
  case (Cons i "is")
  obtain b c1 bs1 where r: "litepcie_flash_read P (of_nat a + of_nat i) c = Some (b, c1)"
    "flash_dump P (of_nat a) is c1 = Some (bs1, c')" "bs = b # bs1"
    using Cons.prems(1) by (auto simp: bind_Some_iff)
  have "litepcie_flash_read_buffer P (of_nat (a + i)) (Suc 0) c = Some ([b], c1)"
    using r(1) by (simp add: litepcie_flash_read_buffer_def)
  then have "[b] = [mem c (a + i)]" "mem c1 = mem c"
    using assms(1) Cons.prems(2) unfolding chip_memory_def by fastforce+
  then show ?case using Cons.IH [OF r(2)] Cons.prems(2) r(3) by simp
qed simp

section \<open>Lemmas: LMS7002M and control bits\<close>

text \<open>The frame: write flag, 15 address bits, 16 data bits.\<close>

lemma lms_frame_fields:
  "bit (lms_frame_write a v) 31" "\<not> bit (lms_frame_read a) 31"
  "drop_bit 16 (lms_frame_write a v) AND 0x7fff = a AND 0x7fff"
  "lms_frame_write a v AND 0xffff = v AND 0xffff"
  "drop_bit 16 (lms_frame_read a) AND 0x7fff = a AND 0x7fff"
proof -
  have m: "(0x7fff :: u32) = mask 15" "(0xffff :: u32) = mask 16"
    by (simp_all add: mask_eq_exp_minus_1)
  have top: "bit (32768 :: int) k \<longleftrightarrow> k = 15" "bit (2147483648 :: int) k \<longleftrightarrow> k = 31" for k
  proof -
    have "(32768 :: int) = 2 ^ 15" "(2147483648 :: int) = 2 ^ 31" by simp_all
    then show "bit (32768 :: int) k \<longleftrightarrow> k = 15" "bit (2147483648 :: int) k \<longleftrightarrow> k = 31"
      by (auto simp only: bit_exp_iff possible_bit_int)
  qed
  show "bit (lms_frame_write a v) 31" "\<not> bit (lms_frame_read a) 31"
    by (simp_all add: lms_frame_write_def lms_frame_read_def m top bit_simps)
  show "drop_bit 16 (lms_frame_write a v) AND 0x7fff = a AND 0x7fff"
    "lms_frame_write a v AND 0xffff = v AND 0xffff"
    "drop_bit 16 (lms_frame_read a) AND 0x7fff = a AND 0x7fff"
    by (auto simp: lms_frame_write_def lms_frame_read_def m top bit_simps intro!: bit_word_eqI)
qed

lemma set_control_bit_bits:
  assumes "en = 0 \<or> en = 1" "n < 32" "k < 32"
  shows "bit (set_control_bit n en control) k \<longleftrightarrow> (if k = n then en = 1 else bit control k)"
  using assms by (auto simp: set_control_bit_def bit_simps)

end
