(* ===== verification/Example_Chip.thy ===== *)
theory Example_Chip
  imports Util_Apps
begin

text \<open>
  A concrete flash chip behind the SPI port, for the witnesses of the flash properties: a memory
  that answers READ, PP (one byte) and SE frames of the right length, is never busy, and whose
  chip select register always reads 1, so that the library programs one byte at a time.
\<close>

type_synonym chip = "u32 \<Rightarrow> u8"

definition frame_cmd :: "u64 \<Rightarrow> u8" where
  "frame_cmd d = ucast (drop_bit 32 d)"

definition frame_addr :: "u64 \<Rightarrow> u32" where
  "frame_addr d = ucast (drop_bit 8 d) AND 0xffffff"

definition byte_chip :: "chip spi_port" where
  "byte_chip = \<lparr>
     p_write = (\<lambda>a v c. Some c),
     p_read = (\<lambda>a c. Some (1, c)),
     p_flash = (\<lambda>n d c.
       if n = 40 \<and> frame_cmd d = FLASH_READ then Some (ucast (c (frame_addr d)), c)
       else if n = 40 \<and> frame_cmd d = FLASH_PP then Some (0, c(frame_addr d := ucast d))
       else if n = 32 \<and> frame_cmd d = FLASH_SE then
         Some (0, \<lambda>x. if drop_bit 16 x = drop_bit 16 (frame_addr d) then 0xff else c x)
       else Some (0, c)),
     p_sleep = (\<lambda>us c. c)\<rparr>"

lemma frame_fields:
  fixes addr :: u32 and byte cmd :: u8
  shows "frame_cmd (ucast (push_bit 8 addr OR ucast byte :: u32) OR push_bit 32 (ucast cmd)) = cmd"
    and "frame_addr (ucast (push_bit 8 addr OR ucast byte :: u32) OR push_bit 32 (ucast cmd)) = addr AND 0xffffff"
    and "(ucast (ucast (push_bit 8 addr OR ucast byte :: u32) OR push_bit 32 (ucast cmd) :: u64) :: u8) = byte"
    and "frame_cmd (ucast (push_bit 8 addr :: u32) OR push_bit 32 (ucast cmd)) = cmd"
    and "frame_addr (ucast (push_bit 8 addr :: u32) OR push_bit 32 (ucast cmd)) = addr AND 0xffffff"
    and "frame_cmd (push_bit 32 (ucast cmd)) = cmd"
proof -
  have m: "(0xffffff :: u32) = mask 24" by (simp add: mask_eq_exp_minus_1)
  show "frame_cmd (ucast (push_bit 8 addr OR ucast byte :: u32) OR push_bit 32 (ucast cmd)) = cmd"
    "frame_addr (ucast (push_bit 8 addr OR ucast byte :: u32) OR push_bit 32 (ucast cmd)) = addr AND 0xffffff"
    "(ucast (ucast (push_bit 8 addr OR ucast byte :: u32) OR push_bit 32 (ucast cmd) :: u64) :: u8) = byte"
    "frame_cmd (ucast (push_bit 8 addr :: u32) OR push_bit 32 (ucast cmd)) = cmd"
    "frame_addr (ucast (push_bit 8 addr :: u32) OR push_bit 32 (ucast cmd)) = addr AND 0xffffff"
    "frame_cmd (push_bit 32 (ucast cmd)) = cmd"
    by (rule bit_word_eqI, auto simp: frame_cmd_def frame_addr_def m bit_simps)+
qed

lemma cmd_neq:
  "FLASH_PP \<noteq> FLASH_READ" "FLASH_SE \<noteq> FLASH_READ" "FLASH_SE \<noteq> FLASH_PP"
  "FLASH_SE \<noteq> 0" "frame_cmd 0 = 0"
  by (simp_all add: flash_consts frame_cmd_def)

text \<open>The operations of the library on this chip.\<close>

lemma byte_chip_ops:
  "flash_write_enable byte_chip c = Some c"
  "flash_write_disable byte_chip c = Some c"
  "flash_read_status byte_chip c = Some (0, c)"
  "flash_read_id byte_chip 0 c = Some (0, c)"
  "litepcie_flash_read byte_chip a c = Some (c (a AND 0xffffff), c)"
  "flash_write byte_chip a b c = Some (c(a AND 0xffffff := b))"
  "flash_erase_sector byte_chip a c =
     Some (\<lambda>x. if drop_bit 16 x = drop_bit 16 (a AND 0xffffff) then 0xff else c x)"
  "litepcie_flash_get_flash_program_size byte_chip c = Some (1, c)"
  "p_sleep byte_chip us c = c"
proof -
  have low: "(ucast (ucast (x :: u8) AND (0xff :: u64)) :: u8) = x" for x
  proof -
    have m: "(0xff :: u64) = mask 8" by (simp add: mask_eq_exp_minus_1)
    show ?thesis unfolding m by (intro bit_word_eqI) (simp add: bit_simps)
  qed
  show "litepcie_flash_read byte_chip a c = Some (c (a AND 0xffffff), c)"
    by (simp add: litepcie_flash_read_def flash_spi_def flash_spi_cs_def byte_chip_def frame_fields
        low)
qed (simp_all add: flash_write_enable_def flash_write_disable_def flash_read_status_def
    flash_read_id_def flash_write_def flash_erase_sector_def flash_spi_def flash_spi_cs_def
    byte_chip_def frame_fields litepcie_flash_get_flash_program_size_def cmd_neq)

lemma byte_chip_wait: "wait_ready byte_chip us c = Some c"
  by (subst wait_ready.simps) (simp add: byte_chip_ops)

lemma byte_chip_idle: "never_busy byte_chip"
  by (simp add: never_busy_def byte_chip_ops)

lemma byte_chip_port: "flash_port byte_chip (\<lambda>c. True)"
  by unfold_locales (simp_all add: byte_chip_def)

definition chip_mem :: "chip \<Rightarrow> nat \<Rightarrow> u8" where
  "chip_mem c a = c (of_nat a)"

lemma address_24: "a < 2 ^ 24 \<Longrightarrow> (of_nat a :: u32) AND 0xffffff = of_nat a"
proof -
  assume a: "a < 2 ^ 24"
  have m: "(0xffffff :: u32) = mask 24" by (simp add: mask_eq_exp_minus_1)
  have "unat ((of_nat a :: u32) AND mask 24) = a"
    using a by (simp only: unat_and_mask_mod) (simp add: unat_of_nat_small)
  then show ?thesis unfolding m by (rule word_of_natI)
qed

lemma byte_chip_memory: "chip_memory byte_chip chip_mem 0"
proof -
  have neq: "(of_nat x :: u32) \<noteq> of_nat a" if "a < 2 ^ 24" "x < 2 ^ 24" "a \<noteq> x" for a x
    using that unat_of_nat_small [of a, where 'a = 32] unat_of_nat_small [of x, where 'a = 32] by auto
  show ?thesis
    by (auto simp: chip_memory_def chip_mem_def litepcie_flash_read_buffer_def flash_write_buffer_def
        byte_chip_ops address_24 neq)
qed

text \<open>Programming this chip succeeds.\<close>

lemma byte_chip_page: "\<exists>c'. program_page byte_chip a [b] c = Some ([b], c')"
  by (simp add: program_page_def byte_chip_wait byte_chip_ops flash_write_buffer_def
      litepcie_flash_read_buffer_def)

lemma byte_chip_page_loop:
  assumes "sz \<le> length buf"
  shows "\<exists>c'. page_loop byte_chip buf a sz 0 i 0 c = Some (0, c')"
proof (induction "sz - i" arbitrary: i c rule: less_induct)
  case less
  show ?case
  proof (cases "i < sz")
    case True
    then have s: "slice buf i (Suc 0) = Some [buf ! i]"
      using assms by (simp add: slice_def take_Suc hd_drop_conv_nth)
    obtain c1 where c1: "program_page byte_chip (a + of_nat i) [buf ! i] c = Some ([buf ! i], c1)"
      using byte_chip_page by blast
    show ?thesis using True s c1 less [of "Suc i" c1] by (subst page_loop.simps) simp
  next
    case False
    then show ?thesis by (subst page_loop.simps) simp
  qed
qed

lemma byte_chip_erase: "\<exists>c'. erase_loop byte_chip a sz i c = Some c'"
proof (induction "sz - i" arbitrary: i c rule: less_induct)
  case less
  show ?case
  proof (cases "i < sz")
    case True
    then have "sz - (i + FLASH_SECTOR_SIZE) < sz - i" by (simp add: FLASH_SECTOR_SIZE_def)
    from less [OF this] True show ?thesis
      by (subst erase_loop.simps) (simp add: byte_chip_ops byte_chip_wait)
  next
    case False
    then show ?thesis by (subst erase_loop.simps) simp
  qed
qed

lemma byte_chip_write:
  assumes "sz \<le> length buf"
  shows "\<exists>c'. litepcie_flash_write byte_chip buf a sz c = Some (0, c')"
proof -
  obtain c1 where c1: "erase_loop byte_chip a sz 0 c = Some c1" using byte_chip_erase by blast
  show ?thesis using byte_chip_page_loop [OF assms, of a 0 c1]
    by (simp add: litepcie_flash_write_def byte_chip_ops c1)
qed

lemma byte_chip_program: "\<exists>c'. flash_program byte_chip a buf c = Some (0, c')"
  unfolding flash_program_def by (rule byte_chip_write) (simp add: flash_image_length)

end
