(* ===== verification/Util_Pn.thy ===== *)
theory Util_Pn
  imports Csr_Map
begin

text \<open>
  The test data of \<open>litepcie_util.c\<close>: the pseudo-random words that \<open>dma_test\<close> sends and
  checks, their data mask, the search for the delay of the loopback, and the handling of one
  received buffer. A computation that C leaves undefined (a shift by the width of the type) is
  None.
\<close>

section \<open>Helpers\<close>

definition add_mod_int :: "u64 \<Rightarrow> u64 \<Rightarrow> u64 \<Rightarrow> u64" where
  "add_mod_int a b m = (let a = a + b in if \<not> slt a m then a - m else a)"

definition seed_to_data :: "u32 \<Rightarrow> u32" where
  "seed_to_data seed = seed * 69069 + 1"

text \<open>\<open>x <<= 1\<close> overflows an \<open>int\<close> from \<open>2 ^ 30\<close> on.\<close>

function next_pow2_loop :: "nat \<Rightarrow> int \<Rightarrow> nat option" where
  "next_pow2_loop x data_width =
     (if int x < data_width then
        (if x = 0 \<or> x \<ge> 2 ^ 30 then None else next_pow2_loop (2 * x) data_width)
      else Some x)"
  by pat_completeness auto
termination
  by (relation "measure (\<lambda>(x, w). nat (w - int x))") auto

declare next_pow2_loop.simps [simp del]

definition get_next_pow2 :: "int \<Rightarrow> nat option" where
  "get_next_pow2 data_width = next_pow2_loop 1 data_width"

definition shl32 :: "u32 \<Rightarrow> nat \<Rightarrow> u32 option" where
  "shl32 x n = (if n < 32 then Some (push_bit n x) else None)"

text \<open>\<open>(1 << data_width) - 1\<close> in \<open>int\<close>: undefined from width 31 on.\<close>

definition ones_int :: "int \<Rightarrow> u32 option" where
  "ones_int w = (if 0 \<le> w \<and> w < 31 then Some (push_bit (nat w) 1 - 1) else None)"

primrec data_mask_loop :: "nat \<Rightarrow> nat \<Rightarrow> int \<Rightarrow> u32 \<Rightarrow> u32 option" where
  "data_mask_loop 0 p w m = Some m"
| "data_mask_loop (Suc n) p w m =
     Option.bind (shl32 m p) (\<lambda>m.
     Option.bind (ones_int w) (\<lambda>b. data_mask_loop n p w (m OR b)))"

definition get_data_mask :: "int \<Rightarrow> u32 option" where
  "get_data_mask data_width =
     Option.bind (get_next_pow2 data_width) (\<lambda>p. data_mask_loop (32 div p) p data_width 0)"

section \<open>Writing and checking a buffer\<close>

text \<open>\<open>DMA_BUFFER_SIZE / sizeof(uint32_t)\<close>, the words of a buffer and the period of the seed.\<close>

definition PN_WORDS :: nat where "PN_WORDS = DMA_BUFFER_SIZE div 4"

definition next_seed :: "u32 \<Rightarrow> u32" where
  "next_seed seed = ucast (add_mod_int (ucast seed) 1 (of_nat PN_WORDS))"

primrec write_pn_loop :: "nat \<Rightarrow> u32 \<Rightarrow> u32 \<Rightarrow> u32 list \<times> u32" where
  "write_pn_loop 0 m seed = ([], seed)"
| "write_pn_loop (Suc n) m seed =
     (case write_pn_loop n m (next_seed seed) of
        (buf, seed') \<Rightarrow> ((seed_to_data seed AND m) # buf, seed'))"

definition write_pn_data :: "nat \<Rightarrow> u32 \<Rightarrow> int \<Rightarrow> (u32 list \<times> u32) option" where
  "write_pn_data count seed data_width =
     map_option (\<lambda>m. write_pn_loop count m seed) (get_data_mask data_width)"

fun check_pn_loop :: "u32 list \<Rightarrow> u32 \<Rightarrow> u32 \<Rightarrow> nat \<times> u32" where
  "check_pn_loop [] m seed = (0, seed)"
| "check_pn_loop (x # xs) m seed =
     (case check_pn_loop xs m (next_seed seed) of
        (errors, seed') \<Rightarrow> ((if x \<noteq> seed_to_data seed AND m then Suc errors else errors), seed'))"

definition check_pn_data :: "u32 list \<Rightarrow> u32 \<Rightarrow> int \<Rightarrow> (nat \<times> u32) option" where
  "check_pn_data buf seed data_width =
     map_option (\<lambda>m. check_pn_loop buf m seed) (get_data_mask data_width)"

section \<open>The loopback test\<close>

record dma_test_state =
  seed_rd :: u32
  test_errors :: u32
  run :: bool

text \<open>
  The search for the delay: the first one with fewer errors than half of the words. The state
  keeps the seed and the errors of the last trial.
\<close>

primrec find_delay :: "u32 list \<Rightarrow> u32 \<Rightarrow> nat \<Rightarrow> nat \<Rightarrow> dma_test_state \<Rightarrow> dma_test_state" where
  "find_delay buf m delay 0 t = t"
| "find_delay buf m delay (Suc n) t =
     (case check_pn_loop buf m (of_nat delay) of (errs, seed) \<Rightarrow>
       let t = t\<lparr>seed_rd := seed, test_errors := of_nat errs\<rparr> in
       if errs < PN_WORDS div 2 then t\<lparr>run := True\<rparr>
       else find_delay buf m (Suc delay) n t)"

text \<open>One received buffer: the new state, and False for the exit \<open>goto end\<close>.\<close>

definition rx_buffer :: "u32 list \<Rightarrow> u32 \<Rightarrow> dma_test_state \<Rightarrow> dma_test_state \<times> bool" where
  "rx_buffer buf m t =
     (if run t then
        (case check_pn_loop buf m (seed_rd t) of (errs, seed) \<Rightarrow>
           (t\<lparr>test_errors := test_errors t + of_nat errs, seed_rd := seed\<rparr>, True))
      else let t = find_delay buf m 0 PN_WORDS t in (t, run t))"

section \<open>Lemmas\<close>

lemma next_seed_unat:
  assumes "unat s < 16384"
  shows "unat (next_seed s) = (unat s + 1) mod 16384"
proof -
  have s: "(ucast s :: u64) = of_nat (unat s)" by (intro word_of_natI) simp
  have a: "(ucast s + 1 :: u64) = of_nat (unat s + 1)" by (simp only: s of_nat_add of_nat_1)
  have lt: "slt (ucast s + 1 :: u64) (of_nat PN_WORDS) \<longleftrightarrow> unat s + 1 < 16384"
  proof -
    have "unat s + 1 < 2 ^ 63" "PN_WORDS < 2 ^ 63" using assms by (simp_all add: PN_WORDS_def csr_defs)
    from slt_of_nat [OF this] show ?thesis unfolding a by (simp only:) (simp add: PN_WORDS_def csr_defs)
  qed
  show ?thesis
  proof (cases "unat s + 1 < 16384")
    case True
    then have "slt (ucast s + 1 :: u64) (of_nat PN_WORDS)" using lt by simp
    then have "next_seed s = ucast (ucast s + 1 :: u64)"
      by (simp add: next_seed_def add_mod_int_def Let_def)
    then have "next_seed s = ucast (of_nat (unat s + 1) :: u64)" by (simp only: a)
    moreover have "unat (ucast (of_nat (unat s + 1) :: u64) :: u32) = unat s + 1"
      using True by (simp add: unsigned_ucast_eq unat_of_nat_small take_bit_nat_eq_self del: of_nat_Suc of_nat_add)
    ultimately show ?thesis using True by simp
  next
    case False
    then have "unat s = 16383" using assms by simp
    then have "s = 16383" using word_of_natI [of s 16383] by simp
    then have "next_seed s = 0"
      using lt by (simp add: next_seed_def add_mod_int_def Let_def PN_WORDS_def csr_defs)
    then show ?thesis using \<open>unat s = 16383\<close> by simp
  qed
qed

lemma write_pn_loop_spec:
  assumes "unat s < 16384"
  shows "fst (write_pn_loop n m s) =
      map (\<lambda>k. seed_to_data (of_nat ((unat s + k) mod 16384)) AND m) [0..<n]
    \<and> unat (snd (write_pn_loop n m s)) = (unat s + n) mod 16384"
  using assms
proof (induction n arbitrary: s)
  case 0
  then show ?case by simp
next
  case (Suc n)
  have u: "unat (next_seed s) = (unat s + 1) mod 16384" by (rule next_seed_unat [OF Suc.prems])
  then have "unat (next_seed s) < 16384" by simp
  note IH = Suc.IH [OF this]
  have s: "s = of_nat (unat s mod 16384)" using Suc.prems by simp
  have "[0..<Suc n] = 0 # map Suc [0..<n]"
    by (simp only: map_Suc_upt upt_conv_Cons [of 0 "Suc n"] zero_less_Suc)
  then show ?case
    using IH s by (simp add: split_beta u comp_def mod_simps del: upt_Suc)
qed

lemma check_write_pn: "check_pn_loop (fst (write_pn_loop n m s)) m s = (0, snd (write_pn_loop n m s))"
  by (induction n arbitrary: s) (simp_all add: split_beta)

lemma check_pn_errors:
  "fst (check_pn_loop buf m s) =
     length (filter (\<lambda>(x, y). x \<noteq> y) (zip buf (fst (write_pn_loop (length buf) m s))))"
  by (induction buf arbitrary: s) (simp_all add: split_beta)

lemma check_pn_seed: "snd (check_pn_loop buf m s) = snd (write_pn_loop (length buf) m s)"
  by (induction buf arbitrary: s) (simp_all add: split_beta)

subsection \<open>The next power of two and the mask\<close>

lemma next_pow2_loop_spec:
  assumes "0 < n" "n \<le> 2 ^ 30" "int (2 ^ k) < 2 * int n" "k \<le> 30"
  shows "\<exists>j \<ge> k. next_pow2_loop (2 ^ k) (int n) = Some (2 ^ j) \<and> n \<le> 2 ^ j
    \<and> (j = k \<or> 2 ^ j < 2 * n) \<and> j \<le> 30"
  using assms(3,4)
proof (induction "30 - k" arbitrary: k)
  case 0
  then have "k = 30" by simp
  then show ?case using assms(2) by (intro exI [of _ 30]) (simp add: next_pow2_loop.simps)
next
  case (Suc d)
  show ?case
  proof (cases "2 ^ k < n")
    case False
    then show ?thesis using Suc.prems by (intro exI [of _ k]) (simp add: next_pow2_loop.simps not_less)
  next
    case True
    have k: "Suc k \<le> 30" using Suc.hyps(2) by simp
    have k2: "(2::nat) ^ k < 2 ^ 30" using k by (intro power_strict_increasing) simp_all
    have "int (2 ^ Suc k) < 2 * int n" using True by simp
    then obtain j where "j \<ge> Suc k" "next_pow2_loop (2 ^ Suc k) (int n) = Some (2 ^ j)" "n \<le> 2 ^ j"
      "j = Suc k \<or> 2 ^ j < 2 * n" "j \<le> 30"
      using Suc.hyps(1) [of "Suc k"] Suc.hyps(2) k by (metis Suc_eq_plus1 diff_Suc_1 diff_diff_left)
    moreover have "next_pow2_loop (2 ^ k) (int n) = next_pow2_loop (2 ^ Suc k) (int n)"
      using True k2 by (subst next_pow2_loop.simps) simp
    ultimately show ?thesis using True by (intro exI [of _ j]) auto
  qed
qed

text \<open>The least power of two that is not below the width.\<close>

lemma get_next_pow2_least:
  assumes "1 \<le> w" "w \<le> 2 ^ 30"
  shows "\<exists>j. get_next_pow2 w = Some (2 ^ j) \<and> w \<le> 2 ^ j \<and> (\<forall>i. w \<le> 2 ^ i \<longrightarrow> j \<le> i)"
proof -
  obtain n where n: "w = int n" "0 < n" "n \<le> 2 ^ 30"
  proof (rule that [of "nat w"])
    show "w = int (nat w)" "0 < nat w" using assms(1) by simp_all
    show "nat w \<le> 2 ^ 30" using assms by (simp add: nat_le_iff)
  qed
  obtain j where j: "next_pow2_loop (2 ^ 0) (int n) = Some (2 ^ j)" "n \<le> 2 ^ j" "j = 0 \<or> 2 ^ j < 2 * n"
    using next_pow2_loop_spec [of n 0] n by auto
  have "j \<le> i" if "w \<le> 2 ^ i" for i
  proof (rule ccontr)
    assume "\<not> j \<le> i"
    then have ij: "Suc i \<le> j" "j \<noteq> 0" by simp_all
    have "(2::nat) ^ Suc i \<le> 2 ^ j" using ij by (intro power_increasing) simp_all
    moreover have "n \<le> 2 ^ i" using that n by (metis of_nat_le_iff of_nat_numeral of_nat_power)
    ultimately show False using j(3) ij(2) by simp
  qed
  moreover have "int n \<le> 2 ^ j" using j(2) by (metis of_nat_le_iff of_nat_numeral of_nat_power)
  ultimately show ?thesis using j(1) n by (auto simp: get_next_pow2_def)
qed

lemma get_data_mask_undefined:
  assumes "17 \<le> w" "w \<le> 32"
  shows "get_data_mask w = None"
proof -
  have "get_next_pow2 w = Some 32"
    using assms by (simp add: get_next_pow2_def next_pow2_loop.simps)
  then show ?thesis by (simp add: get_data_mask_def shl32_def)
qed

lemma ones_int_mask: "w < 31 \<Longrightarrow> ones_int (int w) = Some (mask w)"
  by (simp add: ones_int_def mask_eq_exp_minus_1)

lemma data_mask_loop_bits:
  assumes "n * p \<le> 32" "w \<le> p" "0 < p" "p < 32" "w < 31"
  shows "\<exists>r. data_mask_loop n p (int w) m = Some r
    \<and> (\<forall>k < 32. bit r k \<longleftrightarrow> (if k < n * p then k mod p < w else bit m (k - n * p)))"
  using assms(1)
proof (induction n arbitrary: m)
  case 0
  then show ?case by simp
next
  case (Suc n)
  let ?m = "push_bit p m OR mask w"
  have "n * p \<le> 32" using Suc.prems by simp
  then obtain r where r: "data_mask_loop n p (int w) ?m = Some r"
    "\<forall>k < 32. bit r k \<longleftrightarrow> (if k < n * p then k mod p < w else bit ?m (k - n * p))"
    using Suc.IH by blast
  have "data_mask_loop (Suc n) p (int w) m = Some r"
    using r(1) assms(4,5) by (simp add: shl32_def ones_int_mask)
  moreover have "bit r k \<longleftrightarrow> (if k < Suc n * p then k mod p < w else bit m (k - Suc n * p))"
    if "k < 32" for k
  proof (cases "k < n * p")
    case True
    then show ?thesis using r(2) that by simp
  next
    case False
    define x where "x = k - n * p"
    have k: "k = n * p + x" "x < 32" using False that by (simp_all add: x_def)
    have bit: "bit r k \<longleftrightarrow> (p \<le> x \<and> bit m (x - p)) \<or> x < w"
      using r(2) that False k by (auto simp: bit_simps x_def [symmetric])
    show ?thesis
    proof (cases "x < p")
      case True
      then have "k mod p = x" by (simp add: k)
      then show ?thesis using bit True k(1) by simp
    next
      case False
      then show ?thesis using bit assms(2) k(1) by (simp add: add.commute)
    qed
  qed
  ultimately show ?case by blast
qed

text \<open>Widths up to 16: one field of the width in every power-of-two slot of the word.\<close>

lemma get_data_mask_bits:
  assumes "1 \<le> w" "w \<le> 16"
  shows "\<exists>m p. get_next_pow2 (int w) = Some p \<and> get_data_mask (int w) = Some m
    \<and> (\<forall>k < 32. bit m k \<longleftrightarrow> k mod p < w)"
proof -
  obtain j where j: "get_next_pow2 (int w) = Some (2 ^ j)" "int w \<le> 2 ^ j"
    "\<forall>i. int w \<le> 2 ^ i \<longrightarrow> j \<le> i"
    using get_next_pow2_least [of "int w"] assms by auto
  have j4: "j \<le> 4" using j(3) assms(2) by (auto dest: spec [of _ 4])
  then have dvd: "32 div 2 ^ j * 2 ^ j = (32::nat)"
  proof -
    have "(2::nat) ^ j dvd 2 ^ 5" using j4 by (intro le_imp_power_dvd) simp
    then show ?thesis by (intro dvd_div_mult_self) simp
  qed
  have p: "(2::nat) ^ j \<le> 2 ^ 4" using j4 by (intro power_increasing) simp_all
  have w: "w \<le> 2 ^ j" using j(2) by (metis of_nat_le_iff of_nat_numeral of_nat_power)
  obtain r where "data_mask_loop (32 div 2 ^ j) (2 ^ j) (int w) 0 = Some r"
    "\<forall>k < 32. bit r k \<longleftrightarrow> (if k < 32 div 2 ^ j * 2 ^ j then k mod 2 ^ j < w else bit (0::u32) (k - 32 div 2 ^ j * 2 ^ j))"
    using data_mask_loop_bits [of "32 div 2 ^ j" "2 ^ j" w 0] dvd p w assms(2) by auto
  then show ?thesis using j(1) by (auto simp: get_data_mask_def dvd)
qed

subsection \<open>The delay is found\<close>

lemma find_delay_found:
  assumes "fst (check_pn_loop buf m (of_nat d)) < PN_WORDS div 2" "delay \<le> d" "d < delay + n"
  shows "run (find_delay buf m delay n t)"
  using assms(2,3)
proof (induction n arbitrary: delay t)
  case (Suc n)
  then show ?case using assms(1)
    by (cases "delay = d") (auto simp: split_beta Let_def)
qed simp

end
