(* ===== verification/Soapy_Stream.thy ===== *)
theory Soapy_Stream
  imports Lib_Dma
begin

text \<open>
  The streaming part of the SoapySDR plugin (\<open>soapysdr-xtrx/Streaming.cpp\<close>), on the library and
  the driver: set-up and activation, the direct buffer interface over the mapped rings with its
  third counter, and the copying interface that keeps the rest of a buffer between calls. C++
  exceptions are values, a failed assertion is \<open>Abort\<close>, an access outside of a caller's buffer is
  \<open>Fault OutOfBounds\<close>. The lock of the object and the log are not part of the model.
\<close>

section \<open>State\<close>

definition RX_STREAM :: u64 where "RX_STREAM = 2"
definition TX_STREAM :: u64 where "TX_STREAM = 1"
definition BYTES_PER_SAMPLE :: nat where "BYTES_PER_SAMPLE = 2"

datatype soapy_direction = SOAPY_SDR_RX | SOAPY_SDR_TX | Other_direction

text \<open>The results of the stream calls: a count, or one of SoapySDR's negative codes.\<close>

datatype soapy_ret = Elems nat | Timeout | Stream_error | Overflow | Not_supported | Underflow

datatype soapy_exn = Already_opened | Dma_not_available | Mmap_failed | Invalid_direction
  | Invalid_stream | Poll_failed

record soapy_stream =
  st_opened :: bool
  st_buf :: u64
  st_events :: u32
  st_hw :: u64
  st_sw :: u64
  st_user :: u64
  remainderHandle :: u32
  remainderSamps :: nat
  remainderOffset :: nat
  remainderBuff :: u64
  st_format :: string
  st_channels :: "nat list"

record soapy =
  rx_stream :: soapy_stream
  tx_stream :: soapy_stream
  dma_info :: litepcie_ioctl_mmap_dma_info

type_synonym 'a soapy_result = "((soapy_exn + 'a) \<times> soapy \<times> fd) lib_result"

definition set_rx :: "(soapy_stream \<Rightarrow> soapy_stream) \<Rightarrow> soapy \<Rightarrow> soapy" where
  "set_rx u d = d\<lparr>rx_stream := u (rx_stream d)\<rparr>"
definition set_tx :: "(soapy_stream \<Rightarrow> soapy_stream) \<Rightarrow> soapy \<Rightarrow> soapy" where
  "set_tx u d = d\<lparr>tx_stream := u (tx_stream d)\<rparr>"

text \<open>The constructor of a stream.\<close>

definition fresh_stream :: soapy_stream where
  "fresh_stream = \<lparr>st_opened = False, st_buf = 0, st_events = 0, st_hw = 0, st_sw = 0, st_user = 0,
     remainderHandle = - 1, remainderSamps = 0, remainderOffset = 0, remainderBuff = 0,
     st_format = [], st_channels = []\<rparr>"

section \<open>Streams\<close>

definition MAP_FAILED :: u64 where "MAP_FAILED = - 1"

definition setupStream :: "lib_env \<Rightarrow> soapy_direction \<Rightarrow> string \<Rightarrow> nat list \<Rightarrow> soapy \<Rightarrow> fd \<Rightarrow> u64 soapy_result" where
  "setupStream le direction format chs d fd =
     (case direction of
        SOAPY_SDR_RX \<Rightarrow>
          if st_opened (rx_stream d) then Done (Inl Already_opened, d, fd) else
          let d = set_rx (\<lambda>t. t\<lparr>st_events := POLLIN\<rparr>) d in
          lbind (litepcie_request_dma le 0 1 fd) (\<lambda>(r, fd).
          if r = 0 then Done (Inl Dma_not_available, d, fd) else
          (case mmap_ret le (dma_rx_buf_offset (dma_info d)) of
             None \<Rightarrow> Done (Inl Mmap_failed, set_rx (\<lambda>t. t\<lparr>st_buf := MAP_FAILED\<rparr>) d, fd)
           | Some b \<Rightarrow>
               lbind (litepcie_dma_writer le 0 fd) (\<lambda>((h, s), fd).
                 Done (Inr RX_STREAM,
                   set_rx (\<lambda>t. t\<lparr>st_buf := b, st_hw := h, st_sw := s, st_opened := True, st_format := format,
                     st_channels := (if chs = [] then [0, 1] else chs)\<rparr>) d, fd))))
      | SOAPY_SDR_TX \<Rightarrow>
          if st_opened (tx_stream d) then Done (Inl Already_opened, d, fd) else
          let d = set_tx (\<lambda>t. t\<lparr>st_events := POLLOUT\<rparr>) d in
          lbind (litepcie_request_dma le 1 0 fd) (\<lambda>(r, fd).
          if r = 0 then Done (Inl Dma_not_available, d, fd) else
          (case mmap_ret le (dma_tx_buf_offset (dma_info d)) of
             None \<Rightarrow> Done (Inl Mmap_failed, set_tx (\<lambda>t. t\<lparr>st_buf := MAP_FAILED\<rparr>) d, fd)
           | Some b \<Rightarrow>
               lbind (litepcie_dma_reader le 0 fd) (\<lambda>((h, s), fd).
                 Done (Inr TX_STREAM,
                   set_tx (\<lambda>t. t\<lparr>st_buf := b, st_hw := h, st_sw := s, st_opened := True, st_format := format,
                     st_channels := (if chs = [] then [0, 1] else chs)\<rparr>) d, fd))))
      | Other_direction \<Rightarrow> Done (Inl Invalid_direction, d, fd))"

definition closeStream :: "lib_env \<Rightarrow> u64 \<Rightarrow> soapy \<Rightarrow> fd \<Rightarrow> unit soapy_result" where
  "closeStream le stream d fd =
     (if stream = RX_STREAM then
        lbind (litepcie_release_dma le 0 1 fd) (\<lambda>fd. Done (Inr (), set_rx (\<lambda>t. t\<lparr>st_opened := False\<rparr>) d, fd))
      else if stream = TX_STREAM then
        lbind (litepcie_release_dma le 1 0 fd) (\<lambda>fd. Done (Inr (), set_tx (\<lambda>t. t\<lparr>st_opened := False\<rparr>) d, fd))
      else Done (Inr (), d, fd))"

text \<open>The calls that refresh the two counters of the driver.\<close>

definition rx_dma :: "lib_env \<Rightarrow> u8 \<Rightarrow> soapy \<Rightarrow> fd \<Rightarrow> (soapy \<times> fd) lib_result" where
  "rx_dma le en d fd = lbind (litepcie_dma_writer le en fd) (\<lambda>((h, s), fd).
     Done (set_rx (\<lambda>t. t\<lparr>st_hw := h, st_sw := s\<rparr>) d, fd))"

definition tx_dma :: "lib_env \<Rightarrow> u8 \<Rightarrow> soapy \<Rightarrow> fd \<Rightarrow> (soapy \<times> fd) lib_result" where
  "tx_dma le en d fd = lbind (litepcie_dma_reader le en fd) (\<lambda>((h, s), fd).
     Done (set_tx (\<lambda>t. t\<lparr>st_hw := h, st_sw := s\<rparr>) d, fd))"

definition activateStream :: "lib_env \<Rightarrow> u64 \<Rightarrow> soapy \<Rightarrow> fd \<Rightarrow> int soapy_result" where
  "activateStream le stream d fd =
     (if stream = RX_STREAM then
        lbind (rx_dma le 1 d fd) (\<lambda>(d, fd). Done (Inr 0, set_rx (\<lambda>t. t\<lparr>st_user := 0\<rparr>) d, fd))
      else if stream = TX_STREAM then
        lbind (tx_dma le 1 d fd) (\<lambda>(d, fd). Done (Inr 0, set_tx (\<lambda>t. t\<lparr>st_user := 0\<rparr>) d, fd))
      else Done (Inr 0, d, fd))"

definition deactivateStream :: "lib_env \<Rightarrow> u64 \<Rightarrow> soapy \<Rightarrow> fd \<Rightarrow> int soapy_result" where
  "deactivateStream le stream d fd =
     (if stream = RX_STREAM then lbind (rx_dma le 0 d fd) (\<lambda>(d, fd). Done (Inr 0, d, fd))
      else if stream = TX_STREAM then lbind (tx_dma le 1 d fd) (\<lambda>(d, fd). Done (Inr 0, d, fd))
      else Done (Inr 0, d, fd))"

section \<open>Direct buffer access\<close>

definition getStreamMTU :: "u64 \<Rightarrow> soapy \<Rightarrow> soapy_exn + nat" where
  "getStreamMTU stream d =
     (if stream = RX_STREAM then Inr (unat (dma_rx_buf_size (dma_info d)) div (2 * 2 * 2))
      else if stream = TX_STREAM then Inr (unat (dma_tx_buf_size (dma_info d)) div (2 * 2 * 2))
      else Inl Invalid_stream)"

definition getNumDirectAccessBuffers :: "u64 \<Rightarrow> soapy \<Rightarrow> soapy_exn + u64" where
  "getNumDirectAccessBuffers stream d =
     (if stream = RX_STREAM then Inr (dma_rx_buf_count (dma_info d))
      else if stream = TX_STREAM then Inr (dma_tx_buf_count (dma_info d))
      else Inl Invalid_stream)"

definition getDirectAccessBufferAddrs :: "u64 \<Rightarrow> u64 \<Rightarrow> soapy \<Rightarrow> soapy_exn + u64" where
  "getDirectAccessBufferAddrs stream handle d =
     (if stream = RX_STREAM then Inr (st_buf (rx_stream d) + handle * dma_rx_buf_size (dma_info d))
      else if stream = TX_STREAM then Inr (st_buf (tx_stream d) + handle * dma_tx_buf_size (dma_info d))
      else Inl Invalid_stream)"

text \<open>\<open>poll\<close> on the descriptor of a stream.\<close>

definition stream_poll :: "lib_env \<Rightarrow> u32 \<Rightarrow> fd \<Rightarrow> int \<times> fd" where
  "stream_poll le events fd =
     (let s = poll_wait le (snd fd)
      in (if poll_fails le then - 1 else if litepcie_poll (fst fd) s AND events = 0 then 0 else 1, (fst fd, s)))"

text \<open>\<open>int buffers_available\<close> and \<open>int buffers_pending\<close>: the low 32 bits of a difference.\<close>

definition buffers_available :: "soapy \<Rightarrow> u32" where
  "buffers_available d = ucast (st_hw (rx_stream d) - st_user (rx_stream d))"
definition buffers_pending :: "soapy \<Rightarrow> u32" where
  "buffers_pending d = ucast (st_user (tx_stream d) - st_hw (tx_stream d))"

text \<open>A buffer that is handed out: its handle and its address.\<close>

definition overflowed :: "soapy \<Rightarrow> bool" where
  "overflowed d \<longleftrightarrow>
     sgt (st_hw (rx_stream d) - st_sw (rx_stream d)) (dma_rx_buf_count (dma_info d) div 2)"

definition take_read_buffer :: "lib_env \<Rightarrow> u64 \<Rightarrow> soapy \<Rightarrow> fd \<Rightarrow> (soapy_ret \<times> u64 \<times> u64) soapy_result" where
  "take_read_buffer le a0 d fd =
     (if overflowed d then
        let h = st_hw (rx_stream d) in
        lbind (checked_ioctl le (IOCTL_MMAP_DMA_WRITER_UPDATE h) fd) (\<lambda>(m, fd).
          Done (Inr (Overflow, - 1, a0), set_rx (\<lambda>t. t\<lparr>st_user := h, st_sw := h\<rparr>) d, fd))
      else
        let u = st_user (rx_stream d) in
        case getDirectAccessBufferAddrs RX_STREAM (u mod dma_rx_buf_count (dma_info d)) d of
          Inl x \<Rightarrow> Done (Inl x, d, fd)
        | Inr addr \<Rightarrow>
            (case getStreamMTU RX_STREAM d of
               Inl x \<Rightarrow> Done (Inl x, d, fd)
             | Inr mtu \<Rightarrow> Done (Inr (Elems mtu, u, addr), set_rx (\<lambda>t. t\<lparr>st_user := u + 1\<rparr>) d, fd)))"

text \<open>
  The result is the return value, the handle and the address. Where the code does not set them the
  caller's variables keep their values; here they are those of the arguments \<open>h0\<close> and \<open>a0\<close>. The
  flag END_ABRUPT is set exactly with \<open>Overflow\<close>.
\<close>

definition acquireReadBuffer ::
    "lib_env \<Rightarrow> u64 \<Rightarrow> u64 \<Rightarrow> u64 \<Rightarrow> int \<Rightarrow> soapy \<Rightarrow> fd \<Rightarrow> (soapy_ret \<times> u64 \<times> u64) soapy_result" where
  "acquireReadBuffer le stream h0 a0 timeoutUs d fd =
     (if stream \<noteq> RX_STREAM then Done (Inr (Stream_error, h0, a0), d, fd) else
      if slt (buffers_available d) 0 then Abort else
      lbind (rx_dma le 1 d fd) (\<lambda>(d, fd).
      if buffers_available d \<noteq> 0 then take_read_buffer le a0 d fd
      else if timeoutUs = 0 then Done (Inr (Timeout, h0, a0), d, fd)
      else case stream_poll le (st_events (rx_stream d)) fd of (ret, fd) \<Rightarrow>
        if ret < 0 then Done (Inl Poll_failed, d, fd)
        else if ret = 0 then Done (Inr (Timeout, h0, a0), d, fd)
        else lbind (rx_dma le 1 d fd) (\<lambda>(d, fd).
          if \<not> sgt (buffers_available d) 0 then Abort else take_read_buffer le a0 d fd)))"

definition releaseReadBuffer :: "lib_env \<Rightarrow> u64 \<Rightarrow> fd \<Rightarrow> fd lib_result" where
  "releaseReadBuffer le handle fd =
     (if handle = - 1 then Abort
      else lbind (checked_ioctl le (IOCTL_MMAP_DMA_WRITER_UPDATE (handle + 1)) fd) (\<lambda>(m, fd). Done fd))"

definition take_write_buffer :: "soapy \<Rightarrow> fd \<Rightarrow> (soapy_ret \<times> u64 \<times> u64) soapy_result" where
  "take_write_buffer d fd =
     (let u = st_user (tx_stream d) in
      case getDirectAccessBufferAddrs TX_STREAM (u mod dma_tx_buf_count (dma_info d)) d of
        Inl x \<Rightarrow> Done (Inl x, d, fd)
      | Inr addr \<Rightarrow>
          let d' = set_tx (\<lambda>t. t\<lparr>st_user := u + 1\<rparr>) d in
          if slt (buffers_pending d) 0 then Done (Inr (Underflow, u, addr), d', fd)
          else (case getStreamMTU TX_STREAM d of
                  Inl x \<Rightarrow> Done (Inl x, d', fd)
                | Inr mtu \<Rightarrow> Done (Inr (Elems mtu, u, addr), d', fd)))"

definition acquireWriteBuffer ::
    "lib_env \<Rightarrow> u64 \<Rightarrow> u64 \<Rightarrow> u64 \<Rightarrow> int \<Rightarrow> soapy \<Rightarrow> fd \<Rightarrow> (soapy_ret \<times> u64 \<times> u64) soapy_result" where
  "acquireWriteBuffer le stream h0 a0 timeoutUs d fd =
     (let full = (\<lambda>d. sint (buffers_pending d) = sint (dma_tx_buf_count (dma_info d))) in
      if stream \<noteq> TX_STREAM then Done (Inr (Stream_error, h0, a0), d, fd) else
      if sgt (buffers_pending d) (ucast (dma_tx_buf_count (dma_info d))) then Abort else
      lbind (tx_dma le 1 d fd) (\<lambda>(d, fd).
      if \<not> full d then take_write_buffer d fd
      else if timeoutUs = 0 then Done (Inr (Timeout, h0, a0), d, fd)
      else case stream_poll le (st_events (tx_stream d)) fd of (ret, fd) \<Rightarrow>
        if ret < 0 then Done (Inl Poll_failed, d, fd)
        else if ret = 0 then Done (Inr (Timeout, h0, a0), d, fd)
        else lbind (tx_dma le 1 d fd) (\<lambda>(d, fd).
          if \<not> sint (buffers_pending d) < sint (dma_tx_buf_count (dma_info d)) then Abort
          else take_write_buffer d fd)))"

definition releaseWriteBuffer :: "lib_env \<Rightarrow> u64 \<Rightarrow> fd \<Rightarrow> fd lib_result" where
  "releaseWriteBuffer le handle fd =
     lbind (checked_ioctl le (IOCTL_MMAP_DMA_READER_UPDATE (handle + 1)) fd) (\<lambda>(m, fd). Done fd)"

section \<open>Copying samples\<close>

text \<open>
  The loops \<open>for (i = offset; i < len; i += 2)\<close>. A store or load outside of the caller's samples is
  undefined and has no result. \<open>src\<close> and \<open>dst\<close> of a ring are addressed by byte.
\<close>

function deint_loop :: "(nat \<Rightarrow> u8) \<Rightarrow> nat \<Rightarrow> nat \<Rightarrow> nat \<Rightarrow> u16 list \<Rightarrow> u16 list option" where
  "deint_loop src offset len i dst =
     (if i < len then
        let p = offset * BYTES_PER_SAMPLE + i * BYTES_PER_SAMPLE in
        if p + 1 < length dst then
          deint_loop src offset len (i + 2)
            (dst[p := push_bit 8 (ucast (src (i * BYTES_PER_SAMPLE))),
                 p + 1 := push_bit 8 (ucast (src (i * BYTES_PER_SAMPLE + 1)))])
        else None
      else Some dst)"
  by pat_completeness auto
termination by (relation "measure (\<lambda>(src, offset, len, i, dst). len - i)") auto

function int_loop :: "u16 list \<Rightarrow> nat \<Rightarrow> nat \<Rightarrow> nat \<Rightarrow> (nat \<Rightarrow> u8) \<Rightarrow> (nat \<Rightarrow> u8) option" where
  "int_loop src offset len i dst =
     (if i < len then
        let p = offset * BYTES_PER_SAMPLE + i * BYTES_PER_SAMPLE in
        if p + 1 < length src then
          int_loop src offset len (i + 2)
            (dst(i * BYTES_PER_SAMPLE := ucast (drop_bit 8 (src ! p)),
                 i * BYTES_PER_SAMPLE + 1 := ucast (drop_bit 8 (src ! (p + 1)))))
        else None
      else Some dst)"
  by pat_completeness auto
termination by (relation "measure (\<lambda>(src, offset, len, i, dst). len - i)") auto

declare deint_loop.simps [simp del] int_loop.simps [simp del]

definition SOAPY_SDR_CS16 :: string where "SOAPY_SDR_CS16 = ''CS16''"

definition deinterleave :: "(nat \<Rightarrow> u8) \<Rightarrow> u16 list \<Rightarrow> nat \<Rightarrow> string \<Rightarrow> nat \<Rightarrow> u16 list option" where
  "deinterleave src dst len format offset =
     (if format = SOAPY_SDR_CS16 then deint_loop src offset len offset dst else Some dst)"

definition interleave :: "u16 list \<Rightarrow> (nat \<Rightarrow> u8) \<Rightarrow> nat \<Rightarrow> string \<Rightarrow> nat \<Rightarrow> (nat \<Rightarrow> u8) option" where
  "interleave src dst len format offset =
     (if format = SOAPY_SDR_CS16 then int_loop src offset len offset dst else Some dst)"

text \<open>The mapped memory of the process, seen from an address.\<close>

type_synonym memory = "u64 \<Rightarrow> u8"

definition at_addr :: "memory \<Rightarrow> u64 \<Rightarrow> nat \<Rightarrow> u8" where
  "at_addr mem a i = mem (a + of_nat i)"

text \<open>The loop over the channels: channel \<open>chs ! i\<close> goes to the caller's buffer \<open>i\<close>.\<close>

fun read_channels :: "(nat \<Rightarrow> u8) \<Rightarrow> nat \<Rightarrow> string \<Rightarrow> nat \<Rightarrow> nat list \<Rightarrow> u16 list list \<Rightarrow> u16 list list option" where
  "read_channels src len format start [] buffs = Some buffs"
| "read_channels src len format start (c # chs) [] = None"
| "read_channels src len format start (c # chs) (b # buffs) =
     Option.bind (deinterleave src b len format (start + c)) (\<lambda>b.
     Option.bind (read_channels src len format start chs buffs) (\<lambda>buffs. Some (b # buffs)))"

fun write_channels :: "nat \<Rightarrow> string \<Rightarrow> nat \<Rightarrow> nat list \<Rightarrow> u16 list list \<Rightarrow> (nat \<Rightarrow> u8) \<Rightarrow> (nat \<Rightarrow> u8) option" where
  "write_channels len format start [] buffs dst = Some dst"
| "write_channels len format start (c # chs) [] dst = None"
| "write_channels len format start (c # chs) (b # buffs) dst =
     Option.bind (interleave b dst len format (start + c)) (\<lambda>dst. write_channels len format start chs buffs dst)"

section \<open>readStream and writeStream\<close>

definition has_remainder :: "soapy_stream \<Rightarrow> bool" where
  "has_remainder t \<longleftrightarrow> 0 \<le> sint (remainderHandle t)"

text \<open>Account for \<open>n\<close> samples; an empty buffer is given back.\<close>

definition used_up :: "nat \<Rightarrow> soapy_stream \<Rightarrow> soapy_stream" where
  "used_up n t = t\<lparr>remainderSamps := remainderSamps t - n, remainderOffset := remainderOffset t + n\<rparr>"

definition no_remainder :: "soapy_stream \<Rightarrow> soapy_stream" where
  "no_remainder t = t\<lparr>remainderHandle := - 1, remainderOffset := 0\<rparr>"

definition finish_read :: "lib_env \<Rightarrow> nat \<Rightarrow> soapy \<Rightarrow> fd \<Rightarrow> (soapy \<times> fd) lib_result" where
  "finish_read le n d fd =
     (let d = set_rx (used_up n) d in
      if remainderSamps (rx_stream d) = 0 then
        lbind (releaseReadBuffer le (scast (remainderHandle (rx_stream d))) fd) (\<lambda>fd.
          Done (set_rx no_remainder d, fd))
      else Done (d, fd))"

definition finish_write :: "lib_env \<Rightarrow> nat \<Rightarrow> soapy \<Rightarrow> fd \<Rightarrow> (soapy \<times> fd) lib_result" where
  "finish_write le n d fd =
     (let d = set_tx (used_up n) d in
      if remainderSamps (tx_stream d) = 0 then
        lbind (releaseWriteBuffer le (scast (remainderHandle (tx_stream d))) fd) (\<lambda>fd.
          Done (set_tx no_remainder d, fd))
      else Done (d, fd))"

text \<open>
  The second half of \<open>readStream\<close>: a new buffer, after \<open>samp_avail\<close> samples came from the old one.
  \<open>h0\<close> is the uninitialised handle.
\<close>

definition read_fresh ::
    "lib_env \<Rightarrow> memory \<Rightarrow> u64 \<Rightarrow> u64 \<Rightarrow> int \<Rightarrow> nat \<Rightarrow> nat \<Rightarrow> u16 list list \<Rightarrow> soapy \<Rightarrow> fd
     \<Rightarrow> (soapy_ret \<times> u16 list list) soapy_result" where
  "read_fresh le mem h0 stream timeoutUs returned samp_avail buffs d fd =
     lbind (acquireReadBuffer le stream h0 (remainderBuff (rx_stream d)) timeoutUs d fd) (\<lambda>(r, d, fd).
       case r of
         Inl x \<Rightarrow> Done (Inl x, d, fd)
       | Inr (ret, handle, addr) \<Rightarrow>
           let d = set_rx (\<lambda>t. t\<lparr>remainderBuff := addr\<rparr>) d in
           (case ret of
              Elems m \<Rightarrow>
                let d = set_rx (\<lambda>t. t\<lparr>remainderHandle := ucast handle, remainderSamps := m\<rparr>) d;
                    n = min (returned - samp_avail) m
                in (case read_channels (at_addr mem addr) n (st_format (rx_stream d)) samp_avail
                      (st_channels (rx_stream d)) buffs of
                      None \<Rightarrow> Fault OutOfBounds
                    | Some buffs \<Rightarrow>
                        lbind (finish_read le n d fd) (\<lambda>(d, fd). Done (Inr (Elems returned, buffs), d, fd)))
            | _ \<Rightarrow>
                if ret = Timeout \<and> samp_avail > 0 then Done (Inr (Elems samp_avail, buffs), d, fd)
                else Done (Inr (ret, buffs), d, fd)))"

definition readStream ::
    "lib_env \<Rightarrow> memory \<Rightarrow> u64 \<Rightarrow> u64 \<Rightarrow> u16 list list \<Rightarrow> nat \<Rightarrow> int \<Rightarrow> soapy \<Rightarrow> fd
     \<Rightarrow> (soapy_ret \<times> u16 list list) soapy_result" where
  "readStream le mem h0 stream buffs numElems timeoutUs d fd =
     (if stream \<noteq> RX_STREAM then Done (Inr (Not_supported, buffs), d, fd) else
      case getStreamMTU stream d of
        Inl x \<Rightarrow> Done (Inl x, d, fd)
      | Inr mtu \<Rightarrow>
          let returned = min numElems mtu; t = rx_stream d in
          if has_remainder t then
            let n = min (remainderSamps t) returned;
                samp_avail = (if n < returned then n else 0)
            in (case read_channels (at_addr mem (remainderBuff t + of_nat (remainderOffset t * BYTES_PER_SAMPLE)))
                  (n div 2) (st_format t) 0 (st_channels t) buffs of
                  None \<Rightarrow> Fault OutOfBounds
                | Some buffs \<Rightarrow>
                    lbind (finish_read le n d fd) (\<lambda>(d, fd).
                      if n = returned then Done (Inr (Elems returned, buffs), d, fd)
                      else read_fresh le mem h0 stream timeoutUs returned samp_avail buffs d fd))
          else read_fresh le mem h0 stream timeoutUs returned 0 buffs d fd)"

text \<open>The memory of the process with the bytes \<open>f\<close> from \<open>a\<close> on.\<close>

definition to_addr :: "u64 \<Rightarrow> (nat \<Rightarrow> u8) \<Rightarrow> memory" where
  "to_addr a f x = f (unat (x - a))"

definition write_fresh ::
    "lib_env \<Rightarrow> memory \<Rightarrow> u64 \<Rightarrow> u64 \<Rightarrow> int \<Rightarrow> nat \<Rightarrow> nat \<Rightarrow> u16 list list \<Rightarrow> soapy \<Rightarrow> fd
     \<Rightarrow> (soapy_ret \<times> memory) soapy_result" where
  "write_fresh le mem h0 stream timeoutUs returned samp_avail buffs d fd =
     lbind (acquireWriteBuffer le stream h0 (remainderBuff (tx_stream d)) timeoutUs d fd) (\<lambda>(r, d, fd).
       case r of
         Inl x \<Rightarrow> Done (Inl x, d, fd)
       | Inr (ret, handle, addr) \<Rightarrow>
           let d = set_tx (\<lambda>t. t\<lparr>remainderBuff := addr\<rparr>) d in
           (case ret of
              Elems m \<Rightarrow>
                let d = set_tx (\<lambda>t. t\<lparr>remainderHandle := ucast handle, remainderSamps := m\<rparr>) d;
                    n = min (returned - samp_avail) m
                in (case write_channels n (st_format (tx_stream d)) samp_avail
                      (st_channels (tx_stream d)) buffs (at_addr mem addr) of
                      None \<Rightarrow> Fault OutOfBounds
                    | Some dst \<Rightarrow>
                        lbind (finish_write le n d fd) (\<lambda>(d, fd).
                          Done (Inr (Elems returned, to_addr addr dst), d, fd)))
            | _ \<Rightarrow>
                if ret = Timeout \<and> samp_avail > 0 then Done (Inr (Elems samp_avail, mem), d, fd)
                else Done (Inr (ret, mem), d, fd)))"

definition writeStream ::
    "lib_env \<Rightarrow> memory \<Rightarrow> u64 \<Rightarrow> u64 \<Rightarrow> u16 list list \<Rightarrow> nat \<Rightarrow> int \<Rightarrow> soapy \<Rightarrow> fd
     \<Rightarrow> (soapy_ret \<times> memory) soapy_result" where
  "writeStream le mem h0 stream buffs numElems timeoutUs d fd =
     (if stream \<noteq> TX_STREAM then Done (Inr (Not_supported, mem), d, fd) else
      case getStreamMTU stream d of
        Inl x \<Rightarrow> Done (Inl x, d, fd)
      | Inr mtu \<Rightarrow>
          let returned = min numElems mtu; t = tx_stream d in
          if has_remainder t then
            let n = min (remainderSamps t) returned;
                samp_avail = (if n < returned then n else 0);
                addr = remainderBuff t + of_nat (remainderOffset t * BYTES_PER_SAMPLE)
            in (case write_channels (n div 2) (st_format t) 0 (st_channels t) buffs (at_addr mem addr) of
                  None \<Rightarrow> Fault OutOfBounds
                | Some dst \<Rightarrow>
                    let mem = to_addr addr dst in
                    lbind (finish_write le n d fd) (\<lambda>(d, fd).
                      if n = returned then Done (Inr (Elems returned, mem), d, fd)
                      else write_fresh le mem h0 stream timeoutUs returned samp_avail buffs d fd))
          else write_fresh le mem h0 stream timeoutUs returned 0 buffs d fd)"

end
