(* ===== verification/Soapy_Facts.thy ===== *)
theory Soapy_Facts
  imports Soapy_Stream
begin

text \<open>
  Facts on the streaming calls of \<open>Soapy_Stream\<close>: the outcomes of acquiring a buffer in terms of
  the three counters, and which samples the copying loops reach.
\<close>

section \<open>Counters\<close>

lemma rx_dma_on:
  assumes "from_ok (le_arg le)" "to_ok (le_arg le)" "writer_enable (dma_of (priv_chan f) s) = en"
  shows "rx_dma le en d (f, s) = Done (set_rx (\<lambda>t. t\<lparr>st_hw := writer_hw_count (dma_of (priv_chan f) s),
    st_sw := writer_sw_count (dma_of (priv_chan f) s)\<rparr>) d, (f, s))"
  by (simp add: rx_dma_def writer_already_on [OF assms])

lemma tx_dma_on:
  assumes "from_ok (le_arg le)" "to_ok (le_arg le)" "reader_enable (dma_of (priv_chan f) s) = en"
  shows "tx_dma le en d (f, s) = Done (set_tx (\<lambda>t. t\<lparr>st_hw := reader_hw_count (dma_of (priv_chan f) s),
    st_sw := reader_sw_count (dma_of (priv_chan f) s)\<rparr>) d, (f, s))"
  by (simp add: tx_dma_def reader_already_on [OF assms])

lemma low_half:
  assumes "U \<le> H" "H - U < 2 ^ 31"
  shows "(ucast (of_nat H - of_nat U :: u64) :: u32) = of_nat (H - U)"
    and "sint (of_nat (H - U) :: u32) = int (H - U)"
proof -
  have "H - U < 2 ^ 32" using assms(2) by (rule order.strict_trans) simp
  with u32_of_diff(1) [OF assms(1)] show "(ucast (of_nat H - of_nat U :: u64) :: u32) = of_nat (H - U)"
    by (simp add: u32_of_s64_def)
  show "sint (of_nat (H - U) :: u32) = int (H - U)"
    using assms(2) by (simp add: signed_of_nat signed_take_bit_int_eq_self del: of_nat_diff)
qed

lemma available_nat:
  assumes "st_hw (rx_stream d) = of_nat H" "st_user (rx_stream d) = of_nat U" "U \<le> H" "H - U < 2 ^ 31"
  shows "\<not> slt (buffers_available d) 0" "buffers_available d = 0 \<longleftrightarrow> U = H" "sgt (buffers_available d) 0 \<longleftrightarrow> U < H"
proof -
  have b: "buffers_available d = of_nat (H - U)"
    unfolding buffers_available_def assms(1,2) by (rule low_half [OF assms(3,4)])
  have s: "sint (buffers_available d) = int (H - U)"
    unfolding b by (rule low_half [OF assms(3,4)])
  show "\<not> slt (buffers_available d) 0" by (simp add: slt_def s)
  show "sgt (buffers_available d) 0 \<longleftrightarrow> U < H" using assms(3) by (auto simp: sgt_def s)
  show "buffers_available d = 0 \<longleftrightarrow> U = H"
  proof
    assume "buffers_available d = 0"
    with s have "int (H - U) = 0" by simp
    with assms(3) show "U = H" by simp
  qed (simp add: b)
qed

section \<open>Acquiring a buffer\<close>

definition rx_counted :: "soapy \<Rightarrow> nat \<Rightarrow> nat \<Rightarrow> nat \<Rightarrow> soapy" where
  "rx_counted d H S U = set_rx (\<lambda>t. t\<lparr>st_hw := of_nat H, st_sw := of_nat S, st_user := of_nat U\<rparr>) d"

lemma take_read_buffer_cases:
  assumes "dma_info d = mmap_dma_info" "from_ok (le_arg le)"
    and "st_hw (rx_stream d) = of_nat H" "st_sw (rx_stream d) = of_nat S" "st_user (rx_stream d) = of_nat U"
    and "S \<le> H" "H < 2 ^ 63" "U < 2 ^ 63"
  shows "take_read_buffer le a0 d (f, s) =
    (if H - S > 128
     then Done (Inr (Overflow, - 1, a0), rx_counted d H H H, (f, upd_dma (priv_chan f) (set_writer_sw H) s))
     else Done (Inr (Elems 8192, of_nat U, st_buf (rx_stream d) + of_nat (U mod 256 * 65536)),
       rx_counted d H S (U + 1), (f, s)))"
proof -
  have o1: "overflowed d \<longleftrightarrow> H - S > 128"
  proof -
    have "dma_rx_buf_count (dma_info d) div 2 = (of_nat 128 :: u64)"
      by (simp add: assms(1) mmap_dma_info_def csr_defs)
    then show ?thesis unfolding overflowed_def assms(3,4) using sgt_diff [OF assms(6,7), of 128] by simp
  qed
  have m: "(of_nat U :: u64) mod 256 = of_nat (U mod 256)"
  proof -
    have "unat (of_nat U :: u64) = U" "unat (of_nat (U mod 256) :: u64) = U mod 256"
      using assms(8) by (intro unat_of_nat_small, simp)+
    then show ?thesis unfolding word_unat_eq_iff unat_mod by simp
  qed
  show ?thesis
    using assms(2) by (simp add: take_read_buffer_def o1 assms(1,3-5) mmap_dma_info_def csr_defs m
        getDirectAccessBufferAddrs_def getStreamMTU_def checked_ioctl_def litepcie_ioctl_def Let_def
        rx_counted_def set_rx_def set_writer_sw_def [abs_def])
qed

lemma rx_dma_counts:
  assumes "from_ok (le_arg le)" "to_ok (le_arg le)" "writer_enable (dma_of (priv_chan f) s) = 1"
    and "writer_hw_count (dma_of (priv_chan f) s) = of_nat H" "writer_sw_count (dma_of (priv_chan f) s) = of_nat S"
    and "st_user (rx_stream d) = of_nat U"
  shows "rx_dma le 1 d (f, s) = Done (rx_counted d H S U, (f, s))"
  unfolding rx_dma_on [OF assms(1-3)] rx_counted_def assms(4,5) using assms(6)
  by (simp add: set_rx_def)

lemma acquire_available:
  assumes "from_ok (le_arg le)" "to_ok (le_arg le)" "dma_info d = mmap_dma_info"
    and "writer_enable (dma_of (priv_chan f) s) = 1"
    and "writer_hw_count (dma_of (priv_chan f) s) = of_nat H" "writer_sw_count (dma_of (priv_chan f) s) = of_nat S"
    and "st_hw (rx_stream d) = of_nat L" "st_user (rx_stream d) = of_nat U"
    and "U \<le> L" "L \<le> H" "S \<le> H" "U < H" "H < 2 ^ 63" "H - U < 2 ^ 31"
  shows "acquireReadBuffer le RX_STREAM h0 a0 timeoutUs d (f, s) =
    (if H - S > 128
     then Done (Inr (Overflow, - 1, a0), rx_counted d H H H, (f, upd_dma (priv_chan f) (set_writer_sw H) s))
     else Done (Inr (Elems 8192, of_nat U, st_buf (rx_stream d) + of_nat (U mod 256 * 65536)),
       rx_counted d H S (U + 1), (f, s)))"
proof -
  let ?d = "rx_counted d H S U"
  have d: "st_hw (rx_stream ?d) = of_nat H" "st_sw (rx_stream ?d) = of_nat S" "st_user (rx_stream ?d) = of_nat U"
    "dma_info ?d = mmap_dma_info" "st_buf (rx_stream ?d) = st_buf (rx_stream d)"
    by (simp_all add: rx_counted_def set_rx_def assms(3))
  have "L - U < 2 ^ 31" using assms(10,14) by linarith
  then have 1: "\<not> slt (buffers_available d) 0" by (rule available_nat(1) [OF assms(7-9)])
  have "U \<le> H" using assms(12) by simp
  then have 2: "buffers_available ?d \<noteq> 0"
    using available_nat(2) [OF d(1,3) _ assms(14)] assms(12) by simp
  have "rx_counted ?d h s u = rx_counted d h s u" for h s u by (simp add: rx_counted_def set_rx_def)
  moreover have "U < 2 ^ 63" using assms(12,13) by linarith
  ultimately show ?thesis
    using take_read_buffer_cases [OF d(4) assms(1) d(1-3) assms(11,13), of a0 f s]
    by (simp add: acquireReadBuffer_def 1 2 d(5) rx_dma_counts [OF assms(1,2,4-6,8)])
qed

text \<open>Every filled buffer is in the hands of the caller, and more than two were not given back.\<close>

lemma acquire_holding_all:
  assumes "from_ok (le_arg le)" "to_ok (le_arg le)" "\<not> poll_fails le" "timeoutUs \<noteq> 0"
    and "writer_enable (dma_of (priv_chan f) s) = 1"
    and "writer_hw_count (dma_of (priv_chan f) s) = of_nat H" "writer_sw_count (dma_of (priv_chan f) s) = of_nat S"
    and "poll_wait le s = s" "litepcie_dev (chan s ! priv_chan f)"
    and "st_hw (rx_stream d) = of_nat H" "st_user (rx_stream d) = of_nat H" "st_events (rx_stream d) = POLLIN"
    and "S + 2 < H" "H < 2 ^ 63"
  shows "acquireReadBuffer le RX_STREAM h0 a0 timeoutUs d (f, s) = Abort"
proof -
  let ?d = "rx_counted d H S H"
  have d: "st_hw (rx_stream ?d) = of_nat H" "st_user (rx_stream ?d) = of_nat H" "st_events (rx_stream ?d) = POLLIN"
    by (simp_all add: rx_counted_def set_rx_def assms(12))
  have 1: "\<not> slt (buffers_available d) 0" by (rule available_nat(1) [OF assms(10,11)]) simp_all
  have 2: "buffers_available ?d = 0" "\<not> sgt (buffers_available ?d) 0"
    using available_nat(2,3) [OF d(1,2)] by simp_all
  have r: "rx_dma le 1 d (f, s) = Done (?d, (f, s))" "rx_dma le 1 ?d (f, s) = Done (?d, (f, s))"
    using rx_dma_counts [OF assms(1,2,5-7,11)] rx_dma_counts [OF assms(1,2,5-7) d(2)]
    by (simp_all add: rx_counted_def set_rx_def)
  have "sgt (of_nat H - of_nat S :: u64) (of_nat 2)"
    using assms(13,14) by (subst sgt_diff) auto
  then have "litepcie_poll f s AND POLLIN \<noteq> 0"
    using assms(6,7,9)
    by (cases "slt (reader_pending (dma_of (priv_chan f) s)) (of_nat (DMA_BUFFER_COUNT div 2))")
      (simp_all add: litepcie_poll_def writer_pending_def Let_def csr_defs)
  then have "stream_poll le (st_events (rx_stream ?d)) (f, s) = (1, (f, s))"
    using assms(3,8) by (simp add: stream_poll_def d(3))
  moreover have "\<not> sgt (0 :: u32) 0" by (simp add: sgt_def)
  ultimately show ?thesis using assms(4) by (simp add: acquireReadBuffer_def 1 2 r)
qed

section \<open>Samples the copying loop does not reach\<close>

text \<open>Complex sample \<open>q\<close> of a caller's buffer is its elements \<open>2 * q\<close> and \<open>2 * q + 1\<close>.\<close>

definition odd_kept :: "u16 list \<Rightarrow> u16 list \<Rightarrow> bool" where
  "odd_kept b b' \<longleftrightarrow> length b' = length b
     \<and> (\<forall>q. odd q \<longrightarrow> b' ! (2 * q) = b ! (2 * q) \<and> b' ! (2 * q + 1) = b ! (2 * q + 1))"

lemma odd_kept_refl: "odd_kept b b"
  by (simp add: odd_kept_def)

lemma odd_kept_trans: "odd_kept a b \<Longrightarrow> odd_kept b c \<Longrightarrow> odd_kept a c"
  by (simp add: odd_kept_def)

lemma odd_kept_store:
  assumes "even p"
  shows "odd_kept b (b[2 * p := x, 2 * p + 1 := y])"
  unfolding odd_kept_def
proof (intro conjI allI impI)
  fix q :: nat
  assume "odd q"
  then have "2 * p \<noteq> 2 * q" "2 * p + 1 \<noteq> 2 * q" "2 * p \<noteq> 2 * q + 1" "2 * p + 1 \<noteq> 2 * q + 1"
    using assms by presburger+
  then show "b[2 * p := x, 2 * p + 1 := y] ! (2 * q) = b ! (2 * q)"
    "b[2 * p := x, 2 * p + 1 := y] ! (2 * q + 1) = b ! (2 * q + 1)"
    by (simp_all only: nth_list_update_neq not_False_eq_True)
qed simp

lemma deint_loop_kept: "deint_loop src offset len i dst = Some dst' \<Longrightarrow> even (offset + i) \<Longrightarrow> odd_kept dst dst'"
proof (induction src offset len i dst rule: deint_loop.induct)
  case (1 src offset len i dst)
  show ?case
  proof (cases "i < len")
    case False
    with 1 show ?thesis by (simp add: deint_loop.simps [of src offset len i] odd_kept_refl)
  next
    case True
    let ?p = "offset * BYTES_PER_SAMPLE + i * BYTES_PER_SAMPLE"
    let ?dst = "dst[?p := push_bit 8 (ucast (src (i * BYTES_PER_SAMPLE))),
      ?p + 1 := push_bit 8 (ucast (src (i * BYTES_PER_SAMPLE + 1)))]"
    have p: "?p = 2 * (offset + i)" by (simp add: BYTES_PER_SAMPLE_def)
    from "1.prems"(1) True have g: "?p + 1 < length dst" and r: "deint_loop src offset len (i + 2) ?dst = Some dst'"
      by (simp_all add: deint_loop.simps [of src offset len i] Let_def split: if_splits)
    have "odd_kept dst ?dst" unfolding p using "1.prems"(2) by (rule odd_kept_store)
    moreover have "odd_kept ?dst dst'"
      using "1.IH" [OF True refl g r] "1.prems"(2) by simp
    ultimately show ?thesis by (rule odd_kept_trans)
  qed
qed

lemma read_channels_kept:
  "read_channels src len format start chs buffs = Some buffs' \<Longrightarrow> list_all2 odd_kept buffs buffs'"
proof (induction chs arbitrary: buffs buffs')
  case Nil
  then show ?case by (simp add: list_all2_same odd_kept_refl)
next
  case (Cons c chs)
  then obtain b bs b' bs' where "buffs = b # bs" "buffs' = b' # bs'"
    and "deinterleave src b len format (start + c) = Some b'" "read_channels src len format start chs bs = Some bs'"
    by (cases buffs) (auto simp: bind_eq_Some_conv)
  moreover have "odd_kept b b'"
    using calculation(3) deint_loop_kept [of src "start + c" len "start + c" b b']
    by (auto simp: deinterleave_def odd_kept_refl split: if_splits)
  ultimately show ?case using Cons.IH by simp
qed

lemma read_fresh_kept:
  assumes "read_fresh le mem h0 stream tmo returned avail buffs d fd = Done (Inr (ret, buffs'), d', fd')"
  shows "list_all2 odd_kept buffs buffs'"
proof -
  have refl: "list_all2 odd_kept buffs buffs" by (simp add: list_all2_same odd_kept_refl)
  obtain x d1 fd1 where acq: "acquireReadBuffer le stream h0 (remainderBuff (rx_stream d)) tmo d fd = Done (x, d1, fd1)"
    using assms unfolding read_fresh_def by (auto simp: lbind_Done_iff)
  obtain r handle addr where x: "x = Inr (r, handle, addr)"
    using assms unfolding read_fresh_def by (cases x) (auto simp: acq)
  note a = assms [unfolded read_fresh_def Let_def acq x lbind_simps prod.case sum.case]
  show ?thesis
  proof (cases r)
    case (Elems m)
    with a show ?thesis
      by (auto simp: lbind_Done_iff split: option.splits dest: read_channels_kept)
  qed (use a refl in \<open>auto split: if_splits\<close>)
qed

lemma readStream_kept:
  assumes "readStream le mem h0 stream buffs numElems tmo d fd = Done (Inr (ret, buffs'), d', fd')"
  shows "list_all2 odd_kept buffs buffs'"
proof -
  have tr: "list_all2 odd_kept as bs \<Longrightarrow> list_all2 odd_kept bs cs \<Longrightarrow> list_all2 odd_kept as cs" for as bs cs
    by (rule list_all2_trans [of odd_kept odd_kept]) (auto intro: odd_kept_trans)
  show ?thesis
    using assms unfolding readStream_def Let_def
    by (auto simp: lbind_Done_iff list_all2_same odd_kept_refl
        split: sum.splits option.splits if_splits dest!: read_channels_kept dest: read_fresh_kept tr)
qed

section \<open>Deactivation\<close>

lemma deactivate_tx:
  assumes "from_ok (le_arg le)" "to_ok (le_arg le)" "reader_enable (dma_of (priv_chan f) s) = 1"
  shows "\<exists>d'. deactivateStream le TX_STREAM d (f, s) = Done (Inr 0, d', (f, s))"
  using assms by (simp add: deactivateStream_def RX_STREAM_def TX_STREAM_def tx_dma_on)

lemma deactivate_rx:
  assumes "from_ok (le_arg le)" "to_ok (le_arg le)" "chan_ready (priv_chan f) s"
  shows "\<exists>d' s'. deactivateStream le RX_STREAM d (f, s) = Done (Inr 0, d', (f, s'))
    \<and> writer_enable (dma_of (priv_chan f) s') = 0"
proof -
  let ?m = "\<lparr>enable = 0, hw_count = 0, sw_count = 0\<rparr> :: litepcie_ioctl_dma_dir"
  have "\<exists>h w s'. litepcie_dma_writer le 0 (f, s) = Done ((h, w), (f, s'))
      \<and> writer_enable (dma_of (priv_chan f) s') = 0"
  proof (cases "writer_enable (dma_of (priv_chan f) s) = 0")
    case True
    with writer_already_on [OF assms(1,2) True] show ?thesis by auto
  next
    case False
    have "litepcie_dev (chan s ! priv_chan f)" using assms(3) by (simp add: chan_ready_def)
    then obtain ret rep f' s' where r: "litepcie_ioctl (le_k le) (le_arg le) (IOCTL_DMA_WRITER ?m) f s = Ret (ret, rep, f') s'"
      using assms(1,2) by (simp add: litepcie_ioctl_def ioctl_dma_writer_def reply_def Let_def)
    note stop = ioctl_writer_stop [OF assms(3) _ False assms(1,2) refl r]
    from stop(1) have "ret = 0" "f' = f" by simp_all
    then show ?thesis using r stop(2)
      by (simp add: litepcie_dma_writer_def checked_ioctl_def split_beta)
  qed
  then show ?thesis by (auto simp: deactivateStream_def rx_dma_def)
qed

end
