(* ===== verification/Fw_Console.thy ===== *)
theory Fw_Console
  imports Xtrx_Prelude
begin

text \<open>
  The serial console of the firmware (\<open>firmware/main.c\<close>): the line editor \<open>readstr\<close> with its
  static buffer and the tokenizer \<open>get_token\<close>, both on the C representation of a string (an array
  with a terminating NUL). The abstract line editor works on a list; the last section shows that
  \<open>readstr\<close> refines it and never leaves its buffer.
\<close>

section \<open>C strings\<close>

definition NUL :: char where "NUL = CHR 0x00"

definition c_string :: "string \<Rightarrow> nat \<Rightarrow> string" where
  "c_string buf p = takeWhile (\<lambda>c. c \<noteq> NUL) (drop p buf)"

definition c_strlen :: "string \<Rightarrow> nat \<Rightarrow> nat" where
  "c_strlen buf p = length (c_string buf p)"

text \<open>The position of the first \<open>ch\<close> (which is not NUL) of the string at \<open>p\<close>.\<close>

definition c_strchr :: "string \<Rightarrow> nat \<Rightarrow> char \<Rightarrow> nat option" where
  "c_strchr buf p ch = (let cs = c_string buf p in
     if ch \<in> set cs then Some (p + length (takeWhile (\<lambda>c. c \<noteq> ch) cs)) else None)"

definition c_streq :: "string \<Rightarrow> nat \<Rightarrow> string \<Rightarrow> bool" where
  "c_streq buf p lit \<longleftrightarrow> c_string buf p = lit"

section \<open>readstr and get_token\<close>

text \<open>
  The static variables of \<open>readstr\<close> and what it echoed. \<open>readchar_nonblock\<close> and \<open>getchar\<close> of
  the C library are one argument: the character that waits, if any.
\<close>

record console =
  con_s :: string
  con_ptr :: nat
  con_echo :: string

definition readstr :: "char option \<Rightarrow> console \<Rightarrow> nat option \<times> console" where
  "readstr inp t = (case inp of
     None \<Rightarrow> (None, t)
   | Some c \<Rightarrow>
       if c = CHR 0x7f \<or> c = CHR 0x08 then
         (None, if con_ptr t > 0
                then t\<lparr>con_ptr := con_ptr t - 1, con_echo := con_echo t @ [CHR 0x08, CHR 0x20, CHR 0x08]\<rparr>
                else t)
       else if c = CHR 0x07 then (None, t)
       else if c = CHR 0x0D \<or> c = CHR 0x0A then
         (Some 0, t\<lparr>con_s := (con_s t)[con_ptr t := NUL], con_echo := con_echo t @ [CHR 0x0A], con_ptr := 0\<rparr>)
       else if con_ptr t \<ge> length (con_s t) - 1 then (None, t)
       else (None, t\<lparr>con_echo := con_echo t @ takeWhile (\<lambda>x. x \<noteq> NUL) [c],
                     con_s := (con_s t)[con_ptr t := c], con_ptr := con_ptr t + 1\<rparr>))"

text \<open>\<open>get_token buf str\<close> is the token, the advanced \<open>str\<close> and the buffer with the token closed.\<close>

definition get_token :: "string \<Rightarrow> nat \<Rightarrow> nat \<times> nat \<times> string" where
  "get_token buf str = (case c_strchr buf str (CHR 0x20) of
     None \<Rightarrow> (str, str + c_strlen buf str, buf)
   | Some c \<Rightarrow> (str, c + 1, buf[c := NUL]))"

text \<open>Power-up: zeroed statics.\<close>

definition console_reset :: console where
  "console_reset = \<lparr>con_s = replicate 64 NUL, con_ptr = 0, con_echo = []\<rparr>"

text \<open>The line stays inside its buffer, with room for the NUL.\<close>

definition console_ok :: "console \<Rightarrow> bool" where
  "console_ok t \<longleftrightarrow> length (con_s t) = 64 \<and> con_ptr t \<le> 63"

section \<open>The abstract editor\<close>

definition line :: "console \<Rightarrow> string" where "line t = take (con_ptr t) (con_s t)"

definition is_erase :: "char \<Rightarrow> bool" where "is_erase c \<longleftrightarrow> c = CHR 0x7f \<or> c = CHR 0x08"
definition is_return :: "char \<Rightarrow> bool" where "is_return c \<longleftrightarrow> c = CHR 0x0D \<or> c = CHR 0x0A"

definition edit :: "char \<Rightarrow> string \<Rightarrow> string" where
  "edit c l = (if is_erase c then butlast l else if is_return c then []
     else if c = CHR 0x07 \<or> 63 \<le> length l then l else l @ [c])"

lemmas char_class = is_erase_def is_return_def

lemma console_reset_ok [simp]: "console_ok console_reset"
  by (simp add: console_ok_def console_reset_def)

lemma line_reset [simp]: "line console_reset = []"
  by (simp add: line_def console_reset_def)

lemma readstr_ok: "console_ok t \<Longrightarrow> console_ok (snd (readstr inp t))"
  by (auto simp: readstr_def console_ok_def split: option.splits)

lemma readstr_line:
  assumes "console_ok t"
  shows "line (snd (readstr (Some c) t)) = edit c (line t)"
proof -
  have "butlast (take (con_ptr t) (con_s t)) = take (con_ptr t - 1) (con_s t)"
    using assms by (simp add: console_ok_def butlast_take)
  moreover have "take (Suc (con_ptr t)) ((con_s t)[con_ptr t := c]) = take (con_ptr t) (con_s t) @ [c]"
    if "con_ptr t < 63"
    using that assms by (simp add: console_ok_def take_Suc_conv_app_nth)
  ultimately show ?thesis
    using assms by (auto simp: readstr_def line_def edit_def char_class console_ok_def min_def)
qed

lemma readstr_idle [simp]: "readstr None t = (None, t)"
  by (simp add: readstr_def)

lemma readstr_returns:
  assumes "console_ok t"
  shows "fst (readstr (Some c) t) = (if is_return c then Some 0 else None)"
  by (auto simp: readstr_def char_class)

text \<open>The string that is handed out is what was edited, up to the first NUL that was typed.\<close>

lemma takeWhile_NUL: "takeWhile (\<lambda>x. x \<noteq> NUL) (xs @ NUL # r) = takeWhile (\<lambda>x. x \<noteq> NUL) xs"
  by (induction xs) simp_all

lemma readstr_string:
  assumes "console_ok t" "is_return c"
  shows "c_string (con_s (snd (readstr (Some c) t))) 0 = takeWhile (\<lambda>x. x \<noteq> NUL) (line t)"
proof -
  let ?s = "(con_s t)[con_ptr t := NUL]"
  have "con_s (snd (readstr (Some c) t)) = ?s"
    using assms(2) by (auto simp: readstr_def char_class)
  moreover have "?s = line t @ NUL # drop (Suc (con_ptr t)) (con_s t)"
    using assms(1) by (simp add: line_def console_ok_def upd_conv_take_nth_drop)
  moreover have "takeWhile (\<lambda>x. x \<noteq> NUL) (line t @ NUL # r) = takeWhile (\<lambda>x. x \<noteq> NUL) (line t)" for r
    by (rule takeWhile_NUL)
  ultimately show ?thesis by (simp add: c_string_def)
qed

text \<open>A session: characters arrive one by one, between calls that find none.\<close>

fun type_in :: "string \<Rightarrow> console \<Rightarrow> console" where
  "type_in [] t = t"
| "type_in (c # cs) t = type_in cs (snd (readstr (Some c) t))"

lemma type_in_refines:
  "console_ok t \<Longrightarrow> console_ok (type_in cs t) \<and> line (type_in cs t) = fold edit cs (line t)"
  by (induction cs arbitrary: t) (simp_all add: readstr_ok readstr_line)

section \<open>Tokens\<close>

lemma c_string_update:
  assumes "p \<le> q" "q < p + length (c_string buf p)"
  shows "c_string (buf[q := NUL]) p = take (q - p) (c_string buf p)"
proof -
  let ?cs = "c_string buf p"
  have len: "q - p < length ?cs" using assms by simp
  then have dr: "q - p < length (drop p buf)"
    unfolding c_string_def using length_takeWhile_le order.strict_trans2 by blast
  have "drop p (buf[q := NUL]) = (drop p buf)[q - p := NUL]"
    using assms(1) by (simp add: drop_update_swap)
  also have "\<dots> = take (q - p) (drop p buf) @ NUL # drop (Suc (q - p)) (drop p buf)"
    by (rule upd_conv_take_nth_drop [OF dr])
  finally have "c_string (buf[q := NUL]) p
      = takeWhile (\<lambda>c. c \<noteq> NUL) (take (q - p) (drop p buf) @ NUL # drop (Suc (q - p)) (drop p buf))"
    by (simp add: c_string_def)
  moreover have tk: "take (q - p) (drop p buf) = take (q - p) ?cs"
    using len unfolding c_string_def
    by (metis takeWhile_eq_take less_imp_le_nat min.absorb1 take_take)
  moreover have "\<forall>c \<in> set (take (q - p) ?cs). c \<noteq> NUL"
    by (auto simp: c_string_def dest: in_set_takeD set_takeWhileD)
  ultimately show ?thesis by (simp add: takeWhile_append)
qed

lemma c_string_drop:
  "n \<le> length (c_string buf p) \<Longrightarrow> c_string buf (p + n) = drop n (c_string buf p)"
proof (induction n arbitrary: p)
  case (Suc n)
  from Suc.prems obtain x xs where x: "drop p buf = x # xs" "x \<noteq> NUL"
    by (cases "drop p buf") (auto simp: c_string_def split: if_splits)
  have "drop (Suc p) buf = tl (drop p buf)" by (simp add: drop_Suc tl_drop)
  with x have "c_string buf p = x # c_string buf (Suc p)" by (simp add: c_string_def)
  with Suc.IH [of "Suc p"] Suc.prems show ?case by simp
qed simp

lemma c_string_update_before: "q < p \<Longrightarrow> c_string (buf[q := x]) p = c_string buf p"
  by (simp add: c_string_def)

lemma length_takeWhile_first: "x \<in> set xs \<Longrightarrow> length (takeWhile (\<lambda>c. c \<noteq> x) xs) < length xs"
  by (induction xs) auto

text \<open>The token is the text before the first space, the rest is what follows it.\<close>

lemma get_token_split:
  assumes "get_token buf str = (tok, str', buf')"
  shows "c_string buf' tok = takeWhile (\<lambda>c. c \<noteq> CHR 0x20) (c_string buf str)"
    and "c_string buf' str' = drop 1 (dropWhile (\<lambda>c. c \<noteq> CHR 0x20) (c_string buf str))"
    and "length buf' = length buf"
proof -
  let ?cs = "c_string buf str" let ?n = "length (takeWhile (\<lambda>c. c \<noteq> CHR 0x20) ?cs)"
  have *: "c_string buf' tok = takeWhile (\<lambda>c. c \<noteq> CHR 0x20) ?cs
      \<and> c_string buf' str' = drop 1 (dropWhile (\<lambda>c. c \<noteq> CHR 0x20) ?cs) \<and> length buf' = length buf"
  proof (cases "CHR 0x20 \<in> set ?cs")
    case True
    then have n: "?n < length ?cs" by (rule length_takeWhile_first)
    have r: "tok = str" "str' = str + ?n + 1" "buf' = buf[str + ?n := NUL]"
      using assms True by (auto simp: get_token_def c_strchr_def Let_def)
    have "c_string buf' tok = take ?n ?cs"
      using n unfolding r by (subst c_string_update) simp_all
    moreover have "c_string buf' str' = drop (Suc ?n) ?cs"
      using n c_string_drop [of "Suc ?n" buf str] unfolding r by (simp add: c_string_update_before)
    ultimately show ?thesis
      by (simp add: r takeWhile_eq_take [symmetric] dropWhile_eq_drop)
  next
    case False
    then have tw: "takeWhile (\<lambda>c. c \<noteq> CHR 0x20) ?cs = ?cs" "dropWhile (\<lambda>c. c \<noteq> CHR 0x20) ?cs = []"
      by (auto simp: takeWhile_eq_all_conv dropWhile_eq_Nil_conv)
    have r: "tok = str" "str' = str + length ?cs" "buf' = buf"
      using assms False by (auto simp: get_token_def c_strchr_def Let_def c_strlen_def)
    show ?thesis unfolding tw unfolding r using c_string_drop [of "length ?cs" buf str] by simp
  qed
  then show "c_string buf' tok = takeWhile (\<lambda>c. c \<noteq> CHR 0x20) ?cs"
    "c_string buf' str' = drop 1 (dropWhile (\<lambda>c. c \<noteq> CHR 0x20) ?cs)" "length buf' = length buf"
    by blast+
qed

end
