(* ===== verification/Fw_I2c.thy ===== *)
theory Fw_I2c
  imports Csr_Map "HOL-Library.State_Monad"
begin

text \<open>
  The two bit-banged I2C masters of the firmware (\<open>firmware/i2c0.c\<close>, \<open>firmware/i2c1.c\<close>).
  The state is the history of what the CPU did to its control registers: writes, reads with the
  value read, and calibrated delays. What a register returns is a function of that history
  (the argument \<open>env\<close>), so the slave on the bus is arbitrary and may depend on everything that
  was sent to it.
\<close>

section \<open>Control registers as a history\<close>

datatype fw_event = Wr u32 u32 | Rd u32 u32 | Cdelay nat

type_synonym fw_log = "fw_event list"
type_synonym fw_env = "fw_log \<Rightarrow> u32 \<Rightarrow> u32"
type_synonym 'a fw = "(fw_log, 'a) state"

definition csr_write :: "u32 \<Rightarrow> u32 \<Rightarrow> unit fw" where
  "csr_write a v = State (\<lambda>h. ((), h @ [Wr a v]))"

definition csr_read :: "fw_env \<Rightarrow> u32 \<Rightarrow> u32 fw" where
  "csr_read env a = State (\<lambda>h. (env h a, h @ [Rd a (env h a)]))"

definition cdelay :: "nat \<Rightarrow> unit fw" where
  "cdelay n = State (\<lambda>h. ((), h @ [Cdelay n]))"

text \<open>A counting loop \<open>for (i = a; i < a + n; i++)\<close> that threads a local variable.\<close>

fun for_loop :: "nat \<Rightarrow> nat \<Rightarrow> (nat \<Rightarrow> 'x \<Rightarrow> 'x fw) \<Rightarrow> 'x \<Rightarrow> 'x fw" where
  "for_loop a 0 body x = State_Monad.return x"
| "for_loop a (Suc n) body x = do { x \<leftarrow> body a x; for_loop (Suc a) n body x }"

definition CONFIG_CLOCK_FREQUENCY :: nat where [csr_defs]: "CONFIG_CLOCK_FREQUENCY = 125000000"

definition CSR_I2C0_W_ADDR :: u32 where [csr_defs]: "CSR_I2C0_W_ADDR = CSR_BASE + 0xa000"
definition CSR_I2C0_R_ADDR :: u32 where [csr_defs]: "CSR_I2C0_R_ADDR = CSR_BASE + 0xa004"
definition CSR_I2C0_W_SCL_OFFSET :: nat where [csr_defs]: "CSR_I2C0_W_SCL_OFFSET = 0"
definition CSR_I2C0_W_OE_OFFSET :: nat where [csr_defs]: "CSR_I2C0_W_OE_OFFSET = 1"
definition CSR_I2C0_W_SDA_OFFSET :: nat where [csr_defs]: "CSR_I2C0_W_SDA_OFFSET = 2"
definition CSR_I2C1_W_ADDR :: u32 where [csr_defs]: "CSR_I2C1_W_ADDR = CSR_BASE + 0xa800"
definition CSR_I2C1_R_ADDR :: u32 where [csr_defs]: "CSR_I2C1_R_ADDR = CSR_BASE + 0xa804"
definition CSR_I2C1_W_SCL_OFFSET :: nat where [csr_defs]: "CSR_I2C1_W_SCL_OFFSET = 0"
definition CSR_I2C1_W_OE_OFFSET :: nat where [csr_defs]: "CSR_I2C1_W_OE_OFFSET = 1"
definition CSR_I2C1_W_SDA_OFFSET :: nat where [csr_defs]: "CSR_I2C1_W_SDA_OFFSET = 2"

section \<open>The master of bus 0 (i2c0.c)\<close>

definition I2C0_FREQ_HZ :: nat where [csr_defs]: "I2C0_FREQ_HZ = 50000"

definition I2C0_ADDR_WR :: "u8 \<Rightarrow> u8" where [csr_defs]: "I2C0_ADDR_WR addr = push_bit 1 addr"
definition I2C0_ADDR_RD :: "u8 \<Rightarrow> u8" where [csr_defs]: "I2C0_ADDR_RD addr = push_bit 1 addr OR 1"

definition I2C0_PERIOD_CYCLES :: nat where [csr_defs]:
  "I2C0_PERIOD_CYCLES = CONFIG_CLOCK_FREQUENCY div I2C0_FREQ_HZ"

definition I2C0_DELAY :: "nat \<Rightarrow> unit fw" where
  "I2C0_DELAY n = cdelay (n * I2C0_PERIOD_CYCLES div 4)"

definition i2c0_oe_scl_sda :: "bool \<Rightarrow> bool \<Rightarrow> bool \<Rightarrow> unit fw" where
  "i2c0_oe_scl_sda oe scl sda = csr_write CSR_I2C0_W_ADDR
     (push_bit CSR_I2C0_W_OE_OFFSET (of_bool oe) OR push_bit CSR_I2C0_W_SCL_OFFSET (of_bool scl)
      OR push_bit CSR_I2C0_W_SDA_OFFSET (of_bool sda))"

definition i2c0_start :: "unit fw" where
  "i2c0_start = do {
     i2c0_oe_scl_sda True True True;
     I2C0_DELAY 1;
     i2c0_oe_scl_sda True True False;
     I2C0_DELAY 1;
     i2c0_oe_scl_sda True False False;
     I2C0_DELAY 1 }"

definition i2c0_stop :: "unit fw" where
  "i2c0_stop = do {
     i2c0_oe_scl_sda True False False;
     I2C0_DELAY 1;
     i2c0_oe_scl_sda True True False;
     I2C0_DELAY 1;
     i2c0_oe_scl_sda True True True;
     I2C0_DELAY 1;
     i2c0_oe_scl_sda False True True }"

definition i2c0_transmit_bit :: "bool \<Rightarrow> unit fw" where
  "i2c0_transmit_bit value = do {
     i2c0_oe_scl_sda True False value;
     I2C0_DELAY 1;
     i2c0_oe_scl_sda True True value;
     I2C0_DELAY 2;
     i2c0_oe_scl_sda True False value;
     I2C0_DELAY 1;
     i2c0_oe_scl_sda False False False }"

definition i2c0_receive_bit :: "fw_env \<Rightarrow> u32 fw" where
  "i2c0_receive_bit env = do {
     i2c0_oe_scl_sda False False False;
     I2C0_DELAY 1;
     i2c0_oe_scl_sda False True False;
     I2C0_DELAY 1;
     r \<leftarrow> csr_read env CSR_I2C0_R_ADDR;
     I2C0_DELAY 1;
     i2c0_oe_scl_sda False False False;
     I2C0_DELAY 1;
     State_Monad.return (r AND 1) }"

definition i2c0_transmit_byte :: "fw_env \<Rightarrow> u8 \<Rightarrow> bool fw" where
  "i2c0_transmit_byte env data = do {
     i2c0_oe_scl_sda False False False;
     for_loop 0 8 (\<lambda>i data. do {
       i2c0_transmit_bit (data AND push_bit 7 1 \<noteq> 0);
       State_Monad.return (push_bit 1 data) }) data;
     ack \<leftarrow> i2c0_receive_bit env;
     State_Monad.return (ack = 0) }"

definition i2c0_receive_byte :: "fw_env \<Rightarrow> bool \<Rightarrow> u8 fw" where
  "i2c0_receive_byte env ack = do {
     data \<leftarrow> for_loop 0 8 (\<lambda>i data. do {
       b \<leftarrow> i2c0_receive_bit env;
       State_Monad.return (push_bit 1 data OR ucast b) }) 0;
     i2c0_transmit_bit (\<not> ack);
     State_Monad.return data }"

definition i2c0_reset :: "unit fw" where
  "i2c0_reset = do {
     i2c0_oe_scl_sda True True True;
     I2C0_DELAY 8;
     for_loop 0 9 (\<lambda>i u. do {
       i2c0_oe_scl_sda True False True;
       I2C0_DELAY 2;
       i2c0_oe_scl_sda True True True;
       I2C0_DELAY 2 }) ();
     i2c0_oe_scl_sda False False True;
     I2C0_DELAY 1;
     i2c0_stop;
     i2c0_oe_scl_sda False True True;
     I2C0_DELAY 8 }"

text \<open>
  \<open>i2c0_read\<close> gets the caller's buffer and returns it with the verdict: on an error the bytes
  of the caller are what they were.
\<close>

definition i2c0_read_data :: "fw_env \<Rightarrow> nat \<Rightarrow> u8 list \<Rightarrow> u8 list fw" where
  "i2c0_read_data env len data = for_loop 0 len (\<lambda>i data. do {
     d \<leftarrow> i2c0_receive_byte env (i \<noteq> len - 1);
     State_Monad.return (data[i := d]) }) data"

definition i2c0_read :: "fw_env \<Rightarrow> u8 \<Rightarrow> u8 \<Rightarrow> u8 list \<Rightarrow> nat \<Rightarrow> bool \<Rightarrow> (bool \<times> u8 list) fw" where
  "i2c0_read env slave_addr addr data len send_stop = do {
     i2c0_start;
     a \<leftarrow> i2c0_transmit_byte env (I2C0_ADDR_WR slave_addr);
     if \<not> a then do { i2c0_stop; State_Monad.return (False, data) }
     else do {
       a \<leftarrow> i2c0_transmit_byte env addr;
       if \<not> a then do { i2c0_stop; State_Monad.return (False, data) }
       else do {
         (if send_stop then i2c0_stop else State_Monad.return ());
         i2c0_start;
         a \<leftarrow> i2c0_transmit_byte env (I2C0_ADDR_RD slave_addr);
         if \<not> a then do { i2c0_stop; State_Monad.return (False, data) }
         else do {
           data \<leftarrow> i2c0_read_data env len data;
           i2c0_stop;
           State_Monad.return (True, data) } } } }"

primrec i2c0_write_data :: "fw_env \<Rightarrow> u8 list \<Rightarrow> bool fw" where
  "i2c0_write_data env [] = do { i2c0_stop; State_Monad.return True }"
| "i2c0_write_data env (d # data) = do {
     a \<leftarrow> i2c0_transmit_byte env d;
     if \<not> a then do { i2c0_stop; State_Monad.return False }
     else i2c0_write_data env data }"

definition i2c0_write :: "fw_env \<Rightarrow> u8 \<Rightarrow> u8 \<Rightarrow> u8 list \<Rightarrow> bool fw" where
  "i2c0_write env slave_addr addr data = do {
     i2c0_start;
     a \<leftarrow> i2c0_transmit_byte env (I2C0_ADDR_WR slave_addr);
     if \<not> a then do { i2c0_stop; State_Monad.return False }
     else do {
       a \<leftarrow> i2c0_transmit_byte env addr;
       if \<not> a then do { i2c0_stop; State_Monad.return False }
       else i2c0_write_data env data } }"

definition i2c0_poll :: "fw_env \<Rightarrow> u8 \<Rightarrow> bool fw" where
  "i2c0_poll env slave_addr = do {
     i2c0_start;
     r \<leftarrow> i2c0_transmit_byte env (I2C0_ADDR_WR slave_addr);
     r' \<leftarrow> i2c0_transmit_byte env (I2C0_ADDR_RD slave_addr);
     i2c0_stop;
     State_Monad.return (r \<or> r') }"

text \<open>The scan prints one mark per address; the model returns the verdicts in that order.\<close>

definition i2c0_scan :: "fw_env \<Rightarrow> bool list fw" where
  "i2c0_scan env = for_loop 0 0x80 (\<lambda>slave_addr found. do {
     r \<leftarrow> i2c0_poll env (of_nat slave_addr);
     State_Monad.return (found @ [r]) }) []"

section \<open>The master of bus 1 (i2c1.c)\<close>

definition I2C1_FREQ_HZ :: nat where [csr_defs]: "I2C1_FREQ_HZ = 50000"

definition I2C1_ADDR_WR :: "u8 \<Rightarrow> u8" where [csr_defs]: "I2C1_ADDR_WR addr = push_bit 1 addr"
definition I2C1_ADDR_RD :: "u8 \<Rightarrow> u8" where [csr_defs]: "I2C1_ADDR_RD addr = push_bit 1 addr OR 1"

definition I2C1_PERIOD_CYCLES :: nat where [csr_defs]:
  "I2C1_PERIOD_CYCLES = CONFIG_CLOCK_FREQUENCY div I2C1_FREQ_HZ"

definition I2C1_DELAY :: "nat \<Rightarrow> unit fw" where
  "I2C1_DELAY n = cdelay (n * I2C1_PERIOD_CYCLES div 4)"

definition i2c1_oe_scl_sda :: "bool \<Rightarrow> bool \<Rightarrow> bool \<Rightarrow> unit fw" where
  "i2c1_oe_scl_sda oe scl sda = csr_write CSR_I2C1_W_ADDR
     (push_bit CSR_I2C1_W_OE_OFFSET (of_bool oe) OR push_bit CSR_I2C1_W_SCL_OFFSET (of_bool scl)
      OR push_bit CSR_I2C1_W_SDA_OFFSET (of_bool sda))"

definition i2c1_start :: "unit fw" where
  "i2c1_start = do {
     i2c1_oe_scl_sda True True True;
     I2C1_DELAY 1;
     i2c1_oe_scl_sda True True False;
     I2C1_DELAY 1;
     i2c1_oe_scl_sda True False False;
     I2C1_DELAY 1 }"

definition i2c1_stop :: "unit fw" where
  "i2c1_stop = do {
     i2c1_oe_scl_sda True False False;
     I2C1_DELAY 1;
     i2c1_oe_scl_sda True True False;
     I2C1_DELAY 1;
     i2c1_oe_scl_sda True True True;
     I2C1_DELAY 1;
     i2c1_oe_scl_sda False True True }"

definition i2c1_transmit_bit :: "bool \<Rightarrow> unit fw" where
  "i2c1_transmit_bit value = do {
     i2c1_oe_scl_sda True False value;
     I2C1_DELAY 1;
     i2c1_oe_scl_sda True True value;
     I2C1_DELAY 2;
     i2c1_oe_scl_sda True False value;
     I2C1_DELAY 1;
     i2c1_oe_scl_sda False False False }"

definition i2c1_receive_bit :: "fw_env \<Rightarrow> u32 fw" where
  "i2c1_receive_bit env = do {
     i2c1_oe_scl_sda False False False;
     I2C1_DELAY 1;
     i2c1_oe_scl_sda False True False;
     I2C1_DELAY 1;
     r \<leftarrow> csr_read env CSR_I2C1_R_ADDR;
     I2C1_DELAY 1;
     i2c1_oe_scl_sda False False False;
     I2C1_DELAY 1;
     State_Monad.return (r AND 1) }"

definition i2c1_transmit_byte :: "fw_env \<Rightarrow> u8 \<Rightarrow> bool fw" where
  "i2c1_transmit_byte env data = do {
     i2c1_oe_scl_sda False False False;
     for_loop 0 8 (\<lambda>i data. do {
       i2c1_transmit_bit (data AND push_bit 7 1 \<noteq> 0);
       State_Monad.return (push_bit 1 data) }) data;
     ack \<leftarrow> i2c1_receive_bit env;
     State_Monad.return (ack = 0) }"

definition i2c1_receive_byte :: "fw_env \<Rightarrow> bool \<Rightarrow> u8 fw" where
  "i2c1_receive_byte env ack = do {
     data \<leftarrow> for_loop 0 8 (\<lambda>i data. do {
       b \<leftarrow> i2c1_receive_bit env;
       State_Monad.return (push_bit 1 data OR ucast b) }) 0;
     i2c1_transmit_bit (\<not> ack);
     State_Monad.return data }"

definition i2c1_reset :: "unit fw" where
  "i2c1_reset = do {
     i2c1_oe_scl_sda True True True;
     I2C1_DELAY 8;
     for_loop 0 9 (\<lambda>i u. do {
       i2c1_oe_scl_sda True False True;
       I2C1_DELAY 2;
       i2c1_oe_scl_sda True True True;
       I2C1_DELAY 2 }) ();
     i2c1_oe_scl_sda False False True;
     I2C1_DELAY 1;
     i2c1_stop;
     i2c1_oe_scl_sda False True True;
     I2C1_DELAY 8 }"

text \<open>
  \<open>i2c1_read\<close> gets the caller's buffer and returns it with the verdict: on an error the bytes
  of the caller are what they were.
\<close>

definition i2c1_read_data :: "fw_env \<Rightarrow> nat \<Rightarrow> u8 list \<Rightarrow> u8 list fw" where
  "i2c1_read_data env len data = for_loop 0 len (\<lambda>i data. do {
     d \<leftarrow> i2c1_receive_byte env (i \<noteq> len - 1);
     State_Monad.return (data[i := d]) }) data"

definition i2c1_read :: "fw_env \<Rightarrow> u8 \<Rightarrow> u8 \<Rightarrow> u8 list \<Rightarrow> nat \<Rightarrow> bool \<Rightarrow> (bool \<times> u8 list) fw" where
  "i2c1_read env slave_addr addr data len send_stop = do {
     i2c1_start;
     a \<leftarrow> i2c1_transmit_byte env (I2C1_ADDR_WR slave_addr);
     if \<not> a then do { i2c1_stop; State_Monad.return (False, data) }
     else do {
       a \<leftarrow> i2c1_transmit_byte env addr;
       if \<not> a then do { i2c1_stop; State_Monad.return (False, data) }
       else do {
         (if send_stop then i2c1_stop else State_Monad.return ());
         i2c1_start;
         a \<leftarrow> i2c1_transmit_byte env (I2C1_ADDR_RD slave_addr);
         if \<not> a then do { i2c1_stop; State_Monad.return (False, data) }
         else do {
           data \<leftarrow> i2c1_read_data env len data;
           i2c1_stop;
           State_Monad.return (True, data) } } } }"

primrec i2c1_write_data :: "fw_env \<Rightarrow> u8 list \<Rightarrow> bool fw" where
  "i2c1_write_data env [] = do { i2c1_stop; State_Monad.return True }"
| "i2c1_write_data env (d # data) = do {
     a \<leftarrow> i2c1_transmit_byte env d;
     if \<not> a then do { i2c1_stop; State_Monad.return False }
     else i2c1_write_data env data }"

definition i2c1_write :: "fw_env \<Rightarrow> u8 \<Rightarrow> u8 \<Rightarrow> u8 list \<Rightarrow> bool fw" where
  "i2c1_write env slave_addr addr data = do {
     i2c1_start;
     a \<leftarrow> i2c1_transmit_byte env (I2C1_ADDR_WR slave_addr);
     if \<not> a then do { i2c1_stop; State_Monad.return False }
     else do {
       a \<leftarrow> i2c1_transmit_byte env addr;
       if \<not> a then do { i2c1_stop; State_Monad.return False }
       else i2c1_write_data env data } }"

definition i2c1_poll :: "fw_env \<Rightarrow> u8 \<Rightarrow> bool fw" where
  "i2c1_poll env slave_addr = do {
     i2c1_start;
     r \<leftarrow> i2c1_transmit_byte env (I2C1_ADDR_WR slave_addr);
     r' \<leftarrow> i2c1_transmit_byte env (I2C1_ADDR_RD slave_addr);
     i2c1_stop;
     State_Monad.return (r \<or> r') }"

text \<open>The scan prints one mark per address; the model returns the verdicts in that order.\<close>

definition i2c1_scan :: "fw_env \<Rightarrow> bool list fw" where
  "i2c1_scan env = for_loop 0 0x80 (\<lambda>slave_addr found. do {
     r \<leftarrow> i2c1_poll env (of_nat slave_addr);
     State_Monad.return (found @ [r]) }) []"

end
