(* ===== verification/Fw_Wire.thy ===== *)
theory Fw_Wire
  imports Fw_I2c
begin

text \<open>
  What the bit-banged masters of \<open>Fw_I2c\<close> show on their buses. \<open>i2c_decode\<close> is written from the
  I2C protocol, not from the drivers: it watches the output register of one bus and reports
  START, STOP, the bits the master clocks out and the bits it samples. The locale
  \<open>i2c_master\<close> states how the operations of a driver are composed, \<open>i2c_client\<close> adds the
  transactions; their lemmas give the frame of each transaction and are interpreted for
  \<open>i2c0.c\<close> and \<open>i2c1.c\<close>.
\<close>

section \<open>What the bus sees\<close>

datatype i2c_symbol = Start_sym | Stop_sym | Mbit bool | Sbit bool

record wires =
  w_oe :: bool
  w_scl :: bool
  w_sda :: bool
  w_pend :: "bool option"  \<comment> \<open>the bit the master drove when SCL rose\<close>

text \<open>
  One access to the output register \<open>W\<close> or the input register \<open>R\<close> of a bus. While SCL stays high
  and the master drives SDA, a falling SDA is START and a rising one STOP; a bit the master drives
  at the rising edge of SCL is complete at the falling edge; a read of the input register while
  SCL is high and SDA released samples a bit of the slave. The bits of the registers are those
  of \<open>csr.h\<close>.
\<close>

fun i2c_step :: "u32 \<Rightarrow> u32 \<Rightarrow> fw_event \<Rightarrow> wires \<Rightarrow> wires \<times> i2c_symbol list" where
  "i2c_step W R (Wr a v) l =
     (if a \<noteq> W then (l, []) else
      let scl = bit v 0; oe = bit v 1; sda = bit v 2;
          l' = l\<lparr>w_oe := oe, w_scl := scl, w_sda := sda\<rparr>
      in if w_scl l \<and> scl then
           (if w_oe l \<and> oe \<and> w_sda l \<noteq> sda
            then (l'\<lparr>w_pend := None\<rparr>, [if w_sda l then Start_sym else Stop_sym]) else (l', []))
         else if \<not> w_scl l \<and> scl then (l'\<lparr>w_pend := (if oe then Some sda else None)\<rparr>, [])
         else if w_scl l \<and> \<not> scl then
           (l'\<lparr>w_pend := None\<rparr>, case w_pend l of Some b \<Rightarrow> [Mbit b] | None \<Rightarrow> [])
         else (l', []))"
| "i2c_step W R (Rd a v) l =
     (if a = R \<and> w_scl l \<and> \<not> w_oe l then (l, [Sbit (bit v 0)]) else (l, []))"
| "i2c_step W R (Cdelay n) l = (l, [])"

fun i2c_decode :: "u32 \<Rightarrow> u32 \<Rightarrow> fw_log \<Rightarrow> wires \<Rightarrow> wires \<times> i2c_symbol list" where
  "i2c_decode W R [] l = (l, [])"
| "i2c_decode W R (e # es) l =
     (case i2c_step W R e l of (l, ss) \<Rightarrow> case i2c_decode W R es l of (l, ts) \<Rightarrow> (l, ss @ ts))"

lemma i2c_decode_append:
  "i2c_decode W R (es @ fs) l =
     (case i2c_decode W R es l of (l, ss) \<Rightarrow> case i2c_decode W R fs l of (l, ts) \<Rightarrow> (l, ss @ ts))"
  by (induction es arbitrary: l) (simp_all split: prod.splits)

definition idle :: wires where
  "idle = \<lparr>w_oe = False, w_scl = True, w_sda = True, w_pend = None\<rparr>"

definition low :: "wires \<Rightarrow> bool" where
  "low l \<longleftrightarrow> \<not> w_scl l \<and> w_pend l = None"

text \<open>A byte on the wire, most significant bit first.\<close>

definition msb_bits :: "u8 \<Rightarrow> bool list" where
  "msb_bits b = map (\<lambda>k. bit b (7 - k)) [0..<8]"

definition sent :: "u8 \<Rightarrow> bool \<Rightarrow> i2c_symbol list" where
  "sent b ack = map Mbit (msb_bits b) @ [Sbit (\<not> ack)]"

definition received :: "u8 \<Rightarrow> bool \<Rightarrow> i2c_symbol list" where
  "received d ack = map Sbit (msb_bits d) @ [Mbit (\<not> ack)]"

text \<open>The first \<open>k\<close> bytes are acknowledged, the next one, if any, is not.\<close>

definition sent_until :: "nat \<Rightarrow> u8 list \<Rightarrow> i2c_symbol list" where
  "sent_until k bs = concat (map (\<lambda>b. sent b True) (take k bs))
     @ (if k < length bs then sent (bs ! k) False else [])"

text \<open>The master acknowledges every byte but the last.\<close>

definition received_all :: "u8 list \<Rightarrow> i2c_symbol list" where
  "received_all ds = concat (map (\<lambda>i. received (ds ! i) (i \<noteq> length ds - 1)) [0..<length ds])"

lemma sent_until_Cons:
  "sent_until (Suc k) (b # bs) = sent b True @ sent_until k bs"
  "sent_until 0 (b # bs) = sent b False"
  "sent_until k [] = []"
  by (simp_all add: sent_until_def)

text \<open>Shifting bits in from the right is reading them most significant bit first.\<close>

definition shift_in :: "u8 \<Rightarrow> bool list \<Rightarrow> u8" where
  "shift_in = foldl (\<lambda>d b. push_bit 1 d OR of_bool b)"

lemma bit_shift_one:
  "bit (push_bit 1 d OR of_bool b :: u8) 0 = b"
  "bit (push_bit 1 d OR of_bool b :: u8) (Suc k) \<longleftrightarrow> Suc k < 8 \<and> bit d k"
  by (simp_all only: bit_or_iff bit_push_bit_iff bit_of_bool_iff possible_bit_word) simp_all

lemma bit_shift_in:
  "length bs \<le> 8 \<Longrightarrow> bit (shift_in 0 bs) k \<longleftrightarrow> k < length bs \<and> bs ! (length bs - 1 - k)"
proof (induction bs arbitrary: k rule: rev_induct)
  case Nil
  then show ?case by (simp add: shift_in_def)
next
  case (snoc b bs)
  have step: "shift_in 0 (bs @ [b]) = push_bit 1 (shift_in 0 bs) OR of_bool b"
    by (simp add: shift_in_def)
  show ?case
  proof (cases k)
    case 0
    then show ?thesis by (simp only: step bit_shift_one) simp
  next
    case (Suc j)
    show ?thesis unfolding step Suc bit_shift_one(2)
      using snoc.prems by (auto simp: snoc.IH nth_append)
  qed
qed

lemma msb_bits_shift_in: "length bs = 8 \<Longrightarrow> msb_bits (shift_in 0 bs) = bs"
  by (rule nth_equalityI) (auto simp: msb_bits_def bit_shift_in)

text \<open>
  A read of \<open>n\<close> bytes from register \<open>r\<close> of slave \<open>sa\<close>. It fails at the first byte that is not
  acknowledged, is closed by STOP and leaves the buffer; otherwise the bytes sampled replace the
  first \<open>n\<close> bytes of the buffer.
\<close>

definition read_frame ::
    "u8 \<Rightarrow> u8 \<Rightarrow> bool \<Rightarrow> u8 list \<Rightarrow> nat \<Rightarrow> bool \<Rightarrow> u8 list \<Rightarrow> i2c_symbol list \<Rightarrow> bool" where
  "read_frame sa r ss data n ok data' ts \<longleftrightarrow>
     (let w = push_bit 1 sa; again = (if ss then [Stop_sym] else []) @ [Start_sym] in
       if ok then \<exists>ds. length ds = n \<and> data' = ds @ drop n data
           \<and> ts = [Start_sym] @ sent w True @ sent r True @ again @ sent (w OR 1) True @ received_all ds @ [Stop_sym]
       else data' = data
         \<and> (ts = [Start_sym] @ sent w False @ [Stop_sym]
           \<or> ts = [Start_sym] @ sent w True @ sent r False @ [Stop_sym]
           \<or> ts = [Start_sym] @ sent w True @ sent r True @ again @ sent (w OR 1) False @ [Stop_sym]))"

section \<open>A bit-banged master\<close>

definition line_word :: "bool \<Rightarrow> bool \<Rightarrow> bool \<Rightarrow> u32" where
  "line_word oe scl sda = push_bit 1 (of_bool oe) OR push_bit 0 (of_bool scl) OR push_bit 2 (of_bool sda)"

lemma line_word_bits [simp]:
  "bit (line_word oe scl sda) 0 = scl" "bit (line_word oe scl sda) (Suc 0) = oe"
  "bit (line_word oe scl sda) 2 = sda"
  by (cases oe; cases scl; cases sda; simp add: line_word_def)+

lemma line_word_sda [simp]: "bit (line_word oe scl sda) (Suc (Suc 0)) = sda"
  using line_word_bits(3) [of oe scl sda] by (simp only: numeral_2_eq_2)

text \<open>\<open>m\<close>, run after the history \<open>h\<close> with the wires at \<open>l\<close>, returns \<open>x\<close> and shows \<open>ss\<close>.\<close>

definition emits :: "u32 \<Rightarrow> u32 \<Rightarrow> 'x fw \<Rightarrow> fw_log \<Rightarrow> wires \<Rightarrow> 'x \<Rightarrow> wires \<Rightarrow> i2c_symbol list \<Rightarrow> bool" where
  "emits W R m h l x l' ss \<longleftrightarrow>
     (\<exists>evs. run_state m h = (x, h @ evs) \<and> i2c_decode W R evs l = (l', ss))"

lemma emits_bind:
  assumes "emits W R m h l x l1 ss" "emits W R (f x) (snd (run_state m h)) l1 y l2 ts"
  shows "emits W R (do { x \<leftarrow> m; f x }) h l y l2 (ss @ ts)"
proof -
  obtain evs where 1: "run_state m h = (x, h @ evs)" "i2c_decode W R evs l = (l1, ss)"
    using assms(1) by (auto simp: emits_def)
  obtain fvs where 2: "run_state (f x) (h @ evs) = (y, (h @ evs) @ fvs)" "i2c_decode W R fvs l1 = (l2, ts)"
    using assms(2) 1 by (auto simp: emits_def)
  show ?thesis unfolding emits_def
    by (intro exI [of _ "evs @ fvs"]) (simp add: 1 2 i2c_decode_append)
qed

lemma emits_return: "emits W R (State_Monad.return x) h l x l []"
  by (simp add: emits_def)

text \<open>
  \<open>wp W R m h l Q\<close>: whatever it returns, ends at and shows when run there satisfies \<open>Q\<close>.
  The rules below run a composed operation from its front.
\<close>

definition wp :: "u32 \<Rightarrow> u32 \<Rightarrow> 'x fw \<Rightarrow> fw_log \<Rightarrow> wires \<Rightarrow> ('x \<Rightarrow> wires \<Rightarrow> i2c_symbol list \<Rightarrow> bool) \<Rightarrow> bool" where
  "wp W R m h l Q \<longleftrightarrow> (\<exists>x l' ss. emits W R m h l x l' ss \<and> Q x l' ss)"

lemma wp_emits: "emits W R m h l x l' ss \<Longrightarrow> Q x l' ss \<Longrightarrow> wp W R m h l Q"
  by (auto simp: wp_def)

lemma wp_return: "Q x l [] \<Longrightarrow> wp W R (State_Monad.return x) h l Q"
  by (rule wp_emits [OF emits_return])

lemma wp_bind:
  assumes "wp W R m h l (\<lambda>x l1 ss. \<forall>h1. wp W R (f x) h1 l1 (\<lambda>y l2 ts. Q y l2 (ss @ ts)))"
  shows "wp W R (do { x \<leftarrow> m; f x }) h l Q"
proof -
  obtain x l1 ss where 1: "emits W R m h l x l1 ss"
    and 2: "\<forall>h1. wp W R (f x) h1 l1 (\<lambda>y l2 ts. Q y l2 (ss @ ts))"
    using assms by (auto simp: wp_def)
  obtain y l2 ts where 3: "emits W R (f x) (snd (run_state m h)) l1 y l2 ts" "Q y l2 (ss @ ts)"
    using 2 unfolding wp_def by blast
  show ?thesis unfolding wp_def using emits_bind [where f = f, OF 1 3(1)] 3(2) by blast
qed

lemma wp_conseq:
  assumes "wp W R m h l P" "\<And>x l' ss. P x l' ss \<Longrightarrow> Q x l' ss"
  shows "wp W R m h l Q"
  using assms unfolding wp_def by blast

lemma wp_result:
  assumes "wp W R m h l Q"
  shows "\<exists>x evs l' ss. run_state m h = (x, h @ evs) \<and> i2c_decode W R evs l = (l', ss) \<and> Q x l' ss"
  using assms by (auto simp: wp_def emits_def)

text \<open>
  The interface both drivers provide: how each operation is made of writes of the output register,
  delays and reads of the input register.
\<close>

locale i2c_master =
  fixes W R :: u32
    and line :: "bool \<Rightarrow> bool \<Rightarrow> bool \<Rightarrow> unit fw"
    and delay :: "nat \<Rightarrow> unit fw"
    and pause :: "nat \<Rightarrow> nat"
    and start stop reset :: "unit fw"
    and tbit :: "bool \<Rightarrow> unit fw"
    and rbit :: "fw_env \<Rightarrow> u32 fw"
    and tbyte :: "fw_env \<Rightarrow> u8 \<Rightarrow> bool fw"
    and rbyte :: "fw_env \<Rightarrow> bool \<Rightarrow> u8 fw"
  assumes regs: "W \<noteq> R"
    and line: "line oe scl sda = csr_write W (line_word oe scl sda)"
    and delay: "delay n = cdelay (pause n)"
    and start: "start = do { line True True True; delay 1; line True True False; delay 1;
      line True False False; delay 1 }"
    and stop: "stop = do { line True False False; delay 1; line True True False; delay 1;
      line True True True; delay 1; line False True True }"
    and tbit: "tbit v = do { line True False v; delay 1; line True True v; delay 2;
      line True False v; delay 1; line False False False }"
    and rbit: "rbit env = do { line False False False; delay 1; line False True False; delay 1;
      r \<leftarrow> csr_read env R; delay 1; line False False False; delay 1; State_Monad.return (r AND 1) }"
    and tbyte: "tbyte env b = do { line False False False;
      for_loop 0 8 (\<lambda>i b. do { tbit (b AND push_bit 7 1 \<noteq> 0); State_Monad.return (push_bit 1 b) }) b;
      ack \<leftarrow> rbit env; State_Monad.return (ack = 0) }"
    and rbyte: "rbyte env ack = do {
      d \<leftarrow> for_loop 0 8 (\<lambda>i d. do { b \<leftarrow> rbit env; State_Monad.return (push_bit 1 d OR ucast b) }) 0;
      tbit (\<not> ack); State_Monad.return d }"
    and reset: "reset = do { line True True True; delay 8;
      for_loop 0 9 (\<lambda>i u. do { line True False True; delay 2; line True True True; delay 2 }) ();
      line False False True; delay 1; stop; line False True True; delay 8 }"
begin

lemma run_line: "run_state (line oe scl sda) h = ((), h @ [Wr W (line_word oe scl sda)])"
  by (simp add: line csr_write_def)

lemma run_delay: "run_state (delay n) h = ((), h @ [Cdelay (pause n)])"
  by (simp add: delay cdelay_def)

lemmas runs = run_line run_delay csr_read_def

lemma start_emits:
  assumes "low l \<or> l = idle"
  shows "\<exists>l'. emits W R start h l () l' [Start_sym] \<and> low l'"
  using assms by (auto simp: emits_def start runs low_def idle_def)

lemma stop_emits:
  assumes "low l"
  shows "emits W R stop h l () idle [Stop_sym]"
  using assms by (auto simp: emits_def stop runs low_def idle_def)

lemma tbit_emits:
  assumes "low l"
  shows "\<exists>l'. emits W R (tbit v) h l () l' [Mbit v] \<and> low l'"
  using assms by (auto simp: emits_def tbit runs low_def)

lemma rbit_emits:
  assumes "low l"
  shows "\<exists>l' b. emits W R (rbit env) h l (of_bool b) l' [Sbit b] \<and> low l'"
proof -
  have one: "r AND 1 = (of_bool (bit r 0) :: u32)" for r :: u32
    by (simp add: and_one_eq bit_0 mod_2_eq_odd)
  show ?thesis
    using assms regs by (auto simp: emits_def rbit runs low_def one)
qed

lemma release_emits:
  assumes "low l"
  shows "\<exists>l'. emits W R (line False False False) h l () l' [] \<and> low l'"
  using assms by (auto simp: emits_def runs low_def)

text \<open>Bytes.\<close>

lemma top_bit: "(b :: u8) AND push_bit 7 1 \<noteq> 0 \<longleftrightarrow> bit b 7"
proof
  assume "b AND push_bit 7 1 \<noteq> 0"
  then obtain k where "bit (b AND push_bit 7 1) k" by (metis bit_eqI bit_0_eq bot_apply bot_bool_def)
  then have "bit b k" "k = 7" by (auto simp only: bit_and_iff bit_push_bit_iff bit_1_iff)
  then show "bit b 7" by simp
next
  assume "bit b 7"
  then have "bit (b AND push_bit 7 1) 7" by (simp add: bit_and_iff bit_push_bit_iff bit_1_iff)
  then show "b AND push_bit 7 1 \<noteq> 0" by auto
qed

lemma next_bits:
  assumes "n < 8"
  shows "map (\<lambda>k. bit (b :: u8) (7 - k)) [0..<Suc n]
       = bit b 7 # map (\<lambda>k. bit (push_bit 1 b) (7 - k)) [0..<n]"
proof -
  have "bit (push_bit 1 b) (7 - k) = bit b (7 - Suc k)" if "k < n" for k
  proof -
    from that assms have "1 \<le> 7 - k" "7 - k < 8" "7 - k - 1 = 7 - Suc k" by auto
    then show ?thesis by (simp only: bit_push_bit_iff possible_bit_word) simp
  qed
  then show ?thesis by (simp add: map_upt_Suc del: upt_Suc)
qed

lemma wp_tbit: "low l \<Longrightarrow> (\<And>l'. low l' \<Longrightarrow> Q () l' [Mbit v]) \<Longrightarrow> wp W R (tbit v) h l Q"
  unfolding wp_def using tbit_emits [of l v h] by blast

lemma wp_rbit:
  "low l \<Longrightarrow> (\<And>l' b. low l' \<Longrightarrow> Q (of_bool b) l' [Sbit b]) \<Longrightarrow> wp W R (rbit env) h l Q"
  unfolding wp_def using rbit_emits [of l env h] by blast

lemma wp_release:
  "low l \<Longrightarrow> (\<And>l'. low l' \<Longrightarrow> Q () l' []) \<Longrightarrow> wp W R (line False False False) h l Q"
  unfolding wp_def using release_emits [of l h] by blast

lemma wp_start:
  "low l \<or> l = idle \<Longrightarrow> (\<And>l'. low l' \<Longrightarrow> Q () l' [Start_sym]) \<Longrightarrow> wp W R start h l Q"
  unfolding wp_def using start_emits [of l h] by blast

lemma wp_stop: "low l \<Longrightarrow> Q () idle [Stop_sym] \<Longrightarrow> wp W R stop h l Q"
  unfolding wp_def using stop_emits [of l h] by blast

lemma wp_tx_bits:
  fixes b :: u8
  assumes "low l" "n \<le> 8"
    and "\<And>l' b'. low l' \<Longrightarrow> Q b' l' (map Mbit (map (\<lambda>k. bit b (7 - k)) [0..<n]))"
  shows "wp W R (for_loop i n (\<lambda>i b. do { tbit (b AND push_bit 7 1 \<noteq> 0);
      State_Monad.return (push_bit 1 b) }) b) h l Q"
  using assms
proof (induction n arbitrary: i b h l Q)
  case 0
  then show ?case by (auto intro: wp_return)
next
  case (Suc n)
  have Q: "Q b' l' ([Mbit (bit b 7)] @ map Mbit (map (\<lambda>k. bit (push_bit 1 b) (7 - k)) [0..<n]))"
    if "low l'" for b' l'
    using Suc.prems(3) [OF that, of b'] next_bits [of n b] Suc.prems(2)
    by (simp only: Suc_le_eq list.map append.simps)
  show ?case unfolding for_loop.simps top_bit
  proof (intro wp_bind wp_tbit wp_return allI Suc.prems(1))
    fix l1 h1
    assume "low l1"
    then show "wp W R (for_loop (Suc i) n (\<lambda>i b. do { tbit (bit b 7); State_Monad.return (push_bit 1 b) })
        (push_bit 1 b)) h1 l1 (\<lambda>y l2 ts. Q y l2 (([Mbit (bit b 7)] @ []) @ ts))"
      unfolding append_Nil2 using Suc.prems(2) Q by (intro Suc.IH [unfolded top_bit]) simp_all
  qed
qed

lemma wp_tbyte:
  assumes "low l" "\<And>l' ack. low l' \<Longrightarrow> Q ack l' (sent b ack)"
  shows "wp W R (tbyte env b) h l Q"
  unfolding tbyte
proof (intro wp_bind wp_release wp_tx_bits wp_rbit wp_return allI assms(1) order_refl)
  fix l1 l2 l3 b' a
  assume "low l3"
  from assms(2) [OF this, of "\<not> a"]
  show "Q (of_bool a = (0 :: u32)) l3 ([] @ map Mbit (map (\<lambda>k. bit b (7 - k)) [0..<8]) @ [Sbit a] @ [])"
    by (simp only: sent_def msb_bits_def append_Nil append_Nil2 not_not) simp
qed

lemma wp_rx_bits:
  assumes "low l"
  shows "wp W R (for_loop i n (\<lambda>i d. do { b \<leftarrow> rbit env; State_Monad.return (push_bit 1 d OR ucast b) })
      (shift_in 0 bs)) h l
    (\<lambda>d l' ss. low l' \<and> (\<exists>cs. length cs = n \<and> ss = map Sbit cs \<and> d = shift_in 0 (bs @ cs)))"
  using assms
proof (induction n arbitrary: i bs h l)
  case 0
  then show ?case by (auto intro: wp_return)
next
  case (Suc n)
  have one: "push_bit 1 (shift_in 0 bs) OR ucast (of_bool b :: u32) = shift_in 0 (bs @ [b])" for b
    by (cases b) (simp_all add: shift_in_def)
  show ?case unfolding for_loop.simps
  proof (intro wp_bind wp_rbit wp_return allI Suc.prems)
    fix l' b h1
    assume "low l'"
    from Suc.IH [OF this, of "Suc i" "bs @ [b]" h1]
    show "wp W R (for_loop (Suc i) n (\<lambda>i d. do { b \<leftarrow> rbit env; State_Monad.return (push_bit 1 d OR ucast b) })
        (push_bit 1 (shift_in 0 bs) OR ucast (of_bool b :: u32))) h1 l'
      (\<lambda>d l2 ts. low l2 \<and> (\<exists>cs. length cs = Suc n \<and> ([Sbit b] @ []) @ ts = map Sbit cs \<and> d = shift_in 0 (bs @ cs)))"
      unfolding one
    proof (rule wp_conseq, elim conjE exE)
      fix d l2 ts cs
      assume "low l2" "length cs = n" "ts = map Sbit cs" "d = shift_in 0 ((bs @ [b]) @ cs)"
      then show "low l2 \<and> (\<exists>cs. length cs = Suc n \<and> ([Sbit b] @ []) @ ts = map Sbit cs
          \<and> d = shift_in 0 (bs @ cs))"
        by (intro conjI exI [of _ "b # cs"]) simp_all
    qed
  qed
qed

lemma wp_rbyte:
  assumes "low l" "\<And>l' d. low l' \<Longrightarrow> Q d l' (received d ack)"
  shows "wp W R (rbyte env ack) h l Q"
proof -
  have z: "shift_in 0 [] = (0 :: u8)" by (simp add: shift_in_def)
  show ?thesis unfolding rbyte
  proof (rule wp_bind, rule wp_conseq [OF wp_rx_bits [OF assms(1), of 0 8 env "[]" h, unfolded z]], rule allI)
    fix d l1 ss h1
    assume "low l1 \<and> (\<exists>cs. length cs = 8 \<and> ss = map Sbit cs \<and> d = shift_in 0 ([] @ cs))"
    then have l1: "low l1" and ss: "ss = map Sbit (msb_bits d)" by (auto simp: msb_bits_shift_in)
    show "wp W R (do { tbit (\<not> ack); State_Monad.return d }) h1 l1 (\<lambda>y l2 ts. Q y l2 (ss @ ts))"
      by (intro wp_bind wp_tbit wp_return allI l1)
        (use assms(2) in \<open>simp add: ss received_def\<close>)
  qed
qed

text \<open>The recovery sequence: nine clocks with SDA high, then STOP.\<close>

lemma wp_reset:
  assumes "Q () idle (replicate 9 (Mbit True) @ [Stop_sym])"
  shows "wp W R reset h idle Q"
proof -
  have "emits W R reset h idle () idle (replicate 9 (Mbit True) @ [Stop_sym])"
    by (auto simp: emits_def reset stop runs idle_def eval_nat_numeral)
  then show ?thesis using assms by (rule wp_emits)
qed

end

section \<open>Transactions\<close>

locale i2c_client = i2c_master +
  fixes rdata :: "fw_env \<Rightarrow> nat \<Rightarrow> u8 list \<Rightarrow> u8 list fw"
    and wdata :: "fw_env \<Rightarrow> u8 list \<Rightarrow> bool fw"
    and rd :: "fw_env \<Rightarrow> u8 \<Rightarrow> u8 \<Rightarrow> u8 list \<Rightarrow> nat \<Rightarrow> bool \<Rightarrow> (bool \<times> u8 list) fw"
    and wr :: "fw_env \<Rightarrow> u8 \<Rightarrow> u8 \<Rightarrow> u8 list \<Rightarrow> bool fw"
    and poll :: "fw_env \<Rightarrow> u8 \<Rightarrow> bool fw"
  assumes rdata: "rdata env n data = for_loop 0 n (\<lambda>i data. do { d \<leftarrow> rbyte env (i \<noteq> n - 1);
      State_Monad.return (data[i := d]) }) data"
    and wdata_nil: "wdata env [] = do { stop; State_Monad.return True }"
    and wdata_cons: "wdata env (b # bs) = do { a \<leftarrow> tbyte env b;
      if \<not> a then do { stop; State_Monad.return False } else wdata env bs }"
    and rd: "rd env sa r data n ss = do { start; a \<leftarrow> tbyte env (push_bit 1 sa);
      if \<not> a then do { stop; State_Monad.return (False, data) }
      else do { a \<leftarrow> tbyte env r;
        if \<not> a then do { stop; State_Monad.return (False, data) }
        else do { (if ss then stop else State_Monad.return ()); start;
          a \<leftarrow> tbyte env (push_bit 1 sa OR 1);
          if \<not> a then do { stop; State_Monad.return (False, data) }
          else do { data \<leftarrow> rdata env n data; stop; State_Monad.return (True, data) } } } }"
    and wr: "wr env sa r data = do { start; a \<leftarrow> tbyte env (push_bit 1 sa);
      if \<not> a then do { stop; State_Monad.return False }
      else do { a \<leftarrow> tbyte env r;
        if \<not> a then do { stop; State_Monad.return False } else wdata env data } }"
    and poll: "poll env sa = do { start; r \<leftarrow> tbyte env (push_bit 1 sa);
      r' \<leftarrow> tbyte env (push_bit 1 sa OR 1); stop; State_Monad.return (r \<or> r') }"
begin

definition wrote :: "u8 list \<Rightarrow> bool \<Rightarrow> wires \<Rightarrow> i2c_symbol list \<Rightarrow> bool" where
  "wrote bs ok l ss \<longleftrightarrow> l = idle
     \<and> (\<exists>k \<le> length bs. ok = (k = length bs) \<and> ss = sent_until k bs @ [Stop_sym])"

lemma wrote_cons: "wrote bs ok l ss \<Longrightarrow> wrote (b # bs) ok l (sent b True @ ss)"
proof -
  assume "wrote bs ok l ss"
  then obtain k where "l = idle" "k \<le> length bs" "ok = (k = length bs)" "ss = sent_until k bs @ [Stop_sym]"
    by (auto simp: wrote_def)
  then show ?thesis
    unfolding wrote_def by (intro conjI exI [of _ "Suc k"]) (simp_all add: sent_until_Cons)
qed

lemma wrote_nack: "wrote (b # bs) False idle (sent b False @ [Stop_sym])"
  unfolding wrote_def by (auto simp: sent_until_Cons intro!: exI [of _ 0])

lemma wp_send:
  assumes "low l" "\<And>l' h1. low l' \<Longrightarrow> wp W R m h1 l' (wrote bs)"
  shows "wp W R (do { a \<leftarrow> tbyte env b;
    if \<not> a then do { stop; State_Monad.return False } else m }) h l (wrote (b # bs))"
proof (intro wp_bind wp_tbyte assms(1) allI)
  fix l' ack h1
  assume l': "low l'"
  show "wp W R (if \<not> ack then do { stop; State_Monad.return False } else m) h1 l'
      (\<lambda>y l2 ts. wrote (b # bs) y l2 (sent b ack @ ts))"
  proof (cases ack)
    case True
    show ?thesis using wp_conseq [OF assms(2) [OF l'] wrote_cons] True by simp
  next
    case False
    then show ?thesis
      by (simp, intro wp_bind wp_stop wp_return l' allI) (use wrote_nack in auto)
  qed
qed

lemma wp_wdata: "low l \<Longrightarrow> wp W R (wdata env data) h l (wrote data)"
proof (induction data arbitrary: h l)
  case Nil
  then show ?case unfolding wdata_nil
    by (intro wp_bind wp_stop wp_return allI) (auto simp: wrote_def sent_until_Cons)
next
  case (Cons b bs)
  show ?case unfolding wdata_cons by (intro wp_send Cons)
qed

lemma wp_wr:
  "wp W R (wr env sa r data) h idle
     (\<lambda>ok l ss. \<exists>ts. ss = Start_sym # ts \<and> wrote (push_bit 1 sa # r # data) ok l ts)"
  unfolding wr
proof (intro wp_bind [of _ _ start] wp_start allI)
  fix l' h1
  assume "low l'"
  then have "wp W R (do { a \<leftarrow> tbyte env (push_bit 1 sa);
      if \<not> a then do { stop; State_Monad.return False }
      else do { a \<leftarrow> tbyte env r;
        if \<not> a then do { stop; State_Monad.return False } else wdata env data } }) h1 l'
      (wrote (push_bit 1 sa # r # data))"
    by (intro wp_send wp_wdata)
  then show "wp W R (do { a \<leftarrow> tbyte env (push_bit 1 sa);
      if \<not> a then do { stop; State_Monad.return False }
      else do { a \<leftarrow> tbyte env r;
        if \<not> a then do { stop; State_Monad.return False } else wdata env data } }) h1 l'
      (\<lambda>y l2 ts. \<exists>us. [Start_sym] @ ts = Start_sym # us \<and> wrote (push_bit 1 sa # r # data) y l2 us)"
    by (rule wp_conseq) simp
qed simp

lemma wp_poll:
  "wp W R (poll env sa) h idle (\<lambda>ok l ss. l = idle \<and> (\<exists>a b. ok = (a \<or> b)
     \<and> ss = [Start_sym] @ sent (push_bit 1 sa) a @ sent (push_bit 1 sa OR 1) b @ [Stop_sym]))"
  unfolding poll
  by (intro wp_bind wp_start wp_tbyte wp_stop wp_return allI) auto

lemma wp_rd_loop:
  assumes "low l" "i + m \<le> length data"
  shows "wp W R (for_loop i m (\<lambda>i data. do { d \<leftarrow> rbyte env (i \<noteq> n - 1);
      State_Monad.return (data[i := d]) }) data) h l
    (\<lambda>data' l' ss. low l' \<and> (\<exists>ds. length ds = m \<and> data' = take i data @ ds @ drop (i + m) data
      \<and> ss = concat (map (\<lambda>j. received (ds ! j) (i + j \<noteq> n - 1)) [0..<m])))"
  using assms
proof (induction m arbitrary: i data h l)
  case 0
  then show ?case by (auto intro: wp_return)
next
  case (Suc m)
  show ?case unfolding for_loop.simps
  proof (intro wp_bind wp_rbyte wp_return allI Suc.prems(1))
    fix l' d h1
    assume l': "low l'"
    have "Suc i + m \<le> length (data[i := d])" using Suc.prems(2) by simp
    from Suc.IH [OF l' this, of h1]
    show "wp W R (for_loop (Suc i) m (\<lambda>i data. do { d \<leftarrow> rbyte env (i \<noteq> n - 1);
        State_Monad.return (data[i := d]) }) (data[i := d])) h1 l'
      (\<lambda>data' l2 ts. low l2 \<and> (\<exists>ds. length ds = Suc m \<and> data' = take i data @ ds @ drop (i + Suc m) data
        \<and> (received d (i \<noteq> n - 1) @ []) @ ts
          = concat (map (\<lambda>j. received (ds ! j) (i + j \<noteq> n - 1)) [0..<Suc m])))"
    proof (rule wp_conseq, elim conjE exE)
      fix data' l2 ts ds
      assume *: "low l2" "length ds = m" "data' = take (Suc i) (data[i := d]) @ ds @ drop (Suc i + m) (data[i := d])"
        "ts = concat (map (\<lambda>j. received (ds ! j) (Suc i + j \<noteq> n - 1)) [0..<m])"
      have "take (Suc i) (data[i := d]) = take i data @ [d]"
        using Suc.prems(2) by (simp add: take_Suc_conv_app_nth)
      with * show "low l2 \<and> (\<exists>ds. length ds = Suc m \<and> data' = take i data @ ds @ drop (i + Suc m) data
        \<and> (received d (i \<noteq> n - 1) @ []) @ ts
          = concat (map (\<lambda>j. received (ds ! j) (i + j \<noteq> n - 1)) [0..<Suc m]))"
        by (intro conjI exI [of _ "d # ds"]) (simp_all add: map_upt_Suc del: upt_Suc)
    qed
  qed
qed

lemma wp_rdata:
  assumes "low l" "n \<le> length data"
    and "\<And>l' ds. low l' \<Longrightarrow> length ds = n \<Longrightarrow> Q (ds @ drop n data) l' (received_all ds)"
  shows "wp W R (rdata env n data) h l Q"
  unfolding rdata
  by (rule wp_conseq [OF wp_rd_loop [OF assms(1), of 0 n data]])
    (use assms(2,3) in \<open>auto simp: received_all_def\<close>)

lemma wp_cont:
  assumes "low l" "\<not> a \<Longrightarrow> Q (False, data) idle [Stop_sym]" "a \<Longrightarrow> wp W R m h l Q"
  shows "wp W R (if \<not> a then do { stop; State_Monad.return (False, data) } else m) h l Q"
proof (cases a)
  case False
  then show ?thesis using assms(1,2) by (simp, intro wp_bind wp_stop wp_return allI) simp_all
qed (simp add: assms(3))

lemma wp_gap:
  "low l \<Longrightarrow> (\<And>l'. low l' \<or> l' = idle \<Longrightarrow> Q () l' (if b then [Stop_sym] else [])) \<Longrightarrow>
   wp W R (if b then stop else State_Monad.return ()) h l Q"
  by (cases b) (auto intro: wp_stop wp_return)

lemma wp_rd:
  assumes "n \<le> length data"
  shows "wp W R (rd env sa r data n ss) h idle (\<lambda>(ok, data') l ts. l = idle \<and> read_frame sa r ss data n ok data' ts)"
  unfolding rd
  by (intro wp_bind wp_start wp_tbyte wp_cont wp_gap wp_rdata wp_stop wp_return allI assms)
    (auto simp: read_frame_def Let_def)

end

section \<open>Both buses\<close>

interpretation bus0: i2c_client CSR_I2C0_W_ADDR CSR_I2C0_R_ADDR i2c0_oe_scl_sda I2C0_DELAY
  "\<lambda>n. n * I2C0_PERIOD_CYCLES div 4" i2c0_start i2c0_stop i2c0_reset i2c0_transmit_bit i2c0_receive_bit
  i2c0_transmit_byte i2c0_receive_byte i2c0_read_data i2c0_write_data i2c0_read i2c0_write i2c0_poll
proof unfold_locales
  show "CSR_I2C0_W_ADDR \<noteq> CSR_I2C0_R_ADDR" by (simp add: csr_defs)
qed (rule i2c0_start_def i2c0_stop_def i2c0_reset_def i2c0_transmit_bit_def i2c0_receive_bit_def
    i2c0_transmit_byte_def i2c0_receive_byte_def i2c0_read_data_def I2C0_DELAY_def
  | simp only: i2c0_read_def i2c0_write_def i2c0_poll_def I2C0_ADDR_WR_def I2C0_ADDR_RD_def
  | simp add: i2c0_oe_scl_sda_def line_word_def CSR_I2C0_W_OE_OFFSET_def CSR_I2C0_W_SCL_OFFSET_def
      CSR_I2C0_W_SDA_OFFSET_def)+

interpretation bus1: i2c_client CSR_I2C1_W_ADDR CSR_I2C1_R_ADDR i2c1_oe_scl_sda I2C1_DELAY
  "\<lambda>n. n * I2C1_PERIOD_CYCLES div 4" i2c1_start i2c1_stop i2c1_reset i2c1_transmit_bit i2c1_receive_bit
  i2c1_transmit_byte i2c1_receive_byte i2c1_read_data i2c1_write_data i2c1_read i2c1_write i2c1_poll
proof unfold_locales
  show "CSR_I2C1_W_ADDR \<noteq> CSR_I2C1_R_ADDR" by (simp add: csr_defs)
qed (rule i2c1_start_def i2c1_stop_def i2c1_reset_def i2c1_transmit_bit_def i2c1_receive_bit_def
    i2c1_transmit_byte_def i2c1_receive_byte_def i2c1_read_data_def I2C1_DELAY_def
  | simp only: i2c1_read_def i2c1_write_def i2c1_poll_def I2C1_ADDR_WR_def I2C1_ADDR_RD_def
  | simp add: i2c1_oe_scl_sda_def line_word_def CSR_I2C1_W_OE_OFFSET_def CSR_I2C1_W_SCL_OFFSET_def
      CSR_I2C1_W_SDA_OFFSET_def)+

end
