(* ===== verification/Fw_Frames.thy ===== *)
theory Fw_Frames
  imports Fw_Wire
begin

text \<open>
  How an operation sits in the history of register accesses: it only appends, it stays on the
  registers of its bus, and what it read is what the environment answered at that point
  (\<open>tame\<close>). From this follow the independence of the two buses and, for an environment whose
  input lines are driven by a slave, the result of a read.
\<close>

section \<open>Where the accesses of an operation go\<close>

fun on_regs :: "u32 set \<Rightarrow> fw_event \<Rightarrow> bool" where
  "on_regs A (Wr a v) \<longleftrightarrow> a \<in> A"
| "on_regs A (Rd a v) \<longleftrightarrow> a \<in> A"
| "on_regs A (Cdelay n) \<longleftrightarrow> True"

fun honest :: "fw_env \<Rightarrow> fw_log \<Rightarrow> fw_log \<Rightarrow> bool" where
  "honest env h [] \<longleftrightarrow> True"
| "honest env h (e # es) \<longleftrightarrow> (case e of Rd a v \<Rightarrow> v = env h a | _ \<Rightarrow> True) \<and> honest env (h @ [e]) es"

definition tame :: "u32 set \<Rightarrow> fw_env \<Rightarrow> 'a fw \<Rightarrow> bool" where
  "tame A env m \<longleftrightarrow> (\<forall>h. \<exists>x evs. run_state m h = (x, h @ evs)
     \<and> (\<forall>e \<in> set evs. on_regs A e) \<and> honest env h evs)"

lemma honest_append: "honest env h (es @ fs) \<longleftrightarrow> honest env h es \<and> honest env (h @ es) fs"
  by (induction es arbitrary: h) simp_all

lemma on_regs_mono: "on_regs A e \<Longrightarrow> A \<subseteq> B \<Longrightarrow> on_regs B e"
  by (cases e) auto

named_theorems tames \<open>rules for the registers an operation uses\<close>

lemma tameD:
  assumes "tame A env m" "run_state m h = (x, h')"
  obtains evs where "h' = h @ evs" "\<forall>e \<in> set evs. on_regs A e" "honest env h evs"
  using assms unfolding tame_def by (metis prod.inject)

lemma tame_return [tames]: "tame A env (State_Monad.return x)"
  by (simp add: tame_def)

lemma tame_bind [tames]:
  assumes "tame A env m" "\<And>x. tame A env (f x)"
  shows "tame A env (do { x \<leftarrow> m; f x })"
  unfolding tame_def
proof
  fix h
  obtain x evs where 1: "run_state m h = (x, h @ evs)" "\<forall>e \<in> set evs. on_regs A e" "honest env h evs"
    using assms(1) unfolding tame_def by blast
  obtain y fvs where 2: "run_state (f x) (h @ evs) = (y, (h @ evs) @ fvs)" "\<forall>e \<in> set fvs. on_regs A e"
      "honest env (h @ evs) fvs"
    using assms(2) [of x] unfolding tame_def by blast
  show "\<exists>y gvs. run_state (do { x \<leftarrow> m; f x }) h = (y, h @ gvs) \<and> (\<forall>e \<in> set gvs. on_regs A e) \<and> honest env h gvs"
    by (intro exI [of _ y] exI [of _ "evs @ fvs"]) (use 1 2 in \<open>auto simp: honest_append\<close>)
qed

lemma tame_write [tames]: "a \<in> A \<Longrightarrow> tame A env (csr_write a v)"
  by (simp add: tame_def csr_write_def)

lemma tame_read [tames]: "a \<in> A \<Longrightarrow> tame A env (csr_read env a)"
  by (simp add: tame_def csr_read_def)

lemma tame_delay [tames]: "tame A env (cdelay n)"
  by (simp add: tame_def cdelay_def)

lemma tame_if [tames]: "tame A env m \<Longrightarrow> tame A env m' \<Longrightarrow> tame A env (if b then m else m')"
  by simp

lemma tame_case_prod [tames]: "(\<And>x y. tame A env (f x y)) \<Longrightarrow> tame A env (case p of (x, y) \<Rightarrow> f x y)"
  by (simp split: prod.split)

lemma tame_for [tames]:
  assumes "\<And>i x. tame A env (body i x)"
  shows "tame A env (for_loop a n body x)"
  by (induction n arbitrary: a x) (simp_all add: tame_return tame_bind assms)

lemma tame_mono: "tame A env m \<Longrightarrow> A \<subseteq> B \<Longrightarrow> tame B env m"
  unfolding tame_def using on_regs_mono by meson

context i2c_client
begin

lemma tame_line [tames]: "tame {W, R} env (line oe scl sda)"
  unfolding line by (intro tames) simp

lemma tame_pause [tames]: "tame {W, R} env (delay n)"
  unfolding delay by (rule tames)

lemma tame_ends [tames]: "tame {W, R} env start" "tame {W, R} env stop"
  unfolding start stop by (intro tames)+

lemma tame_bits [tames]: "tame {W, R} env (tbit v)" "tame {W, R} env (rbit env)"
  unfolding tbit rbit by (intro tames; simp)+

lemma tame_bytes [tames]: "tame {W, R} env (tbyte env b)" "tame {W, R} env (rbyte env ack)"
  unfolding tbyte rbyte by (intro tames)+

lemma tame_reset: "tame {W, R} env reset"
  unfolding reset by (intro tames)

lemma tame_wdata [tames]: "tame {W, R} env (wdata env bs)"
  by (induction bs) (unfold wdata_nil wdata_cons, (intro tames; assumption?)+)

lemma tame_wr: "tame {W, R} env (wr env sa r bs)"
  unfolding wr by (intro tames)

lemma tame_rd: "tame {W, R} env (rd env sa r data n ss)"
  unfolding rd rdata by (intro tames)

lemma tame_poll: "tame {W, R} env (poll env sa)"
  unfolding poll by (intro tames)

end

section \<open>The two buses do not disturb each other\<close>

lemma decode_elsewhere:
  assumes "\<forall>e \<in> set evs. on_regs A e" "W \<notin> A" "R \<notin> A"
  shows "i2c_decode W R evs l = (l, [])"
  using assms(1)
proof (induction evs)
  case (Cons e evs)
  from Cons.prems assms(2,3) have "i2c_step W R e l = (l, [])" by (cases e) auto
  with Cons show ?case by simp
qed simp

section \<open>Slaves\<close>

text \<open>\<open>resp\<close> is the level a slave puts on SDA, as a function of everything seen on the bus.\<close>

definition driven :: "u32 \<Rightarrow> u32 \<Rightarrow> fw_env \<Rightarrow> (i2c_symbol list \<Rightarrow> bool) \<Rightarrow> bool" where
  "driven W R env resp \<longleftrightarrow> (\<forall>h. bit (env h R) 0 = resp (snd (i2c_decode W R h idle)))"

text \<open>Every bit the master sampled is what the slave answered at that point.\<close>

fun explained :: "(i2c_symbol list \<Rightarrow> bool) \<Rightarrow> i2c_symbol list \<Rightarrow> i2c_symbol list \<Rightarrow> bool" where
  "explained resp s0 [] \<longleftrightarrow> True"
| "explained resp s0 (x # xs) \<longleftrightarrow>
     (case x of Sbit b \<Rightarrow> b = resp s0 | _ \<Rightarrow> True) \<and> explained resp (s0 @ [x]) xs"

lemma explained_append:
  "explained resp s0 (ss @ ts) \<longleftrightarrow> explained resp s0 ss \<and> explained resp (s0 @ ss) ts"
  by (induction ss arbitrary: s0) simp_all

lemma explained_Mbits [simp]: "explained resp s0 (map Mbit bs)"
  by (induction bs arbitrary: s0) simp_all

lemma explained_run:
  assumes "driven W R env resp" "honest env h evs"
    and "i2c_decode W R h idle = (l0, s0)" "i2c_decode W R evs l0 = (l, ss)"
  shows "explained resp s0 ss"
  using assms(2-)
proof (induction evs arbitrary: h l0 s0 ss)
  case (Cons e evs)
  obtain l1 s1 where 1: "i2c_step W R e l0 = (l1, s1)" by fastforce
  obtain l2 s2 where 2: "i2c_decode W R evs l1 = (l2, s2)" by fastforce
  have ss: "ss = s1 @ s2" using Cons.prems(3) 1 2 by simp
  have "i2c_decode W R (h @ [e]) idle = (l1, s0 @ s1)"
    using Cons.prems(2) 1 by (simp add: i2c_decode_append)
  then have "explained resp (s0 @ s1) s2"
    using Cons.IH [of "h @ [e]" l1 "s0 @ s1" s2] Cons.prems 1 2 by auto
  moreover have "explained resp s0 s1"
  proof (cases e)
    case (Rd a v)
    then show ?thesis
      using 1 Cons.prems(1,2) assms(1) by (auto simp: driven_def split: if_splits)
  qed (use 1 in \<open>auto simp: Let_def split: if_splits option.splits\<close>)
  ultimately show ?case unfolding ss explained_append by simp
qed simp

section \<open>What a read returns\<close>

text \<open>
  A slave that answers a read of \<open>ds\<close>: it pulls SDA low for the three acknowledgements and puts
  the bits of the bytes on the line, most significant first.
\<close>

definition addressed :: "u8 \<Rightarrow> u8 \<Rightarrow> bool \<Rightarrow> i2c_symbol list" where
  "addressed sa r ss = [Start_sym] @ sent (push_bit 1 sa) True @ sent r True
     @ (if ss then [Stop_sym] else []) @ [Start_sym]"

definition data_taken :: "u8 list \<Rightarrow> nat \<Rightarrow> i2c_symbol list" where
  "data_taken ds i = concat (map (\<lambda>j. received (ds ! j) (j \<noteq> length ds - 1)) [0..<i])"

definition serves ::
    "(i2c_symbol list \<Rightarrow> bool) \<Rightarrow> i2c_symbol list \<Rightarrow> u8 \<Rightarrow> u8 \<Rightarrow> bool \<Rightarrow> u8 list \<Rightarrow> bool" where
  "serves resp s0 sa r ss ds \<longleftrightarrow>
     \<not> resp (s0 @ [Start_sym] @ map Mbit (msb_bits (push_bit 1 sa)))
     \<and> \<not> resp (s0 @ [Start_sym] @ sent (push_bit 1 sa) True @ map Mbit (msb_bits r))
     \<and> \<not> resp (s0 @ addressed sa r ss @ map Mbit (msb_bits (push_bit 1 sa OR 1)))
     \<and> (\<forall>i < length ds. \<forall>k < 8.
          resp (s0 @ addressed sa r ss @ sent (push_bit 1 sa OR 1) True @ data_taken ds i
            @ map Sbit (take k (msb_bits (ds ! i)))) = msb_bits (ds ! i) ! k)"

lemma length_msb_bits [simp]: "length (msb_bits b) = 8"
  by (simp add: msb_bits_def)

lemma msb_bits_inj: "msb_bits a = msb_bits b \<Longrightarrow> a = b"
proof (rule bit_word_eqI)
  fix n
  assume eq: "msb_bits a = msb_bits b" and "n < LENGTH(8)"
  then have "7 - (7 - n) = n" "7 - n < 8" by auto
  then show "bit a n = bit b n"
    using arg_cong [OF eq, of "\<lambda>xs. xs ! (7 - n)"] by (simp add: msb_bits_def del: upt_Suc)
qed

lemma explained_Sbits:
  assumes "explained resp s (map Sbit bs)" "length bs = length cs"
    and "\<forall>k < length cs. resp (s @ map Sbit (take k cs)) = cs ! k"
  shows "bs = cs"
  using assms
proof (induction bs arbitrary: s cs)
  case (Cons b bs)
  then obtain c cs' where cs: "cs = c # cs'" by (cases cs) auto
  have "b = c" using Cons.prems cs by (auto dest: spec [of _ 0])
  have "bs = cs'"
  proof (rule Cons.IH)
    show "explained resp (s @ [Sbit c]) (map Sbit bs)" 
      using Cons.prems(1) unfolding \<open>b = c\<close> list.map explained.simps by (rule conjunct2)
    show "\<forall>k < length cs'. resp ((s @ [Sbit c]) @ map Sbit (take k cs')) = cs' ! k"
      using Cons.prems(3) cs by (auto dest: spec [of _ "Suc _"])
  qed (use Cons.prems(2) cs in simp)
  with \<open>b = c\<close> cs show ?case by simp
qed simp

lemma received_all_data: "received_all ds = data_taken ds (length ds)"
  by (simp add: received_all_def data_taken_def)

lemma data_taken_Suc: "data_taken ds (Suc i) = data_taken ds i @ received (ds ! i) (i \<noteq> length ds - 1)"
  by (simp add: data_taken_def)

lemma data_taken_cong:
  assumes "take i ds = take i es" "length ds = length es" "i \<le> length es"
  shows "data_taken ds i = data_taken es i"
proof -
  have "ds ! j = es ! j" if "j < i" for j
    using assms(1) that by (metis nth_take)
  then show ?thesis unfolding data_taken_def
    by (intro arg_cong [of _ _ concat] map_cong) (simp_all add: assms(2))
qed

lemma data_taken_split: "i < n \<Longrightarrow> \<exists>q. data_taken ds n = data_taken ds (Suc i) @ q"
proof (induction n)
  case (Suc n)
  then show ?case by (cases "i = n") (auto simp: data_taken_Suc)
qed simp

lemma explained_data:
  assumes "explained resp s (data_taken es (length ds))" "length es = length ds"
    and "\<forall>i < length ds. \<forall>k < 8.
      resp (s @ data_taken ds i @ map Sbit (take k (msb_bits (ds ! i)))) = msb_bits (ds ! i) ! k"
  shows "es = ds"
proof -
  have "i \<le> length ds \<Longrightarrow> take i es = take i ds" for i
  proof (induction i)
    case (Suc i)
    then have i: "i < length ds" "take i es = take i ds" by auto
    obtain q where "data_taken es (length ds) = data_taken es (Suc i) @ q" using data_taken_split [OF i(1)] by blast
    with assms(1) have "explained resp (s @ data_taken es i) (map Sbit (msb_bits (es ! i)))"
      by (simp add: data_taken_Suc explained_append received_def)
    moreover have "data_taken es i = data_taken ds i" using i assms(2) by (intro data_taken_cong) simp_all
    ultimately have "msb_bits (es ! i) = msb_bits (ds ! i)"
      using assms(3) i(1) by (intro explained_Sbits [of resp "s @ data_taken ds i"]) simp_all
    then have "es ! i = ds ! i" by (rule msb_bits_inj)
    with i assms(2) show ?case by (simp add: take_Suc_conv_app_nth)
  qed simp
  from this [of "length ds"] assms(2) show ?thesis by simp
qed

lemma read_frame_served:
  assumes "read_frame sa r ss data (length ds) ok data' ts" "explained resp s0 ts"
    and "serves resp s0 sa r ss ds"
  shows "ok \<and> data' = ds @ drop (length ds) data"
proof (cases ok)
  case False
  with assms show ?thesis
    by (auto simp: read_frame_def serves_def Let_def sent_def explained_append addressed_def
        split: if_splits)
next
  case True
  with assms(1) obtain es where es: "length es = length ds" "data' = es @ drop (length ds) data"
    "ts = addressed sa r ss @ sent (push_bit 1 sa OR 1) True @ received_all es @ [Stop_sym]"
    by (auto simp: read_frame_def Let_def addressed_def)
  have "explained resp (s0 @ addressed sa r ss @ sent (push_bit 1 sa OR 1) True) (data_taken es (length ds))"
    using assms(2) es by (simp add: explained_append received_all_data)
  then have "es = ds"
    by (rule explained_data) (use es assms(3) in \<open>simp_all add: serves_def\<close>)
  with es True show ?thesis by simp
qed

context i2c_client
begin

lemma read_served:
  assumes "driven W R env resp" "i2c_decode W R h idle = (idle, s0)" "serves resp s0 sa r ss ds"
    and "length ds \<le> length data"
  shows "fst (run_state (rd env sa r data (length ds) ss) h) = (True, ds @ drop (length ds) data)"
proof -
  obtain ok data' evs l ts where run: "run_state (rd env sa r data (length ds) ss) h = ((ok, data'), h @ evs)"
      and dec: "i2c_decode W R evs idle = (l, ts)"
      and frame: "read_frame sa r ss data (length ds) ok data' ts"
    using wp_result [OF wp_rd [OF assms(4), of env sa r ss h]] by (auto split: prod.splits)
  have "honest env h evs"
    using tameD [OF tame_rd run] by (metis same_append_eq)
  then have "explained resp s0 ts" by (rule explained_run [OF assms(1) _ assms(2) dec])
  from read_frame_served [OF frame this assms(3)] show ?thesis by (simp add: run)
qed

end

end
