(* ===== verification/Fw_Board.thy ===== *)
theory Fw_Board
  imports Fw_I2c "HOL-Library.Monad_Syntax"
begin

text \<open>
  The board support of the firmware (\<open>firmware/main.c\<close>): delays by the timer, the power
  controllers and the DAC behind the two I2C buses, the temperature sensor, the VCTCXO, the
  initialisation sequence and the XSYNC SPI transfer. A function that waits for the hardware is
  an option, \<open>None\<close> when it does not return. Text output is not part of the model; a function
  whose purpose is to print values returns them.
\<close>

section \<open>State\<close>

text \<open>
  The static variables of \<open>main.c\<close> and the history of register accesses. \<open>g\<close>, an argument of
  the functions that read into local arrays, is what uninitialised bytes of the stack hold; in
  \<open>xtrx_init\<close>, which calls several of them, it depends on the moment of the call.
\<close>

record board =
  history :: fw_log
  board_revision :: int
  dac_addr :: u8
  vctcxo_cycles :: "u32 list"

definition board_reset :: board where
  "board_reset = \<lparr>history = [], board_revision = 0, dac_addr = 0, vctcxo_cycles = replicate 16 0\<rparr>"

definition on_hw :: "'a fw \<Rightarrow> board \<Rightarrow> 'a \<times> board" where
  "on_hw m s = (case run_state m (history s) of (x, h) \<Rightarrow> (x, s\<lparr>history := h\<rparr>))"

definition hw_step :: "'a fw \<Rightarrow> board \<Rightarrow> board" where
  "hw_step m s = snd (on_hw m s)"

definition CSR_TIMER0_LOAD_ADDR :: u32 where [csr_defs]: "CSR_TIMER0_LOAD_ADDR = CSR_BASE + 0x7800"
definition CSR_TIMER0_RELOAD_ADDR :: u32 where [csr_defs]: "CSR_TIMER0_RELOAD_ADDR = CSR_BASE + 0x7804"
definition CSR_TIMER0_EN_ADDR :: u32 where [csr_defs]: "CSR_TIMER0_EN_ADDR = CSR_BASE + 0x7808"
definition CSR_TIMER0_UPDATE_VALUE_ADDR :: u32 where [csr_defs]: "CSR_TIMER0_UPDATE_VALUE_ADDR = CSR_BASE + 0x780c"
definition CSR_TIMER0_VALUE_ADDR :: u32 where [csr_defs]: "CSR_TIMER0_VALUE_ADDR = CSR_BASE + 0x7810"
definition CSR_VCTCXO_CYCLES_LATCH_ADDR :: u32 where [csr_defs]: "CSR_VCTCXO_CYCLES_LATCH_ADDR = CSR_BASE + 0xc004"
definition CSR_VCTCXO_CYCLES_ADDR :: u32 where [csr_defs]: "CSR_VCTCXO_CYCLES_ADDR = CSR_BASE + 0xc008"
definition CSR_XSYNC_SPI_CONTROL_ADDR :: u32 where [csr_defs]: "CSR_XSYNC_SPI_CONTROL_ADDR = CSR_BASE + 0xd800"
definition CSR_XSYNC_SPI_STATUS_ADDR :: u32 where [csr_defs]: "CSR_XSYNC_SPI_STATUS_ADDR = CSR_BASE + 0xd804"
definition CSR_XSYNC_SPI_MOSI_ADDR :: u32 where [csr_defs]: "CSR_XSYNC_SPI_MOSI_ADDR = CSR_BASE + 0xd808"

section \<open>Constants of main.c\<close>

definition XTRX_EXT_CLK :: u32 where [csr_defs]: "XTRX_EXT_CLK = push_bit 0 1"
definition XTRX_VCTCXO_CLK :: u32 where [csr_defs]: "XTRX_VCTCXO_CLK = push_bit 0 0"

definition TMP108_I2C_ADDR :: u8 where "TMP108_I2C_ADDR = 0x4a"
definition LP8758_I2C_ADDR :: u8 where "LP8758_I2C_ADDR = 0x60"
definition MCP4725_I2C_ADDR :: u8 where "MCP4725_I2C_ADDR = 0x62"
definition DAC60501_I2C_ADDR :: u8 where "DAC60501_I2C_ADDR = 0x4b"

lemmas i2c_addrs = TMP108_I2C_ADDR_def LP8758_I2C_ADDR_def MCP4725_I2C_ADDR_def DAC60501_I2C_ADDR_def

definition LMS7002M_RESET :: u32 where [csr_defs]: "LMS7002M_RESET = push_bit 0 1"
definition LMS7002M_POWER_DOWN :: u32 where [csr_defs]: "LMS7002M_POWER_DOWN = push_bit 1 1"
definition LMS7002M_TX_ENABLE :: u32 where [csr_defs]: "LMS7002M_TX_ENABLE = push_bit 2 1"
definition LMS7002M_RX_ENABLE :: u32 where [csr_defs]: "LMS7002M_RX_ENABLE = push_bit 3 1"

definition XSYNC_START :: u32 where [csr_defs]: "XSYNC_START = push_bit 0 1"
definition XSYNC_DONE :: u32 where [csr_defs]: "XSYNC_DONE = push_bit 0 1"
definition XSYNC_LENGTH :: u32 where [csr_defs]: "XSYNC_LENGTH = push_bit 8 1"

section \<open>Waiting\<close>

text \<open>The wait loop of \<open>busy_wait\<close>: the timer is latched again after each read that is not zero.\<close>

partial_function (option) timer_loop :: "fw_env \<Rightarrow> board \<Rightarrow> board option" where
  "timer_loop env s =
     (let (v, s) = on_hw (csr_read env CSR_TIMER0_VALUE_ADDR) s
      in if v \<noteq> 0 then timer_loop env (hw_step (csr_write CSR_TIMER0_UPDATE_VALUE_ADDR 1) s) else Some s)"

definition busy_wait :: "fw_env \<Rightarrow> u32 \<Rightarrow> board \<Rightarrow> board option" where
  "busy_wait env ms s = timer_loop env (hw_step (do {
     csr_write CSR_TIMER0_EN_ADDR 0;
     csr_write CSR_TIMER0_RELOAD_ADDR 0;
     csr_write CSR_TIMER0_LOAD_ADDR (of_nat (CONFIG_CLOCK_FREQUENCY div 1000) * ms);
     csr_write CSR_TIMER0_EN_ADDR 1;
     csr_write CSR_TIMER0_UPDATE_VALUE_ADDR 1 }) s)"

partial_function (option) xsync_wait :: "fw_env \<Rightarrow> board \<Rightarrow> board option" where
  "xsync_wait env s =
     (let (v, s) = on_hw (csr_read env CSR_XSYNC_SPI_STATUS_ADDR) s
      in if v \<noteq> XSYNC_DONE then xsync_wait env s else Some s)"

definition xsync_spi_xfer :: "fw_env \<Rightarrow> u32 \<Rightarrow> board \<Rightarrow> board option" where
  "xsync_spi_xfer env w s = xsync_wait env (hw_step (do {
     csr_write CSR_XSYNC_SPI_MOSI_ADDR w;
     csr_write CSR_XSYNC_SPI_CONTROL_ADDR (32 * XSYNC_LENGTH OR XSYNC_START) }) s)"

definition xsync_test :: "fw_env \<Rightarrow> board \<Rightarrow> board option" where
  "xsync_test env s = xsync_spi_xfer env 0x5aa55aa5 s"

definition reboot_cmd :: "unit fw" where
  "reboot_cmd = csr_write CSR_CTRL_RESET_ADDR 1"

section \<open>Devices on the I2C buses\<close>

definition board_get_revision :: "fw_env \<Rightarrow> board \<Rightarrow> int \<times> board" where
  "board_get_revision env s = (case on_hw (do {
       i2c1_start;
       has_mcp4725 \<leftarrow> i2c1_transmit_byte env (I2C1_ADDR_RD MCP4725_I2C_ADDR);
       i2c1_stop;
       State_Monad.return has_mcp4725 }) s of
     (has_mcp4725, s) \<Rightarrow>
       if has_mcp4725 then (4, s\<lparr>dac_addr := MCP4725_I2C_ADDR\<rparr>)
       else (5, s\<lparr>dac_addr := DAC60501_I2C_ADDR\<rparr>))"

text \<open>The dumps return the pairs they print; a byte that could not be read is the previous one.\<close>

definition pmic_dump :: "fw_env \<Rightarrow> (nat \<Rightarrow> u8) \<Rightarrow> ((nat \<times> u8) list \<times> (nat \<times> u8) list) fw" where
  "pmic_dump env g = do {
     (dat, lms) \<leftarrow> for_loop 0 32 (\<lambda>adr (dat, out). do {
       (ok, dat) \<leftarrow> i2c0_read env LP8758_I2C_ADDR (of_nat adr) dat 1 True;
       State_Monad.return (dat, out @ [(adr, dat ! 0)]) }) ([g 0], []);
     (dat, fpga) \<leftarrow> for_loop 0 32 (\<lambda>adr (dat, out). do {
       (ok, dat) \<leftarrow> i2c1_read env LP8758_I2C_ADDR (of_nat adr) dat 1 True;
       State_Monad.return (dat, out @ [(adr, dat ! 0)]) }) (dat, []);
     State_Monad.return (lms, fpga) }"

definition dac_dump :: "fw_env \<Rightarrow> (nat \<Rightarrow> u8) \<Rightarrow> board \<Rightarrow> (nat \<times> u8) list \<times> board" where
  "dac_dump env g s =
     (if dac_addr s = DAC60501_I2C_ADDR then
        on_hw (do {
          (dat, out) \<leftarrow> for_loop 0 9 (\<lambda>adr (dat, out). do {
            (ok, dat) \<leftarrow> i2c1_read env (dac_addr s) (of_nat adr) dat 2 True;
            State_Monad.return (dat, out @ [(adr, dat ! 0)]) }) ([g 0, g 1], []);
          State_Monad.return out }) s
      else ([], s))"

definition i2c_test :: "fw_env \<Rightarrow> (bool list \<times> bool list) fw" where
  "i2c_test env = do {
     a \<leftarrow> i2c0_scan env;
     b \<leftarrow> i2c1_scan env;
     State_Monad.return (a, b) }"

definition temp_test :: "fw_env \<Rightarrow> (nat \<Rightarrow> u8) \<Rightarrow> u32 fw" where
  "temp_test env g = do {
     (ok, dat) \<leftarrow> i2c1_read env TMP108_I2C_ADDR 0x00 [g 0, g 1] 2 True;
     let temp = push_bit 4 (ucast (dat ! 0)) OR drop_bit 4 (ucast (dat ! 1));
     State_Monad.return (62500 * temp div 1000000) }"

definition dac_init :: "fw_env \<Rightarrow> (nat \<Rightarrow> u8) \<Rightarrow> board \<Rightarrow> board" where
  "dac_init env g s =
     (if board_revision s = 4 then s
      else hw_step (do {
        (ok, dat) \<leftarrow> i2c1_read env DAC60501_I2C_ADDR 0x04 [g 0, g 1] 2 True;
        i2c1_write env DAC60501_I2C_ADDR 0x04 (dat[0 := 0x01, 1 := 0x01]) }) s)"

definition vctcxo_dac_set :: "fw_env \<Rightarrow> u32 \<Rightarrow> board \<Rightarrow> board" where
  "vctcxo_dac_set env value s =
     (let value = value AND 0xfff in
      if board_revision s = 4 then
        hw_step (i2c1_write env MCP4725_I2C_ADDR (ucast (push_bit 4 0b0000 OR drop_bit 8 value)) [ucast (value AND 0xff)]) s
      else
        let value = push_bit 4 value in
        hw_step (i2c1_write env DAC60501_I2C_ADDR 0x08
          [ucast (drop_bit 8 (value AND 0xff00)), ucast (value AND 0xff)]) s)"

text \<open>
  One pass of the loop of \<open>vctcxo_test\<close>. Its array has 16 elements; a store outside of it is
  undefined and has no result here.
\<close>

definition vctcxo_measure :: "fw_env \<Rightarrow> nat \<Rightarrow> board \<Rightarrow> board option" where
  "vctcxo_measure env i s =
     (let s = vctcxo_dac_set env (of_nat (i * 0x111)) s;
          (before, s) = on_hw (do { csr_write CSR_VCTCXO_CYCLES_LATCH_ADDR 1;
                                 csr_read env CSR_VCTCXO_CYCLES_ADDR }) s
      in case busy_wait env 1000 s of None \<Rightarrow> None | Some s \<Rightarrow>
        let (after, s) = on_hw (do { csr_write CSR_VCTCXO_CYCLES_LATCH_ADDR 1;
                                  csr_read env CSR_VCTCXO_CYCLES_ADDR }) s
        in if i < length (vctcxo_cycles s)
           then Some (s\<lparr>vctcxo_cycles := (vctcxo_cycles s)[i := after - before]\<rparr>) else None)"

fun vctcxo_loop :: "fw_env \<Rightarrow> nat \<Rightarrow> nat \<Rightarrow> board \<Rightarrow> board option" where
  "vctcxo_loop env i 0 s = Some s"
| "vctcxo_loop env i (Suc n) s =
     (case vctcxo_measure env i s of None \<Rightarrow> None | Some s \<Rightarrow> vctcxo_loop env (Suc i) n s)"

text \<open>The printed line of one pass: MHz, remainder, cycles and DAC value.\<close>

definition vctcxo_report :: "nat \<Rightarrow> u32 \<Rightarrow> int \<times> int \<times> int \<times> nat" where
  "vctcxo_report i diff =
     (let d = sint diff in (sgn d * (\<bar>d\<bar> div 1000000), sgn d * (\<bar>d\<bar> mod 1000000), d, i * 0x111))"

definition vctcxo_test :: "fw_env \<Rightarrow> nat \<Rightarrow> board \<Rightarrow> ((int \<times> int \<times> int \<times> nat) list \<times> board) option" where
  "vctcxo_test env n s =
     (case vctcxo_loop env 0 n (hw_step (csr_write CSR_VCTCXO_CONTROL_ADDR XTRX_VCTCXO_CLK) s) of
        None \<Rightarrow> None
      | Some s \<Rightarrow> Some (map (\<lambda>i. vctcxo_report i (vctcxo_cycles s ! i)) [0..<n], s))"

definition digi_1v8 :: "fw_env \<Rightarrow> bool fw" where
  "digi_1v8 env = i2c1_write env LP8758_I2C_ADDR 0x0c [0xb5]"

section \<open>Initialisation\<close>

text \<open>The first block of register writes: the rails of the RF chip before the second check.\<close>

definition pmic_lms_setup :: "fw_env \<Rightarrow> unit fw" where
  "pmic_lms_setup env = do {
     i2c0_write env LP8758_I2C_ADDR 0x04 [0x88];
     i2c0_write env LP8758_I2C_ADDR 0x0c [0xfb];
     i2c0_write env LP8758_I2C_ADDR 0x02 [0xc8];
     i2c0_write env LP8758_I2C_ADDR 0x06 [0xc8];
     i2c0_write env LP8758_I2C_ADDR 0x08 [0xc8];
     i2c0_write env LP8758_I2C_ADDR 0x0a [0xb5];
     i2c0_write env LP8758_I2C_ADDR 0x0e [0xa1];
     i2c0_write env LP8758_I2C_ADDR 0x10 [0x92];
     State_Monad.return () }"

definition pmic_enable :: "fw_env \<Rightarrow> unit fw" where
  "pmic_enable env = do {
     i2c0_write env LP8758_I2C_ADDR 0x02 [0x88];
     i2c0_write env LP8758_I2C_ADDR 0x06 [0x88];
     i2c0_write env LP8758_I2C_ADDR 0x08 [0x88];
     i2c1_write env LP8758_I2C_ADDR 0x0c [0xfb];
     State_Monad.return () }"

definition lms7002m_release :: "fw_env \<Rightarrow> board \<Rightarrow> board option" where
  "lms7002m_release env s = do {
     let s = hw_step (csr_write CSR_LMS7002M_CONTROL_ADDR (LMS7002M_RESET OR LMS7002M_POWER_DOWN)) s;
     s \<leftarrow> busy_wait env 1 s;
     let s = hw_step (csr_write CSR_LMS7002M_CONTROL_ADDR LMS7002M_RESET) s;
     s \<leftarrow> busy_wait env 1 s;
     Some (hw_step (csr_write CSR_LMS7002M_CONTROL_ADDR (LMS7002M_TX_ENABLE OR LMS7002M_RX_ENABLE)) s) }"

text \<open>
  \<open>dat\<close> is one local variable: at the second check it still holds the byte of the last write
  when the read fails.
\<close>

definition xtrx_init :: "fw_env \<Rightarrow> (fw_log \<Rightarrow> nat \<Rightarrow> u8) \<Rightarrow> board \<Rightarrow> (int \<times> board) option" where
  "xtrx_init env g s =
     (let ((ok, dat), s) = on_hw (i2c0_read env LP8758_I2C_ADDR 0x01 [g (history s) 0] 1 True) s in
      if dat ! 0 \<noteq> 0xe0 then Some (0, s)
      else do {
        let s = hw_step (pmic_lms_setup env) s;
        s \<leftarrow> busy_wait env 1 s;
        let ((ok, dat), s) = on_hw (i2c1_read env LP8758_I2C_ADDR 0x01 [0x92] 1 True) s;
        if dat ! 0 \<noteq> 0xe0 then Some (0, s)
        else do {
          let s = hw_step (pmic_enable env) s;
          let (rev, s) = board_get_revision env s;
          let s = s\<lparr>board_revision := rev\<rparr>;
          let s = dac_init env (g (history s)) s;
          let s = hw_step (csr_write CSR_VCTCXO_CONTROL_ADDR XTRX_VCTCXO_CLK) s;
          s \<leftarrow> lms7002m_release env s;
          let s = hw_step (i2c_test env) s;
          let s = hw_step (temp_test env (g (history s))) s;
          (lines, s) \<leftarrow> vctcxo_test env 2 s;
          Some (1, s) } })"

end
