(* ===== verification/Fw_Steps.thy ===== *)
theory Fw_Steps
  imports Fw_Frames Fw_Board
begin

text \<open>
  Effects of the board functions: which registers they touch and in which state they leave the
  two buses. \<open>calm A env m P\<close> says that \<open>m\<close> only appends accesses of the registers \<open>A\<close> to the
  history, reads what the environment answers, finds and leaves both buses idle and returns a
  value in \<open>P\<close>; \<open>quiet A s s'\<close> is the same for functions on the board state.
\<close>

section \<open>Calm operations\<close>

definition idle_after :: "fw_log \<Rightarrow> bool" where
  "idle_after evs \<longleftrightarrow> fst (i2c_decode CSR_I2C0_W_ADDR CSR_I2C0_R_ADDR evs idle) = idle
     \<and> fst (i2c_decode CSR_I2C1_W_ADDR CSR_I2C1_R_ADDR evs idle) = idle"

definition calm :: "u32 set \<Rightarrow> fw_env \<Rightarrow> 'a fw \<Rightarrow> ('a \<Rightarrow> bool) \<Rightarrow> bool" where
  "calm A env m P \<longleftrightarrow> (\<forall>h. \<exists>x evs. run_state m h = (x, h @ evs) \<and> P x
     \<and> (\<forall>e \<in> set evs. on_regs A e) \<and> honest env h evs \<and> idle_after evs)"

definition bus0_regs :: "u32 set" where "bus0_regs = {CSR_I2C0_W_ADDR, CSR_I2C0_R_ADDR}"
definition bus1_regs :: "u32 set" where "bus1_regs = {CSR_I2C1_W_ADDR, CSR_I2C1_R_ADDR}"

lemma bus_regs_differ:
  "CSR_I2C1_W_ADDR \<notin> bus0_regs" "CSR_I2C1_R_ADDR \<notin> bus0_regs"
  "CSR_I2C0_W_ADDR \<notin> bus1_regs" "CSR_I2C0_R_ADDR \<notin> bus1_regs"
  by (simp_all add: bus0_regs_def bus1_regs_def csr_defs)

lemma idle_after_Nil [simp]: "idle_after []"
  by (simp add: idle_after_def)

lemma idle_after_append: "idle_after es \<Longrightarrow> idle_after fs \<Longrightarrow> idle_after (es @ fs)"
  by (auto simp: idle_after_def i2c_decode_append split: prod.splits)

lemma idle_after_elsewhere:
  assumes "\<forall>e \<in> set evs. on_regs A e" "A \<inter> (bus0_regs \<union> bus1_regs) = {}"
  shows "idle_after evs"
proof -
  have "i2c_decode W R evs l = (l, [])" if "W \<in> bus0_regs \<union> bus1_regs" "R \<in> bus0_regs \<union> bus1_regs" for W R l
    using assms that by (intro decode_elsewhere [of _ A]) auto
  then show ?thesis by (simp add: idle_after_def bus0_regs_def bus1_regs_def)
qed

named_theorems calms \<open>rules for calm operations\<close>

lemma calm_return [calms]: "P x \<Longrightarrow> calm A env (State_Monad.return x) P"
  by (simp add: calm_def)

lemma calm_bind [calms]:
  assumes "calm A env m P" "\<And>x. P x \<Longrightarrow> calm A env (f x) Q"
  shows "calm A env (do { x \<leftarrow> m; f x }) Q"
  unfolding calm_def
proof
  fix h
  obtain x evs where 1: "run_state m h = (x, h @ evs)" "P x" "\<forall>e \<in> set evs. on_regs A e"
      "honest env h evs" "idle_after evs"
    using assms(1) unfolding calm_def by blast
  obtain y fvs where 2: "run_state (f x) (h @ evs) = (y, (h @ evs) @ fvs)" "Q y"
      "\<forall>e \<in> set fvs. on_regs A e" "honest env (h @ evs) fvs" "idle_after fvs"
    using assms(2) [OF 1(2)] unfolding calm_def by blast
  show "\<exists>y gvs. run_state (do { x \<leftarrow> m; f x }) h = (y, h @ gvs) \<and> Q y
      \<and> (\<forall>e \<in> set gvs. on_regs A e) \<and> honest env h gvs \<and> idle_after gvs"
    by (intro exI [of _ y] exI [of _ "evs @ fvs"])
      (use 1 2 in \<open>auto simp: honest_append idle_after_append\<close>)
qed

lemma calm_conseq:
  assumes "calm A env m P" "A \<subseteq> B" "\<And>x. P x \<Longrightarrow> Q x"
  shows "calm B env m Q"
  using assms on_regs_mono unfolding calm_def by meson

lemma calm_for [calms]:
  assumes "I x" "\<And>i x. I x \<Longrightarrow> calm A env (body i x) I"
  shows "calm A env (for_loop a n body x) I"
  using assms(1)
  by (induction n arbitrary: a x) (auto intro: calm_return calm_bind [OF assms(2)])

lemma calm_case_prod [calms]:
  "(\<And>x y. p = (x, y) \<Longrightarrow> calm A env (f x y) P) \<Longrightarrow> calm A env (case p of (x, y) \<Rightarrow> f x y) P"
  by (simp split: prod.split)

lemma calm_elsewhere:
  assumes "tame A env m" "A \<inter> (bus0_regs \<union> bus1_regs) = {}"
  shows "calm A env m (\<lambda>_. True)"
  using assms(1) idle_after_elsewhere [OF _ assms(2)] unfolding calm_def tame_def by blast

lemma calm_bus0:
  assumes "tame bus0_regs env m"
    and "\<And>h. wp CSR_I2C0_W_ADDR CSR_I2C0_R_ADDR m h idle (\<lambda>x l ts. l = idle \<and> P x)"
  shows "calm bus0_regs env m P"
  unfolding calm_def
proof
  fix h
  obtain x evs where 1: "run_state m h = (x, h @ evs)" "\<forall>e \<in> set evs. on_regs bus0_regs e" "honest env h evs"
    using assms(1) unfolding tame_def by blast
  then have "fst (i2c_decode CSR_I2C0_W_ADDR CSR_I2C0_R_ADDR evs idle) = idle \<and> P x"
    using wp_result [OF assms(2) [of h]] by auto
  moreover have "i2c_decode CSR_I2C1_W_ADDR CSR_I2C1_R_ADDR evs idle = (idle, [])"
    by (rule decode_elsewhere [OF 1(2) bus_regs_differ(1,2)])
  ultimately show "\<exists>x evs. run_state m h = (x, h @ evs) \<and> P x \<and> (\<forall>e \<in> set evs. on_regs bus0_regs e)
      \<and> honest env h evs \<and> idle_after evs"
    using 1 by (auto simp: idle_after_def)
qed

lemma calm_bus1:
  assumes "tame bus1_regs env m"
    and "\<And>h. wp CSR_I2C1_W_ADDR CSR_I2C1_R_ADDR m h idle (\<lambda>x l ts. l = idle \<and> P x)"
  shows "calm bus1_regs env m P"
  unfolding calm_def
proof
  fix h
  obtain x evs where 1: "run_state m h = (x, h @ evs)" "\<forall>e \<in> set evs. on_regs bus1_regs e" "honest env h evs"
    using assms(1) unfolding tame_def by blast
  then have "fst (i2c_decode CSR_I2C1_W_ADDR CSR_I2C1_R_ADDR evs idle) = idle \<and> P x"
    using wp_result [OF assms(2) [of h]] by auto
  moreover have "i2c_decode CSR_I2C0_W_ADDR CSR_I2C0_R_ADDR evs idle = (idle, [])"
    by (rule decode_elsewhere [OF 1(2) bus_regs_differ(3,4)])
  ultimately show "\<exists>x evs. run_state m h = (x, h @ evs) \<and> P x \<and> (\<forall>e \<in> set evs. on_regs bus1_regs e)
      \<and> honest env h evs \<and> idle_after evs"
    using 1 by (auto simp: idle_after_def)
qed

section \<open>The I2C operations\<close>

lemma read_frame_length:
  "read_frame sa r ss data n ok data' ts \<Longrightarrow> n \<le> length data \<Longrightarrow> length data' = length data"
  by (auto simp: read_frame_def Let_def split: if_splits)

lemma calm_write [calms]:
  "calm bus0_regs env (i2c0_write env sa r data) (\<lambda>_. True)"
  "calm bus1_regs env (i2c1_write env sa r data) (\<lambda>_. True)"
  by (rule calm_bus0, unfold bus0_regs_def, rule bus0.tame_wr,
      rule wp_conseq [OF bus0.wp_wr], auto simp: bus0.wrote_def)
    (rule calm_bus1, unfold bus1_regs_def, rule bus1.tame_wr,
      rule wp_conseq [OF bus1.wp_wr], auto simp: bus1.wrote_def)

lemma calm_read0 [calms]:
  assumes "n \<le> length data"
  shows "calm bus0_regs env (i2c0_read env sa r data n ss) (\<lambda>(ok, data'). length data' = length data)"
  by (rule calm_bus0, unfold bus0_regs_def, rule bus0.tame_rd, rule wp_conseq [OF bus0.wp_rd [OF assms]])
    (use assms read_frame_length in fastforce)

lemma calm_read1 [calms]:
  assumes "n \<le> length data"
  shows "calm bus1_regs env (i2c1_read env sa r data n ss) (\<lambda>(ok, data'). length data' = length data)"
  by (rule calm_bus1, unfold bus1_regs_def, rule bus1.tame_rd, rule wp_conseq [OF bus1.wp_rd [OF assms]])
    (use assms read_frame_length in fastforce)

lemma calm_poll [calms]:
  "calm bus0_regs env (i2c0_poll env sa) (\<lambda>_. True)"
  "calm bus1_regs env (i2c1_poll env sa) (\<lambda>_. True)"
  by (rule calm_bus0, unfold bus0_regs_def, rule bus0.tame_poll, rule wp_conseq [OF bus0.wp_poll], simp)
    (rule calm_bus1, unfold bus1_regs_def, rule bus1.tame_poll, rule wp_conseq [OF bus1.wp_poll], simp)

lemma calm_scan [calms]:
  "calm bus0_regs env (i2c0_scan env) (\<lambda>_. True)"
  "calm bus1_regs env (i2c1_scan env) (\<lambda>_. True)"
  unfolding i2c0_scan_def i2c1_scan_def
  by (rule calm_for, simp, rule calm_bind [OF calm_poll(1)], rule calm_return, simp)
    (rule calm_for, simp, rule calm_bind [OF calm_poll(2)], rule calm_return, simp)

text \<open>Operations on one bus, on both, or elsewhere combine on the union of their registers.\<close>

definition bus_regs :: "u32 set" where "bus_regs = bus0_regs \<union> bus1_regs"

lemma calm0: "calm bus0_regs env m P \<Longrightarrow> calm bus_regs env m P"
  by (erule calm_conseq) (auto simp: bus_regs_def)

lemma calm1: "calm bus1_regs env m P \<Longrightarrow> calm bus_regs env m P"
  by (erule calm_conseq) (auto simp: bus_regs_def)

lemmas calm_any = calm0 [OF calm_write(1)] calm1 [OF calm_write(2)]

lemma calm_i2c_test: "calm bus_regs env (i2c_test env) (\<lambda>_. True)"
  unfolding i2c_test_def
  by (rule calm_bind [OF calm0 [OF calm_scan(1)]], rule calm_bind [OF calm1 [OF calm_scan(2)]],
      rule calm_return, simp)

lemma calm_temp_test: "calm bus1_regs env (temp_test env g) (\<lambda>_. True)"
  unfolding temp_test_def
  by (rule calm_bind [OF calm_read1], simp, rule calm_case_prod, simp add: Let_def, rule calm_return, simp)

lemma calm_digi: "calm bus1_regs env (digi_1v8 env) (\<lambda>_. True)"
  unfolding digi_1v8_def by (rule calm_write)

lemma calm_pmic_dump: "calm bus_regs env (pmic_dump env g) (\<lambda>_. True)"
proof -
  have dump0: "calm bus_regs env (for_loop 0 32 (\<lambda>adr (dat, out). do {
       (ok, dat) \<leftarrow> i2c0_read env LP8758_I2C_ADDR (of_nat adr) dat 1 True;
       State_Monad.return (dat, out @ [(adr, dat ! 0)]) }) (dat, [])) (\<lambda>(dat, out). length dat = 1)"
    if "length dat = 1" for dat :: "u8 list"
    using that by (intro calm_for calm_case_prod)
      (auto intro!: calm_bind [OF calm0 [OF calm_read0]] calm_return)
  have dump1: "calm bus_regs env (for_loop 0 32 (\<lambda>adr (dat, out). do {
       (ok, dat) \<leftarrow> i2c1_read env LP8758_I2C_ADDR (of_nat adr) dat 1 True;
       State_Monad.return (dat, out @ [(adr, dat ! 0)]) }) (dat, [])) (\<lambda>(dat, out). length dat = 1)"
    if "length dat = 1" for dat :: "u8 list"
    using that by (intro calm_for calm_case_prod)
      (auto intro!: calm_bind [OF calm1 [OF calm_read1]] calm_return)
  show ?thesis unfolding pmic_dump_def
    by (rule calm_bind [OF dump0], simp, rule calm_case_prod, rule calm_bind [OF dump1], simp,
        rule calm_case_prod, rule calm_return, simp)
qed

lemma calm_setup:
  "calm bus0_regs env (pmic_lms_setup env) (\<lambda>_. True)"
  "calm bus_regs env (pmic_enable env) (\<lambda>_. True)"
  unfolding pmic_lms_setup_def pmic_enable_def
  by ((rule calm_bind [OF calm_write(1)])+, rule calm_return, simp)
    ((rule calm_bind [OF calm_any(1)] calm_bind [OF calm_any(2)])+, rule calm_return, simp)

lemma calm_revision:
  "calm bus1_regs env (do { i2c1_start; a \<leftarrow> i2c1_transmit_byte env b; i2c1_stop;
     State_Monad.return a }) (\<lambda>_. True)"
  by (rule calm_bus1, unfold bus1_regs_def, intro tames bus1.tame_ends bus1.tame_bytes,
      intro wp_bind bus1.wp_start bus1.wp_tbyte bus1.wp_stop wp_return allI) simp_all

section \<open>Steps of the board\<close>

text \<open>
  \<open>quiet A env s s'\<close>: the history grew by accesses of registers in \<open>A\<close> that were answered by the
  environment and that leave both buses idle.
\<close>

definition quiet :: "u32 set \<Rightarrow> fw_env \<Rightarrow> board \<Rightarrow> board \<Rightarrow> bool" where
  "quiet A env s s' \<longleftrightarrow> (\<exists>evs. history s' = history s @ evs \<and> (\<forall>e \<in> set evs. on_regs A e)
     \<and> honest env (history s) evs \<and> idle_after evs)"

lemma quiet_refl: "history s' = history s \<Longrightarrow> quiet A env s s'"
  by (auto simp: quiet_def)

lemma quiet_trans:
  assumes "quiet A env s s'" "quiet B env s' s''"
  shows "quiet (A \<union> B) env s s''"
proof -
  obtain es fs where "history s' = history s @ es" "\<forall>e \<in> set es. on_regs A e"
      "honest env (history s) es" "idle_after es"
    "history s'' = history s' @ fs" "\<forall>e \<in> set fs. on_regs B e"
      "honest env (history s') fs" "idle_after fs"
    using assms unfolding quiet_def by blast
  then show ?thesis unfolding quiet_def
    by (intro exI [of _ "es @ fs"])
      (auto simp: honest_append idle_after_append intro: on_regs_mono)
qed

lemma quiet_mono: "quiet A env s s' \<Longrightarrow> A \<subseteq> B \<Longrightarrow> quiet B env s s'"
  unfolding quiet_def using on_regs_mono by blast

lemma quiet_hw:
  assumes "calm A env m P"
  shows "quiet A env s (snd (on_hw m s))" "P (fst (on_hw m s))"
    "\<exists>evs. snd (on_hw m s) = s\<lparr>history := history s @ evs\<rparr>"
proof -
  obtain x evs where "run_state m (history s) = (x, history s @ evs)" "P x"
      "\<forall>e \<in> set evs. on_regs A e" "honest env (history s) evs" "idle_after evs"
    using assms unfolding calm_def by blast
  then show "quiet A env s (snd (on_hw m s))" "P (fst (on_hw m s))"
    "\<exists>evs. snd (on_hw m s) = s\<lparr>history := history s @ evs\<rparr>"
    by (auto simp: quiet_def on_hw_def)
qed

text \<open>The values written to one register.\<close>

definition writes_to :: "u32 \<Rightarrow> fw_log \<Rightarrow> u32 list" where
  "writes_to a evs = concat (map (\<lambda>e. case e of Wr b v \<Rightarrow> if b = a then [v] else [] | _ \<Rightarrow> []) evs)"

lemma writes_to_append [simp]: "writes_to a (es @ fs) = writes_to a es @ writes_to a fs"
  by (simp add: writes_to_def)

lemma writes_to_elsewhere: "\<forall>e \<in> set evs. on_regs A e \<Longrightarrow> a \<notin> A \<Longrightarrow> writes_to a evs = []"
  by (induction evs) (auto simp: writes_to_def split: fw_event.splits)

lemma quiet_writes: "quiet A env s s' \<Longrightarrow> a \<notin> A \<Longrightarrow> writes_to a (history s') = writes_to a (history s)"
  by (auto simp: quiet_def writes_to_elsewhere)

text \<open>Steps that change nothing but the history.\<close>

definition logs :: "u32 set \<Rightarrow> fw_env \<Rightarrow> board \<Rightarrow> board \<Rightarrow> bool" where
  "logs A env s s' \<longleftrightarrow> quiet A env s s' \<and> (\<exists>h. s' = s\<lparr>history := h\<rparr>)"

lemma logs_refl [simp]: "logs A env s s"
  unfolding logs_def by (intro conjI exI [of _ "history s"]) (simp_all add: quiet_refl)

lemma logs_trans: "logs A env s s' \<Longrightarrow> logs A env s' s'' \<Longrightarrow> logs A env s s''"
  unfolding logs_def using quiet_trans [of A env s s' A s''] by auto

lemma logs_mono: "logs A env s s' \<Longrightarrow> A \<subseteq> B \<Longrightarrow> logs B env s s'"
  unfolding logs_def using quiet_mono by blast

lemma logs_hw: "calm A env m P \<Longrightarrow> logs A env s (snd (on_hw m s))"
  unfolding logs_def using quiet_hw(1,3) [of A env m P s] by blast

lemma logs_step: "calm A env m P \<Longrightarrow> logs A env s (hw_step m s)"
  unfolding hw_step_def by (rule logs_hw)

lemma logs_fields:
  "logs A env s s' \<Longrightarrow> board_revision s' = board_revision s \<and> dac_addr s' = dac_addr s
     \<and> vctcxo_cycles s' = vctcxo_cycles s"
  by (auto simp: logs_def)

definition timer_regs :: "u32 set" where
  "timer_regs = {CSR_TIMER0_LOAD_ADDR, CSR_TIMER0_RELOAD_ADDR, CSR_TIMER0_EN_ADDR,
     CSR_TIMER0_UPDATE_VALUE_ADDR, CSR_TIMER0_VALUE_ADDR}"
definition vctcxo_regs :: "u32 set" where
  "vctcxo_regs = {CSR_VCTCXO_CONTROL_ADDR, CSR_VCTCXO_CYCLES_LATCH_ADDR, CSR_VCTCXO_CYCLES_ADDR}"
definition xsync_regs :: "u32 set" where
  "xsync_regs = {CSR_XSYNC_SPI_CONTROL_ADDR, CSR_XSYNC_SPI_STATUS_ADDR, CSR_XSYNC_SPI_MOSI_ADDR}"

lemmas reg_sets = timer_regs_def vctcxo_regs_def xsync_regs_def bus_regs_def bus0_regs_def bus1_regs_def

lemma regs_off_bus:
  "timer_regs \<inter> (bus0_regs \<union> bus1_regs) = {}" "vctcxo_regs \<inter> (bus0_regs \<union> bus1_regs) = {}"
  "xsync_regs \<inter> (bus0_regs \<union> bus1_regs) = {}" "{CSR_LMS7002M_CONTROL_ADDR} \<inter> (bus0_regs \<union> bus1_regs) = {}"
  "{CSR_CTRL_RESET_ADDR} \<inter> (bus0_regs \<union> bus1_regs) = {}"
  by (simp_all add: reg_sets csr_defs)

lemma calm_timer:
  "calm timer_regs env (csr_read env CSR_TIMER0_VALUE_ADDR) (\<lambda>_. True)"
  "calm timer_regs env (csr_write CSR_TIMER0_UPDATE_VALUE_ADDR v) (\<lambda>_. True)"
  "calm timer_regs env (do {
     csr_write CSR_TIMER0_EN_ADDR 0;
     csr_write CSR_TIMER0_RELOAD_ADDR 0;
     csr_write CSR_TIMER0_LOAD_ADDR n;
     csr_write CSR_TIMER0_EN_ADDR 1;
     csr_write CSR_TIMER0_UPDATE_VALUE_ADDR 1 }) (\<lambda>_. True)"
  by (rule calm_elsewhere [OF _ regs_off_bus(1)], intro tames; simp add: timer_regs_def)+

lemma timer_loop_logs:
  assumes "timer_loop env s = Some s'"
  shows "logs timer_regs env s s'"
proof (rule timer_loop.raw_induct [where P = "logs timer_regs", OF _ assms])
  fix loop env s s'
  let ?s1 = "snd (on_hw (csr_read env CSR_TIMER0_VALUE_ADDR) s)"
  assume IH: "\<And>env s s'. loop env s = Some s' \<Longrightarrow> logs timer_regs env s s'"
    and st: "(let (v, s) = on_hw (csr_read env CSR_TIMER0_VALUE_ADDR) s
      in if v \<noteq> 0 then loop env (hw_step (csr_write CSR_TIMER0_UPDATE_VALUE_ADDR 1) s) else Some s) = Some s'"
  have r: "logs timer_regs env s ?s1" by (rule logs_hw [OF calm_timer(1)])
  have w: "logs timer_regs env ?s1 (hw_step (csr_write CSR_TIMER0_UPDATE_VALUE_ADDR 1) ?s1)"
    by (rule logs_step [OF calm_timer(2)])
  show "logs timer_regs env s s'"
    using st r logs_trans [OF logs_trans [OF r w] IH]
    by (auto simp: split_beta Let_def split: if_splits)
qed

lemma busy_wait_logs: "busy_wait env ms s = Some s' \<Longrightarrow> logs timer_regs env s s'"
  unfolding busy_wait_def by (drule timer_loop_logs) (rule logs_trans [OF logs_step [OF calm_timer(3)]])

lemma xsync_wait_logs:
  assumes "xsync_wait env s = Some s'"
  shows "logs xsync_regs env s s'"
proof (rule xsync_wait.raw_induct [where P = "logs xsync_regs", OF _ assms])
  fix loop env s s'
  assume IH: "\<And>env s s'. loop env s = Some s' \<Longrightarrow> logs xsync_regs env s s'"
    and st: "(let (v, s) = on_hw (csr_read env CSR_XSYNC_SPI_STATUS_ADDR) s
      in if v \<noteq> XSYNC_DONE then loop env s else Some s) = Some s'"
  have r: "logs xsync_regs env s (snd (on_hw (csr_read env CSR_XSYNC_SPI_STATUS_ADDR) s))"
    by (rule logs_hw [OF calm_elsewhere [OF tame_read regs_off_bus(3)]]) (simp add: xsync_regs_def)
  show "logs xsync_regs env s s'"
    using st r logs_trans [OF r IH] by (auto simp: split_beta Let_def split: if_splits)
qed

lemma xsync_test_logs: "xsync_test env s = Some s' \<Longrightarrow> logs xsync_regs env s s'"
  unfolding xsync_test_def xsync_spi_xfer_def
  by (drule xsync_wait_logs, erule logs_trans [rotated], rule logs_step [OF calm_elsewhere [OF _ regs_off_bus(3)]],
      intro tames) (simp_all add: xsync_regs_def)

section \<open>The invariant of the board and the functions that keep it\<close>

definition board_ok :: "board \<Rightarrow> bool" where
  "board_ok s \<longleftrightarrow> length (vctcxo_cycles s) = 16
     \<and> (board_revision s, dac_addr s) \<in> {(0, 0), (4, MCP4725_I2C_ADDR), (5, DAC60501_I2C_ADDR)}"

text \<open>Every register the board functions use, except the one of the RF chip.\<close>

definition rest_regs :: "u32 set" where "rest_regs = timer_regs \<union> vctcxo_regs \<union> bus_regs"

lemma lms_apart: "CSR_LMS7002M_CONTROL_ADDR \<notin> rest_regs"
  by (simp add: rest_regs_def reg_sets csr_defs)

lemma rest_subs:
  "timer_regs \<subseteq> rest_regs" "vctcxo_regs \<subseteq> rest_regs" "bus_regs \<subseteq> rest_regs"
  "bus0_regs \<subseteq> rest_regs" "bus1_regs \<subseteq> rest_regs"
  by (auto simp: rest_regs_def bus_regs_def)

definition keeps :: "u32 set \<Rightarrow> fw_env \<Rightarrow> board \<Rightarrow> board \<Rightarrow> bool" where
  "keeps A env s s' \<longleftrightarrow> quiet A env s s' \<and> (board_ok s \<longrightarrow> board_ok s')"

lemma keeps_trans: "keeps A env s s' \<Longrightarrow> keeps A env s' s'' \<Longrightarrow> keeps A env s s''"
  unfolding keeps_def using quiet_trans [of A env s s' A s''] by auto

lemma keeps_logs: "logs A env s s' \<Longrightarrow> A \<subseteq> B \<Longrightarrow> keeps B env s s'"
  unfolding keeps_def board_ok_def using logs_fields logs_def quiet_mono by metis

lemma keeps_hw: "calm A env m P \<Longrightarrow> A \<subseteq> B \<Longrightarrow> on_hw m s = (x, s') \<Longrightarrow> keeps B env s s'"
  using keeps_logs [OF logs_hw [of A env m P s]] by simp

lemma keeps_step: "calm A env m P \<Longrightarrow> A \<subseteq> B \<Longrightarrow> keeps B env s (hw_step m s)"
  by (rule keeps_logs [OF logs_step])

lemma keeps_busy_wait: "busy_wait env ms s = Some s' \<Longrightarrow> keeps rest_regs env s s'"
  by (rule keeps_logs [OF busy_wait_logs rest_subs(1)])

lemma keeps_revision:
  assumes "board_get_revision env s = (n, s')"
  shows "keeps rest_regs env s (s'\<lparr>board_revision := n\<rparr>)"
    "n = 4 \<and> dac_addr s' = MCP4725_I2C_ADDR \<or> n = 5 \<and> dac_addr s' = DAC60501_I2C_ADDR"
proof -
  let ?m = "do { i2c1_start; a \<leftarrow> i2c1_transmit_byte env (I2C1_ADDR_RD MCP4725_I2C_ADDR); i2c1_stop;
     State_Monad.return a }"
  have "quiet rest_regs env s (snd (on_hw ?m s))" "\<exists>evs. snd (on_hw ?m s) = s\<lparr>history := history s @ evs\<rparr>"
    using quiet_hw [OF calm_revision] quiet_mono [OF _ rest_subs(5)] by blast+
  then show "keeps rest_regs env s (s'\<lparr>board_revision := n\<rparr>)"
    "n = 4 \<and> dac_addr s' = MCP4725_I2C_ADDR \<or> n = 5 \<and> dac_addr s' = DAC60501_I2C_ADDR"
    using assms
    by (auto simp: board_get_revision_def keeps_def board_ok_def quiet_def split: prod.splits if_splits)
qed

lemma keeps_dac_init: "keeps rest_regs env s (dac_init env g s)"
proof (cases "board_revision s = 4")
  case True
  then show ?thesis by (simp add: dac_init_def keeps_def quiet_refl)
next
  case False
  have "calm bus1_regs env (do { (ok, dat) \<leftarrow> i2c1_read env DAC60501_I2C_ADDR 0x04 [g 0, g 1] 2 True;
      i2c1_write env DAC60501_I2C_ADDR 0x04 (dat[0 := 0x01, 1 := 0x01]) }) (\<lambda>_. True)"
    by (rule calm_bind [OF calm_read1], simp, rule calm_case_prod, rule calm_write)
  from keeps_step [OF this rest_subs(5)] False show ?thesis by (simp add: dac_init_def)
qed

lemma keeps_dac_set: "keeps rest_regs env s (vctcxo_dac_set env v s)"
  unfolding vctcxo_dac_set_def Let_def
  using keeps_step [OF calm_write(2) rest_subs(5)] by simp

lemma keeps_dac_dump:
  assumes "dac_dump env g s = (out, s')"
  shows "keeps rest_regs env s s'"
proof (cases "dac_addr s = DAC60501_I2C_ADDR")
  case True
  have dump: "calm bus1_regs env (for_loop 0 9 (\<lambda>adr (dat, out). do {
            (ok, dat) \<leftarrow> i2c1_read env (dac_addr s) (of_nat adr) dat 2 True;
            State_Monad.return (dat, out @ [(adr, dat ! 0)]) }) ([g 0, g 1], [])) (\<lambda>(dat, out). length dat = 2)"
    by (intro calm_for calm_case_prod) (auto intro!: calm_bind [OF calm_read1] calm_return)
  have "calm bus1_regs env (do {
          (dat, out) \<leftarrow> for_loop 0 9 (\<lambda>adr (dat, out). do {
            (ok, dat) \<leftarrow> i2c1_read env (dac_addr s) (of_nat adr) dat 2 True;
            State_Monad.return (dat, out @ [(adr, dat ! 0)]) }) ([g 0, g 1], []);
          State_Monad.return out }) (\<lambda>_. True)"
    by (rule calm_bind [OF dump], rule calm_case_prod, rule calm_return, simp)
  from keeps_hw [OF this rest_subs(5)] True assms show ?thesis by (simp add: dac_dump_def)
next
  case False
  then show ?thesis using assms by (simp add: dac_dump_def keeps_def quiet_refl)
qed

lemma calm_latch:
  "calm vctcxo_regs env (do { csr_write CSR_VCTCXO_CYCLES_LATCH_ADDR 1; csr_read env CSR_VCTCXO_CYCLES_ADDR }) (\<lambda>_. True)"
  "calm vctcxo_regs env (csr_write CSR_VCTCXO_CONTROL_ADDR v) (\<lambda>_. True)"
  by (rule calm_elsewhere [OF _ regs_off_bus(2)], intro tames; simp add: vctcxo_regs_def)+

lemma keeps_measure:
  assumes "vctcxo_measure env i s = Some s'"
  shows "keeps rest_regs env s s'"
proof -
  let ?m = "do { csr_write CSR_VCTCXO_CYCLES_LATCH_ADDR 1; csr_read env CSR_VCTCXO_CYCLES_ADDR }"
  define s1 where "s1 = vctcxo_dac_set env (of_nat (i * 0x111)) s"
  obtain x s2 where 2: "on_hw ?m s1 = (x, s2)" by fastforce
  obtain s3 where 3: "busy_wait env 1000 s2 = Some s3"
    using assms 2 unfolding vctcxo_measure_def s1_def [symmetric]
    by (auto simp: Let_def split: option.splits)
  obtain y s4 where 4: "on_hw ?m s3 = (y, s4)" by fastforce
  have s': "s' = s4\<lparr>vctcxo_cycles := (vctcxo_cycles s4)[i := y - x]\<rparr>"
    using assms 2 3 4 unfolding vctcxo_measure_def s1_def [symmetric]
    by (auto simp: Let_def split: if_splits)
  have "keeps rest_regs env s s4"
    using keeps_dac_set keeps_hw [OF calm_latch(1) rest_subs(2) 2] keeps_busy_wait [OF 3]
      keeps_hw [OF calm_latch(1) rest_subs(2) 4] unfolding s1_def by (meson keeps_trans)
  moreover have "keeps rest_regs env s4 s'"
    by (auto simp: s' keeps_def board_ok_def intro!: quiet_refl)
  ultimately show ?thesis by (rule keeps_trans)
qed

lemma keeps_vctcxo_loop: "vctcxo_loop env i n s = Some s' \<Longrightarrow> keeps rest_regs env s s'"
proof (induction n arbitrary: i s)
  case (Suc n)
  then show ?case by (auto split: option.splits intro: keeps_trans [OF keeps_measure])
qed (simp add: keeps_def quiet_refl)

lemma keeps_vctcxo_test: "vctcxo_test env n s = Some (out, s') \<Longrightarrow> keeps rest_regs env s s'"
  unfolding vctcxo_test_def
  by (auto split: option.splits intro: keeps_trans [OF keeps_step [OF calm_latch(2) rest_subs(2)] keeps_vctcxo_loop])

section \<open>Single facts\<close>

lemma bus0_silent_on_bus1:
  assumes "tame {CSR_I2C0_W_ADDR, CSR_I2C0_R_ADDR} env m" "run_state m h = (x, h @ evs)"
  shows "i2c_decode CSR_I2C1_W_ADDR CSR_I2C1_R_ADDR evs l = (l, [])"
  using tameD [OF assms] decode_elsewhere bus_regs_differ(1,2) unfolding bus0_regs_def
  by (metis same_append_eq)

lemma bus1_silent_on_bus0:
  assumes "tame {CSR_I2C1_W_ADDR, CSR_I2C1_R_ADDR} env m" "run_state m h = (x, h @ evs)"
  shows "i2c_decode CSR_I2C0_W_ADDR CSR_I2C0_R_ADDR evs l = (l, [])"
  using tameD [OF assms] decode_elsewhere bus_regs_differ(3,4) unfolding bus1_regs_def
  by (metis same_append_eq)

lemma xsync_wait_none:
  assumes "\<forall>h. env h CSR_XSYNC_SPI_STATUS_ADDR \<noteq> 1"
  shows "xsync_wait env s = None"
proof (rule ccontr)
  assume "xsync_wait env s \<noteq> None"
  then obtain s' where some: "xsync_wait env s = Some s'" by blast
  have "\<not> (\<forall>h. env h CSR_XSYNC_SPI_STATUS_ADDR \<noteq> 1)"
  proof (rule xsync_wait.raw_induct [where P = "\<lambda>env s s'. \<not> (\<forall>h. env h CSR_XSYNC_SPI_STATUS_ADDR \<noteq> 1)", OF _ some])
    fix loop env s s'
    assume IH: "\<And>env s s'. loop env s = Some s' \<Longrightarrow> \<not> (\<forall>h. env h CSR_XSYNC_SPI_STATUS_ADDR \<noteq> 1)"
      and st: "(let (v, s) = on_hw (csr_read env CSR_XSYNC_SPI_STATUS_ADDR) s
        in if v \<noteq> XSYNC_DONE then loop env s else Some s) = Some s'"
    have "XSYNC_DONE = 1" by (simp add: XSYNC_DONE_def)
    then show "\<not> (\<forall>h. env h CSR_XSYNC_SPI_STATUS_ADDR \<noteq> 1)"
      using st IH by (auto simp: on_hw_def csr_read_def Let_def split: if_splits)
  qed
  with assms show False by simp
qed

text \<open>The bytes of the two DAC writes as numbers.\<close>

lemma low_mask_nat:
  fixes v :: u32
  shows "unat (v AND 0xfff) = unat v mod 4096" "unat (v AND 0xff) = unat v mod 256"
proof -
  have m: "(0xfff :: u32) = mask 12" "(0xff :: u32) = mask 8"
    by (simp_all add: mask_eq_exp_minus_1)
  show "unat (v AND 0xfff) = unat v mod 4096" "unat (v AND 0xff) = unat v mod 256"
    unfolding m take_bit_eq_mask [symmetric] unsigned_take_bit_eq by (simp_all add: take_bit_eq_mod)
qed

lemma byte_nat: "unat (ucast (v :: u32) :: u8) = unat v mod 256"
  by (simp add: unsigned_ucast_eq take_bit_eq_mod)

lemma shift_nat:
  fixes v :: u32
  shows "unat (drop_bit n v) = unat v div 2 ^ n"
    and "unat v < 2 ^ 28 \<Longrightarrow> unat (push_bit 4 v) = unat v * 16"
proof -
  show "unat (drop_bit n v) = unat v div 2 ^ n"
    unfolding unsigned_drop_bit_eq by (simp add: drop_bit_eq_div take_bit_eq_mod)
  assume "unat v < 2 ^ 28"
  then show "unat (push_bit 4 v) = unat v * 16"
    unfolding unsigned_push_bit_eq by (simp add: take_bit_eq_mod push_bit_eq_mult)
qed

lemma mcp4725_bytes:
  "unat (ucast (drop_bit 8 ((v :: u32) AND 0xfff)) :: u8) mod 16 * 256 + unat (ucast ((v AND 0xfff) AND 0xff) :: u8)
     = unat v mod 4096"
proof -
  define n where "n = unat v mod 4096"
  have "unat (ucast (drop_bit 8 (v AND 0xfff)) :: u8) = n div 2 ^ 8 mod 256"
    by (simp only: byte_nat shift_nat low_mask_nat n_def)
  moreover have "unat (ucast ((v AND 0xfff) AND 0xff) :: u8) = n mod 256 mod 256"
    by (simp only: byte_nat low_mask_nat n_def)
  moreover have "n < 4096" by (simp add: n_def)
  then have "n div 2 ^ 8 < 16" by simp
  ultimately show ?thesis unfolding n_def [symmetric] by simp
qed

lemma dac60501_bytes:
  "(unat (ucast (drop_bit 8 (push_bit 4 ((v :: u32) AND 0xfff) AND 0xff00)) :: u8) * 256
     + unat (ucast (push_bit 4 (v AND 0xfff) AND 0xff) :: u8)) div 16 = unat v mod 4096"
proof -
  define x where "x = push_bit 4 (v AND 0xfff)"
  have b: "unat v mod 4096 < 2 ^ 28" by (rule order.strict_trans [of _ 4096]) simp_all
  have x: "unat x = unat v mod 4096 * 16"
    unfolding x_def using shift_nat(2) [of "v AND 0xfff"] b by (simp add: low_mask_nat)
  have "drop_bit 8 (0xff00 :: u32) = 0xff" by (simp add: drop_bit_eq_div)
  then have "drop_bit 8 (x AND 0xff00) = drop_bit 8 x AND 0xff" by (simp only: drop_bit_and)
  then have "unat (ucast (drop_bit 8 (x AND 0xff00)) :: u8) = unat x div 2 ^ 8 mod 256 mod 256"
    by (simp only: byte_nat low_mask_nat shift_nat)
  moreover have "unat (ucast (x AND 0xff) :: u8) = unat x mod 256 mod 256"
    unfolding byte_nat low_mask_nat ..
  moreover have "unat x < 65536" using x by simp
  moreover have "(n * 16 div 256 * 256 + n * 16 mod 256) div 16 = n" for n :: nat
    by (simp only: div_mult_mod_eq)
  ultimately show ?thesis unfolding x_def [symmetric] using x by simp
qed

end
