(* ===== verification/Fw_Init.thy ===== *)
theory Fw_Init
  imports Fw_Steps
begin

text \<open>
  The initialisation sequence \<open>xtrx_init\<close>: when it returns, what it leaves behind, what it wrote
  to the control register of the RF chip, and the slaves under which it succeeds.
\<close>

section \<open>Waiting ends\<close>

text \<open>
  A one-shot timer reads 0 once it was latched often enough since it was loaded. \<open>latches\<close> counts
  the latches since the last load.
\<close>

definition latches :: "fw_log \<Rightarrow> nat" where
  "latches h = length (filter (\<lambda>e. e = Wr CSR_TIMER0_UPDATE_VALUE_ADDR 1)
     (takeWhile (\<lambda>e. \<forall>v. e \<noteq> Wr CSR_TIMER0_LOAD_ADDR v) (rev h)))"

definition timer_stops :: "nat \<Rightarrow> fw_env \<Rightarrow> bool" where
  "timer_stops N env \<longleftrightarrow> (\<forall>h. N \<le> latches h \<longrightarrow> env h CSR_TIMER0_VALUE_ADDR = 0)"

lemma latches_snoc [simp]:
  "latches (h @ [Rd a v]) = latches h"
  "latches (h @ [Wr CSR_TIMER0_UPDATE_VALUE_ADDR 1]) = Suc (latches h)"
  by (simp_all add: latches_def csr_defs)

lemma timer_loop_returns:
  assumes "timer_stops N env"
  shows "\<exists>s'. timer_loop env s = Some s'"
proof (induction "N - latches (history s)" arbitrary: s rule: less_induct)
  case less
  show ?case
  proof (cases "env (history s) CSR_TIMER0_VALUE_ADDR = 0")
    case True
    then show ?thesis by (subst timer_loop.simps) (simp add: on_hw_def csr_read_def)
  next
    case False
    let ?s = "s\<lparr>history := history s @ [Rd CSR_TIMER0_VALUE_ADDR (env (history s) CSR_TIMER0_VALUE_ADDR),
      Wr CSR_TIMER0_UPDATE_VALUE_ADDR 1]\<rparr>"
    have l: "latches (history ?s) = Suc (latches (history s))"
      using latches_snoc(2) [of "history s @ [Rd CSR_TIMER0_VALUE_ADDR (env (history s) CSR_TIMER0_VALUE_ADDR)]"]
      by simp
    have "latches (history s) < N" using False assms by (auto simp: timer_stops_def not_le [symmetric])
    then have "\<exists>s'. timer_loop env ?s = Some s'" using l by (intro less) linarith
    then show ?thesis using False
      by (subst timer_loop.simps) (simp add: on_hw_def hw_step_def csr_read_def csr_write_def)
  qed
qed

lemma busy_wait_returns: "timer_stops N env \<Longrightarrow> \<exists>s'. busy_wait env ms s = Some s'"
  unfolding busy_wait_def by (rule timer_loop_returns)

lemma dac_set_cycles [simp]: "vctcxo_cycles (vctcxo_dac_set env v s) = vctcxo_cycles s"
  by (auto simp: vctcxo_dac_set_def Let_def hw_step_def on_hw_def split: prod.splits)

lemma hw_cycles [simp]: "vctcxo_cycles (snd (on_hw m s)) = vctcxo_cycles s" "vctcxo_cycles (hw_step m s) = vctcxo_cycles s"
  by (auto simp: hw_step_def on_hw_def split: prod.splits)

lemma busy_wait_cycles: "busy_wait env ms s = Some s' \<Longrightarrow> vctcxo_cycles s' = vctcxo_cycles s"
  using busy_wait_logs logs_fields by blast

lemma vctcxo_measure_returns:
  assumes "timer_stops N env" "i < length (vctcxo_cycles s)"
  shows "\<exists>s'. vctcxo_measure env i s = Some s' \<and> length (vctcxo_cycles s') = length (vctcxo_cycles s)"
proof -
  let ?m = "do { csr_write CSR_VCTCXO_CYCLES_LATCH_ADDR 1; csr_read env CSR_VCTCXO_CYCLES_ADDR }"
  let ?s1 = "snd (on_hw ?m (vctcxo_dac_set env (of_nat (i * 0x111)) s))"
  obtain s3 where 3: "busy_wait env 1000 ?s1 = Some s3" using busy_wait_returns [OF assms(1)] by blast
  then have "vctcxo_cycles s3 = vctcxo_cycles s" using busy_wait_cycles by fastforce
  with assms(2) 3 show ?thesis
    unfolding vctcxo_measure_def Let_def by (simp add: split_beta del: of_nat_mult)
qed

lemma vctcxo_loop_returns:
  assumes "timer_stops N env"
  shows "i + n \<le> length (vctcxo_cycles s) \<Longrightarrow> \<exists>s'. vctcxo_loop env i n s = Some s'"
proof (induction n arbitrary: i s)
  case (Suc n)
  then obtain s1 where "vctcxo_measure env i s = Some s1" "length (vctcxo_cycles s1) = length (vctcxo_cycles s)"
    using vctcxo_measure_returns [OF assms, of i s] by auto
  with Suc show ?case by auto
qed simp

lemma vctcxo_test_returns:
  "timer_stops N env \<Longrightarrow> n \<le> length (vctcxo_cycles s) \<Longrightarrow> \<exists>r. vctcxo_test env n s = Some r"
  using vctcxo_loop_returns [of N env 0 n "hw_step (csr_write CSR_VCTCXO_CONTROL_ADDR XTRX_VCTCXO_CLK) s"]
  by (auto simp: vctcxo_test_def)

section \<open>The RF chip\<close>

definition lms_writes :: "board \<Rightarrow> u32 list" where
  "lms_writes s = writes_to CSR_LMS7002M_CONTROL_ADDR (history s)"

lemma lms_writes_keeps: "keeps rest_regs env s s' \<Longrightarrow> lms_writes s' = lms_writes s"
  unfolding keeps_def lms_writes_def using quiet_writes [OF _ lms_apart] by blast

lemma lms_writes_step:
  "lms_writes (hw_step (csr_write CSR_LMS7002M_CONTROL_ADDR v) s) = lms_writes s @ [v]"
  by (simp add: lms_writes_def writes_to_def hw_step_def on_hw_def csr_write_def)

definition all_regs :: "u32 set" where "all_regs = insert CSR_LMS7002M_CONTROL_ADDR rest_regs"

lemma keeps_lms: "keeps all_regs env s (hw_step (csr_write CSR_LMS7002M_CONTROL_ADDR v) s)"
  by (rule keeps_step [OF calm_elsewhere [OF _ regs_off_bus(4)]], rule tame_write) (auto simp: all_regs_def)

lemma keeps_all: "keeps rest_regs env s s' \<Longrightarrow> keeps all_regs env s s'"
  unfolding keeps_def all_regs_def using quiet_mono by blast

definition lms_release_values :: "u32 list" where
  "lms_release_values = [LMS7002M_RESET OR LMS7002M_POWER_DOWN, LMS7002M_RESET, LMS7002M_TX_ENABLE OR LMS7002M_RX_ENABLE]"

lemma lms_release:
  assumes "lms7002m_release env s = Some s'"
  shows "keeps all_regs env s s'" "lms_writes s' = lms_writes s @ lms_release_values"
proof -
  let ?w = "\<lambda>v. hw_step (csr_write CSR_LMS7002M_CONTROL_ADDR v)"
  obtain s1 s2 where 1: "busy_wait env 1 (?w (LMS7002M_RESET OR LMS7002M_POWER_DOWN) s) = Some s1"
    and 2: "busy_wait env 1 (?w LMS7002M_RESET s1) = Some s2"
    and 3: "s' = ?w (LMS7002M_TX_ENABLE OR LMS7002M_RX_ENABLE) s2"
    using assms by (auto simp: lms7002m_release_def bind_eq_Some_conv)
  show "keeps all_regs env s s'"
    unfolding 3 by (meson keeps_lms keeps_all [OF keeps_busy_wait [OF 1]] keeps_all [OF keeps_busy_wait [OF 2]] keeps_trans)
  show "lms_writes s' = lms_writes s @ lms_release_values"
    unfolding 3 by (simp add: lms_writes_step lms_writes_keeps [OF keeps_busy_wait [OF 1]]
        lms_writes_keeps [OF keeps_busy_wait [OF 2]] lms_release_values_def)
qed

lemma lms_release_returns:
  assumes "timer_stops N env"
  shows "\<exists>s'. lms7002m_release env s = Some s'"
proof -
  let ?w = "\<lambda>v. hw_step (csr_write CSR_LMS7002M_CONTROL_ADDR v)"
  obtain s1 where 1: "busy_wait env 1 (?w (LMS7002M_RESET OR LMS7002M_POWER_DOWN) s) = Some s1"
    using busy_wait_returns [OF assms] by blast
  obtain s2 where 2: "busy_wait env 1 (?w LMS7002M_RESET s1) = Some s2"
    using busy_wait_returns [OF assms] by blast
  show ?thesis by (simp add: lms7002m_release_def 1 2)
qed

section \<open>The whole sequence\<close>

text \<open>What follows the two identification checks.\<close>

definition init_tail :: "fw_env \<Rightarrow> (fw_log \<Rightarrow> nat \<Rightarrow> u8) \<Rightarrow> board \<Rightarrow> (int \<times> board) option" where
  "init_tail env g s =
     (let s = hw_step (pmic_enable env) s;
          (n, s) = board_get_revision env s;
          s = s\<lparr>board_revision := n\<rparr>;
          s = dac_init env (g (history s)) s;
          s = hw_step (csr_write CSR_VCTCXO_CONTROL_ADDR XTRX_VCTCXO_CLK) s
      in do {
          s \<leftarrow> lms7002m_release env s;
          let s = hw_step (i2c_test env) s;
          let s = hw_step (temp_test env (g (history s))) s;
          (lines, s) \<leftarrow> vctcxo_test env 2 s;
          Some (1, s) })"

lemma xtrx_init_split:
  "xtrx_init env g s =
     (let ((ok, dat), s) = on_hw (i2c0_read env LP8758_I2C_ADDR 0x01 [g (history s) 0] 1 True) s in
      if dat ! 0 \<noteq> 0xe0 then Some (0, s)
      else do {
        s \<leftarrow> busy_wait env 1 (hw_step (pmic_lms_setup env) s);
        let ((ok, dat), s) = on_hw (i2c1_read env LP8758_I2C_ADDR 0x01 [0x92] 1 True) s;
        if dat ! 0 \<noteq> 0xe0 then Some (0, s) else init_tail env g s })"
  unfolding xtrx_init_def init_tail_def Let_def by (simp add: split_beta)

lemma init_tail_steps:
  assumes "init_tail env g s = Some (r, s')"
  obtains s1 s2 where "keeps rest_regs env s s1" "lms7002m_release env s1 = Some s2"
    "keeps rest_regs env s2 s'" "r = 1"
proof -
  define a where "a = hw_step (pmic_enable env) s"
  obtain n b where b: "board_get_revision env a = (n, b)" by fastforce
  define c where "c = b\<lparr>board_revision := n\<rparr>"
  define d where "d = hw_step (csr_write CSR_VCTCXO_CONTROL_ADDR XTRX_VCTCXO_CLK) (dac_init env (g (history c)) c)"
  obtain s2 out where 2: "lms7002m_release env d = Some s2"
    and 3: "vctcxo_test env 2 (hw_step (temp_test env (g (history (hw_step (i2c_test env) s2))))
      (hw_step (i2c_test env) s2)) = Some (out, s')" and "r = 1"
    using assms unfolding init_tail_def a_def [symmetric] Let_def b prod.case c_def [symmetric] d_def [symmetric]
    by (auto simp: bind_eq_Some_conv)
  have "keeps rest_regs env s a" unfolding a_def by (rule keeps_step [OF calm_setup(2) rest_subs(3)])
  moreover have "keeps rest_regs env a c" unfolding c_def by (rule keeps_revision [OF b])
  moreover have "keeps rest_regs env c d" unfolding d_def
    by (rule keeps_trans [OF keeps_dac_init keeps_step [OF calm_latch(2) rest_subs(2)]])
  ultimately have "keeps rest_regs env s d" by (meson keeps_trans)
  moreover have "keeps rest_regs env s2 s'"
    by (rule keeps_trans [OF keeps_step [OF calm_i2c_test rest_subs(3)]
          keeps_trans [OF keeps_step [OF calm_temp_test rest_subs(5)] keeps_vctcxo_test [OF 3]]])
  ultimately show thesis using that 2 \<open>r = 1\<close> by blast
qed

text \<open>A run either stops at a check or releases the RF chip.\<close>

lemma xtrx_init_steps:
  assumes "xtrx_init env g s = Some (r, s')"
  shows "r = 0 \<and> keeps rest_regs env s s'
     \<or> r = 1 \<and> (\<exists>s1 s2. keeps rest_regs env s s1 \<and> lms7002m_release env s1 = Some s2 \<and> keeps rest_regs env s2 s')"
proof -
  obtain ok dat a where a: "on_hw (i2c0_read env LP8758_I2C_ADDR 0x01 [g (history s) 0] 1 True) s = ((ok, dat), a)"
    by (metis surj_pair)
  have ga: "keeps rest_regs env s a"
    by (rule keeps_hw [OF calm_read0 rest_subs(4) a]) simp
  show ?thesis
  proof (cases "dat ! 0 = 0xe0")
    case False
    with assms a ga show ?thesis by (simp add: xtrx_init_split)
  next
    case True
    then obtain b where b: "busy_wait env 1 (hw_step (pmic_lms_setup env) a) = Some b"
      using assms a by (auto simp: xtrx_init_split bind_eq_Some_conv)
    have gb: "keeps rest_regs env a b"
      by (rule keeps_trans [OF keeps_step [OF calm_setup(1) rest_subs(4)] keeps_busy_wait [OF b]])
    obtain ok' dat' c where c: "on_hw (i2c1_read env LP8758_I2C_ADDR 0x01 [0x92] 1 True) b = ((ok', dat'), c)"
      by (metis surj_pair)
    have gc: "keeps rest_regs env s c"
      using ga gb keeps_hw [OF calm_read1 rest_subs(5) c] by (simp, meson keeps_trans)
    show ?thesis
    proof (cases "dat' ! 0 = 0xe0")
      case False
      with assms a b c gc True show ?thesis by (simp add: xtrx_init_split)
    next
      case True': True
      have "init_tail env g c = Some (r, s')"
        using assms a b c True True' by (simp add: xtrx_init_split)
      then show ?thesis using gc by (elim init_tail_steps) (meson keeps_trans)
    qed
  qed
qed

lemma xtrx_init_keeps: "xtrx_init env g s = Some (r, s') \<Longrightarrow> keeps all_regs env s s'"
  using xtrx_init_steps keeps_all lms_release(1) keeps_trans by meson

lemma xtrx_init_lms:
  "xtrx_init env g s = Some (r, s') \<Longrightarrow>
     r = 0 \<and> lms_writes s' = lms_writes s \<or> r = 1 \<and> lms_writes s' = lms_writes s @ lms_release_values"
  using xtrx_init_steps lms_writes_keeps lms_release(2) by metis

text \<open>With a timer that stops it always returns.\<close>

lemma init_tail_returns:
  assumes "timer_stops N env" "board_ok s"
  shows "\<exists>s'. init_tail env g s = Some (1, s')"
proof -
  define a where "a = hw_step (pmic_enable env) s"
  obtain n b where b: "board_get_revision env a = (n, b)" by fastforce
  define c where "c = b\<lparr>board_revision := n\<rparr>"
  define d where "d = hw_step (csr_write CSR_VCTCXO_CONTROL_ADDR XTRX_VCTCXO_CLK) (dac_init env (g (history c)) c)"
  obtain s2 where 2: "lms7002m_release env d = Some s2" using lms_release_returns [OF assms(1)] by blast
  define e where "e = hw_step (temp_test env (g (history (hw_step (i2c_test env) s2)))) (hw_step (i2c_test env) s2)"
  have "keeps rest_regs env s a" unfolding a_def by (rule keeps_step [OF calm_setup(2) rest_subs(3)])
  moreover have "keeps rest_regs env a c" unfolding c_def by (rule keeps_revision [OF b])
  moreover have "keeps rest_regs env c d" unfolding d_def
    by (rule keeps_trans [OF keeps_dac_init keeps_step [OF calm_latch(2) rest_subs(2)]])
  moreover have "keeps rest_regs env s2 e" unfolding e_def
    by (rule keeps_trans [OF keeps_step [OF calm_i2c_test rest_subs(3)] keeps_step [OF calm_temp_test rest_subs(5)]])
  ultimately have "board_ok e" using assms(2) lms_release(1) [OF 2] unfolding keeps_def by blast
  then obtain out s' where "vctcxo_test env 2 e = Some (out, s')"
    using vctcxo_test_returns [OF assms(1), of 2 e] by (auto simp: board_ok_def)
  then have "init_tail env g s = Some (1, s')"
    unfolding init_tail_def a_def [symmetric] Let_def b prod.case c_def [symmetric] d_def [symmetric] 2
      e_def by simp
  then show ?thesis ..
qed

section \<open>Slaves that identify themselves\<close>

definition seen0 :: "board \<Rightarrow> wires \<times> i2c_symbol list" where
  "seen0 s = i2c_decode CSR_I2C0_W_ADDR CSR_I2C0_R_ADDR (history s) idle"
definition seen1 :: "board \<Rightarrow> wires \<times> i2c_symbol list" where
  "seen1 s = i2c_decode CSR_I2C1_W_ADDR CSR_I2C1_R_ADDR (history s) idle"

lemma quiet_seen1:
  assumes "quiet A env s s'" "A \<inter> bus1_regs = {}"
  shows "seen1 s' = seen1 s"
proof -
  obtain evs where "history s' = history s @ evs" "\<forall>e \<in> set evs. on_regs A e"
    using assms(1) unfolding quiet_def by blast
  moreover from this assms(2) have "i2c_decode CSR_I2C1_W_ADDR CSR_I2C1_R_ADDR evs l = (l, [])" for l
    by (intro decode_elsewhere) (auto simp: bus1_regs_def)
  ultimately show ?thesis by (simp add: seen1_def i2c_decode_append split: prod.splits)
qed

lemma quiet_idle:
  assumes "quiet A env s s'" "fst (seen0 s) = idle" "fst (seen1 s) = idle"
  shows "fst (seen0 s') = idle" "fst (seen1 s') = idle"
  using assms by (auto simp: quiet_def seen0_def seen1_def idle_after_def i2c_decode_append split: prod.splits)

lemma hw_read0_served:
  assumes "driven CSR_I2C0_W_ADDR CSR_I2C0_R_ADDR env resp" "seen0 s = (idle, s0)"
    and "serves resp s0 sa r ss [d]"
  shows "fst (on_hw (i2c0_read env sa r [x] 1 ss) s) = (True, [d])"
  using bus0.read_served [OF assms(1) assms(2) [unfolded seen0_def] assms(3), of "[x]"]
  by (simp add: on_hw_def split_beta)

lemma hw_read1_served:
  assumes "driven CSR_I2C1_W_ADDR CSR_I2C1_R_ADDR env resp" "seen1 s = (idle, s0)"
    and "serves resp s0 sa r ss [d]"
  shows "fst (on_hw (i2c1_read env sa r [x] 1 ss) s) = (True, [d])"
  using bus1.read_served [OF assms(1) assms(2) [unfolded seen1_def] assms(3), of "[x]"]
  by (simp add: on_hw_def split_beta)

lemma xtrx_init_returns_one:
  assumes "driven CSR_I2C0_W_ADDR CSR_I2C0_R_ADDR env resp0" "driven CSR_I2C1_W_ADDR CSR_I2C1_R_ADDR env resp1"
    and "seen0 s = (idle, s0)" "seen1 s = (idle, s1)"
    and "serves resp0 s0 LP8758_I2C_ADDR 0x01 True [0xe0]" "serves resp1 s1 LP8758_I2C_ADDR 0x01 True [0xe0]"
    and "timer_stops N env" "board_ok s"
  shows "\<exists>s'. xtrx_init env g s = Some (1, s')"
proof -
  obtain a where a: "on_hw (i2c0_read env LP8758_I2C_ADDR 0x01 [g (history s) 0] 1 True) s = ((True, [0xe0]), a)"
    using hw_read0_served [OF assms(1,3,5)] by (metis prod.collapse)
  obtain b where b: "busy_wait env 1 (hw_step (pmic_lms_setup env) a) = Some b"
    using busy_wait_returns [OF assms(7)] by blast
  have la: "logs bus0_regs env s a"
    using logs_hw [OF calm_read0 [of 1 "[g (history s) 0]" env LP8758_I2C_ADDR 1 True], of s] a by simp
  have lb: "logs (bus0_regs \<union> timer_regs) env s b"
    by (rule logs_trans [OF logs_mono [OF la] logs_trans [OF logs_mono [OF logs_step [OF calm_setup(1)]]
            logs_mono [OF busy_wait_logs [OF b]]]]) auto
  then have "seen1 b = (idle, s1)"
    using quiet_seen1 [of _ env s b] assms(4) bus_regs_differ regs_off_bus(1)
    by (auto simp: logs_def bus1_regs_def dest!: quiet_seen1)
  then obtain c where c: "on_hw (i2c1_read env LP8758_I2C_ADDR 0x01 [0x92] 1 True) b = ((True, [0xe0]), c)"
    using hw_read1_served [OF assms(2) _ assms(6)] by (metis prod.collapse)
  have "board_ok c"
    using assms(8) keeps_logs [OF lb subset_UNIV] keeps_hw [OF calm_read1 subset_UNIV c] unfolding keeps_def by simp
  then obtain s' where "init_tail env g c = Some (1, s')" using init_tail_returns [OF assms(7)] by blast
  moreover have "xtrx_init env g s = init_tail env g c"
    unfolding xtrx_init_split a Let_def prod.case by (simp add: b c [unfolded One_nat_def])
  ultimately show ?thesis by simp
qed

end
