(* ===== verification/Fw_Main.thy ===== *)
theory Fw_Main
  imports Fw_Console Fw_Init
begin

text \<open>
  The command dispatcher and the main loop of the firmware (\<open>console_service\<close>, \<open>main\<close>), as a
  state machine over the characters that arrive on the serial port, with its invariant.
\<close>

section \<open>console_service and main\<close>

record firmware =
  fw_board :: board
  fw_console :: console

text \<open>
  The commands only differ in what they do to the board; what they print is dropped here. \<open>help\<close>,
  \<open>prompt\<close> and an unknown command do nothing to the board.
\<close>

definition run_command :: "fw_env \<Rightarrow> (fw_log \<Rightarrow> nat \<Rightarrow> u8) \<Rightarrow> string \<Rightarrow> nat \<Rightarrow> board \<Rightarrow> board option" where
  "run_command env g buf token b =
     (if c_streq buf token ''help'' then Some b
      else if c_streq buf token ''reboot'' then Some (hw_step reboot_cmd b)
      else if c_streq buf token ''i2c_test'' then Some (hw_step (i2c_test env) b)
      else if c_streq buf token ''temp_test'' then Some (hw_step (temp_test env (g (history b))) b)
      else if c_streq buf token ''vctcxo_test'' then map_option snd (vctcxo_test env 16 b)
      else if c_streq buf token ''digi_1v8'' then Some (hw_step (digi_1v8 env) b)
      else if c_streq buf token ''xtrx_init'' then map_option snd (xtrx_init env g b)
      else if c_streq buf token ''pmic_dump'' then Some (hw_step (pmic_dump env (g (history b))) b)
      else if c_streq buf token ''dac_dump'' then Some (snd (dac_dump env (g (history b)) b))
      else if c_streq buf token ''xsync_test'' then xsync_test env b
      else Some b)"

definition console_service ::
    "fw_env \<Rightarrow> (fw_log \<Rightarrow> nat \<Rightarrow> u8) \<Rightarrow> char option \<Rightarrow> firmware \<Rightarrow> firmware option" where
  "console_service env g inp f = (case readstr inp (fw_console f) of
     (None, t) \<Rightarrow> Some (f\<lparr>fw_console := t\<rparr>)
   | (Some str, t) \<Rightarrow>
       (case get_token (con_s t) str of (token, str, buf) \<Rightarrow>
          (case run_command env g buf token (fw_board f) of
             None \<Rightarrow> None
           | Some b \<Rightarrow> Some \<lparr>fw_board = b, fw_console = t\<lparr>con_s := buf\<rparr>\<rparr>)))"

fun main_loop :: "fw_env \<Rightarrow> (fw_log \<Rightarrow> nat \<Rightarrow> u8) \<Rightarrow> char option list \<Rightarrow> firmware \<Rightarrow> firmware option" where
  "main_loop env g [] f = Some f"
| "main_loop env g (inp # inps) f = (case console_service env g inp f of
     None \<Rightarrow> None | Some f \<Rightarrow> main_loop env g inps f)"

definition firmware_main :: "fw_env \<Rightarrow> (fw_log \<Rightarrow> nat \<Rightarrow> u8) \<Rightarrow> char option list \<Rightarrow> firmware option" where
  "firmware_main env g inps = (case xtrx_init env g board_reset of
     None \<Rightarrow> None
   | Some (r, b) \<Rightarrow> main_loop env g inps \<lparr>fw_board = b, fw_console = console_reset\<rparr>)"

section \<open>The invariant\<close>

definition firmware_ok :: "firmware \<Rightarrow> bool" where
  "firmware_ok f \<longleftrightarrow> console_ok (fw_console f) \<and> board_ok (fw_board f)
     \<and> fst (seen0 (fw_board f)) = idle \<and> fst (seen1 (fw_board f)) = idle"

lemma keeps_UNIV: "keeps A env s s' \<Longrightarrow> keeps UNIV env s s'"
  unfolding keeps_def using quiet_mono by blast

lemma run_command_keeps:
  assumes "run_command env g buf token b = Some b'"
  shows "keeps UNIV env b b'"
proof -
  have refl: "keeps UNIV env b b" by (simp add: keeps_def quiet_refl)
  have reboot: "keeps UNIV env b (hw_step reboot_cmd b)"
    unfolding reboot_cmd_def
    by (rule keeps_step [OF calm_elsewhere [OF _ regs_off_bus(5)] subset_UNIV], rule tame_write) simp
  show ?thesis
    using assms refl reboot
      keeps_step [OF calm_i2c_test subset_UNIV, of env b] keeps_step [OF calm_temp_test subset_UNIV, of env b "g (history b)"]
      keeps_step [OF calm_digi subset_UNIV, of env b] keeps_step [OF calm_pmic_dump subset_UNIV, of env b "g (history b)"]
      keeps_UNIV [OF keeps_dac_dump [OF prod.collapse [symmetric]]]
      keeps_UNIV [OF keeps_vctcxo_test] keeps_UNIV [OF xtrx_init_keeps] keeps_logs [OF xsync_test_logs subset_UNIV]
    unfolding run_command_def by (auto split: if_splits)
qed

lemma keeps_firmware:
  "keeps UNIV env (fw_board f) b \<Longrightarrow> console_ok t \<Longrightarrow> firmware_ok f \<Longrightarrow>
     firmware_ok \<lparr>fw_board = b, fw_console = t\<rparr>"
  unfolding firmware_ok_def keeps_def using quiet_idle by auto

lemma console_service_ok:
  assumes "firmware_ok f" "console_service env g inp f = Some f'"
  shows "firmware_ok f'"
proof -
  have t: "console_ok (snd (readstr inp (fw_console f)))"
    using assms(1) readstr_ok by (simp add: firmware_ok_def)
  show ?thesis
  proof (cases "fst (readstr inp (fw_console f))")
    case None
    with assms t show ?thesis by (auto simp: console_service_def firmware_ok_def split: prod.splits)
  next
    case (Some str)
    let ?t = "snd (readstr inp (fw_console f))"
    obtain token str' buf where tok: "get_token (con_s ?t) str = (token, str', buf)" by (metis prod_cases3)
    then obtain b where b: "run_command env g buf token (fw_board f) = Some b"
      and f': "f' = \<lparr>fw_board = b, fw_console = ?t\<lparr>con_s := buf\<rparr>\<rparr>"
      using assms(2) Some by (auto simp: console_service_def split: prod.splits option.splits)
    have "console_ok (?t\<lparr>con_s := buf\<rparr>)"
      using t get_token_split(3) [OF tok] by (simp add: console_ok_def)
    then show ?thesis unfolding f' by (rule keeps_firmware [OF run_command_keeps [OF b] _ assms(1)])
  qed
qed

lemma main_loop_ok:
  "firmware_ok f \<Longrightarrow> main_loop env g inps f = Some f' \<Longrightarrow> firmware_ok f'"
  by (induction inps arbitrary: f) (auto split: option.splits dest: console_service_ok)

lemma board_reset_facts:
  "board_ok board_reset" "seen0 board_reset = (idle, [])" "seen1 board_reset = (idle, [])"
  by (simp_all add: board_reset_def board_ok_def seen0_def seen1_def)

lemma firmware_main_ok:
  assumes "firmware_main env g inps = Some f"
  shows "firmware_ok f"
proof -
  obtain r b where b: "xtrx_init env g board_reset = Some (r, b)"
    and f: "main_loop env g inps \<lparr>fw_board = b, fw_console = console_reset\<rparr> = Some f"
    using assms by (auto simp: firmware_main_def split: option.splits)
  have "firmware_ok \<lparr>fw_board = board_reset, fw_console = console_reset\<rparr>"
    using board_reset_facts by (simp add: firmware_ok_def)
  then have "firmware_ok \<lparr>fw_board = b, fw_console = console_reset\<rparr>"
    using keeps_UNIV [OF xtrx_init_keeps [OF b]] by (intro keeps_firmware) simp_all
  then show ?thesis using main_loop_ok f by blast
qed

text \<open>A line that was typed is run as a command: its first word decides.\<close>

lemma console_service_line:
  assumes "firmware_ok f" "is_return c"
  shows "\<exists>buf token t. c_string buf token = takeWhile (\<lambda>x. x \<noteq> CHR 0x20) (takeWhile (\<lambda>x. x \<noteq> NUL) (line (fw_console f)))
     \<and> line t = [] \<and> console_service env g (Some c) f
       = map_option (\<lambda>b. \<lparr>fw_board = b, fw_console = t\<rparr>) (run_command env g buf token (fw_board f))"
proof -
  let ?t = "snd (readstr (Some c) (fw_console f))"
  have ok: "console_ok (fw_console f)" using assms(1) by (simp add: firmware_ok_def)
  obtain token str' buf where tok: "get_token (con_s ?t) 0 = (token, str', buf)" by (metis prod_cases3)
  have r: "readstr (Some c) (fw_console f) = (Some 0, ?t)"
    using readstr_returns [OF ok, of c] assms(2) by (metis prod.collapse)
  have "console_service env g (Some c) f
      = map_option (\<lambda>b. \<lparr>fw_board = b, fw_console = ?t\<lparr>con_s := buf\<rparr>\<rparr>) (run_command env g buf token (fw_board f))"
    unfolding console_service_def by (subst r) (simp add: tok split: option.splits)
  moreover have "c_string buf token = takeWhile (\<lambda>x. x \<noteq> CHR 0x20) (takeWhile (\<lambda>x. x \<noteq> NUL) (line (fw_console f)))"
    using get_token_split(1) [OF tok] readstr_string [OF ok assms(2)] by simp
  moreover have "con_ptr ?t = 0" using assms(2) by (auto simp: readstr_def char_class)
  ultimately show ?thesis by (intro exI [of _ buf] exI [of _ token] exI [of _ "?t\<lparr>con_s := buf\<rparr>"]) (simp add: line_def)
qed

end
