(* ===== verification/Example_Board.thy ===== *)
theory Example_Board
  imports Fw_Main
begin

text \<open>
  Concrete surroundings of the firmware for the witnesses of its properties: on each bus a slave
  that acknowledges everything and answers every read with one byte, a timer that has always
  expired, and a bus on which nobody answers.
\<close>

definition byte_slave :: "u8 \<Rightarrow> i2c_symbol list \<Rightarrow> bool" where
  "byte_slave v ss = (let X = rev (takeWhile (\<lambda>x. x \<noteq> Start_sym) (rev ss)) in
     9 \<le> length X \<and> X ! 7 = Mbit True \<and> (length X - 9) mod 9 < 8 \<and> msb_bits v ! ((length X - 9) mod 9))"

definition slave_env :: "u8 \<Rightarrow> fw_env" where
  "slave_env v h a =
     (if a = CSR_I2C0_R_ADDR then of_bool (byte_slave v (snd (i2c_decode CSR_I2C0_W_ADDR CSR_I2C0_R_ADDR h idle)))
      else if a = CSR_I2C1_R_ADDR then of_bool (byte_slave v (snd (i2c_decode CSR_I2C1_W_ADDR CSR_I2C1_R_ADDR h idle)))
      else 0)"

definition silent_env :: fw_env where "silent_env h a = 1"

lemma slave_env_driven:
  "driven CSR_I2C0_W_ADDR CSR_I2C0_R_ADDR (slave_env v) (byte_slave v)"
  "driven CSR_I2C1_W_ADDR CSR_I2C1_R_ADDR (slave_env v) (byte_slave v)"
proof -
  have "CSR_I2C1_R_ADDR \<noteq> CSR_I2C0_R_ADDR" by (simp add: csr_defs)
  then show "driven CSR_I2C0_W_ADDR CSR_I2C0_R_ADDR (slave_env v) (byte_slave v)"
    "driven CSR_I2C1_W_ADDR CSR_I2C1_R_ADDR (slave_env v) (byte_slave v)"
    by (simp_all add: driven_def slave_env_def)
qed

lemma slave_env_timer: "timer_stops 0 (slave_env v)"
  by (simp add: timer_stops_def slave_env_def csr_defs)

lemma byte_slave_after:
  assumes "Start_sym \<notin> set X"
  shows "byte_slave v (ss @ [Start_sym] @ X) \<longleftrightarrow>
     9 \<le> length X \<and> X ! 7 = Mbit True \<and> (length X - 9) mod 9 < 8 \<and> msb_bits v ! ((length X - 9) mod 9)"
proof -
  have "takeWhile (\<lambda>x. x \<noteq> Start_sym) (rev (ss @ [Start_sym] @ X)) = rev X"
    using assms by (auto simp: takeWhile_append)
  then show ?thesis by (simp add: byte_slave_def)
qed

lemma msb_bits_last: "msb_bits b ! 7 = bit b 0"
  by (simp add: msb_bits_def)

lemma address_bits: "bit (push_bit 1 (sa :: u8)) 0 = False" "bit (push_bit 1 (sa :: u8) OR 1) 0 = True"
  by (simp_all only: bit_or_iff bit_push_bit_iff possible_bit_word bit_1_iff) simp_all

lemma byte_slave_serves: "serves (byte_slave v) s0 sa r ss [v]"
proof -
  have no: "Start_sym \<notin> set (map Mbit bs)" "Start_sym \<notin> set (map Sbit cs)" "Start_sym \<notin> set (sent b a)" for bs cs b a
    by (auto simp: sent_def)
  have ns: "length (sent b a) = 9" "sent b a ! 7 = Mbit (bit b 0)" for b a
    by (simp_all add: sent_def nth_append msb_bits_last)
  have 1: "\<not> byte_slave v (s0 @ [Start_sym] @ map Mbit (msb_bits (push_bit 1 sa)))"
    by (subst byte_slave_after) (auto simp: no)
  have 2: "\<not> byte_slave v (s0 @ [Start_sym] @ sent (push_bit 1 sa) True @ map Mbit (msb_bits r))"
    by (subst byte_slave_after) (use address_bits(1) [of sa] in \<open>auto simp: no ns nth_append\<close>)
  have pre: "s0 @ addressed sa r ss @ X
      = (s0 @ [Start_sym] @ sent (push_bit 1 sa) True @ sent r True @ (if ss then [Stop_sym] else [])) @ [Start_sym] @ X" for X
    by (simp add: addressed_def)
  have 3: "\<not> byte_slave v (s0 @ addressed sa r ss @ map Mbit (msb_bits (push_bit 1 sa OR 1)))"
    unfolding pre by (subst byte_slave_after) (auto simp: no)
  have 4: "byte_slave v (s0 @ addressed sa r ss @ sent (push_bit 1 sa OR 1) True @ data_taken [v] 0
      @ map Sbit (take k (msb_bits v))) = msb_bits v ! k" if "k < 8" for k
    unfolding pre by (subst byte_slave_after)
      (use that address_bits(2) [of sa] in \<open>auto simp: no ns nth_append data_taken_def\<close>)
  show ?thesis using 1 2 3 4 by (simp add: serves_def)
qed

lemma slave_init: "\<exists>s'. xtrx_init (slave_env 0xe0) g board_reset = Some (1, s')"
  by (rule xtrx_init_returns_one [OF slave_env_driven board_reset_facts(2,3) byte_slave_serves byte_slave_serves
        slave_env_timer board_reset_facts(1)])

end
