(* ===== verification/Soapy_Text.thy ===== *)
theory Soapy_Text
  imports Xtrx_Prelude
begin

text \<open>
  The text conversions of the C++ library that the settings of the SoapySDR plugin use:
  \<open>std::to_string\<close> of integers, the \<open>%x\<close> format, and \<open>std::stoi\<close> with its two exceptions.
\<close>

section \<open>Printing\<close>

definition digit_char :: "nat \<Rightarrow> char" where
  "digit_char d = (if d < 10 then char_of (48 + d) else char_of (87 + d))"

fun show_base :: "nat \<Rightarrow> nat \<Rightarrow> string" where
  "show_base b n = (if n < b \<or> b < 2 then [digit_char n] else show_base b (n div b) @ [digit_char (n mod b)])"

declare show_base.simps [simp del]

definition to_string :: "int \<Rightarrow> string" where
  "to_string i = (if i < 0 then ''-'' @ show_base 10 (nat (- i)) else show_base 10 (nat i))"

text \<open>\<open>%x\<close> and \<open>%08x\<close>: no more padding than the width asks for.\<close>

definition hex :: "nat \<Rightarrow> u32 \<Rightarrow> string" where
  "hex width v = (let s = show_base 16 (unat v) in replicate (width - length s) CHR ''0'' @ s)"

section \<open>Reading\<close>

datatype stoi_exn = Invalid_argument | Out_of_range

definition is_space :: "char \<Rightarrow> bool" where
  "is_space c \<longleftrightarrow> c = CHR '' '' \<or> (9 \<le> (of_char c :: nat) \<and> (of_char c :: nat) \<le> 13)"

definition is_digit :: "char \<Rightarrow> bool" where
  "is_digit c \<longleftrightarrow> 48 \<le> (of_char c :: nat) \<and> (of_char c :: nat) \<le> 57"

fun digits_value :: "nat \<Rightarrow> string \<Rightarrow> nat" where
  "digits_value acc [] = acc"
| "digits_value acc (c # cs) = digits_value (10 * acc + (of_char c - 48)) cs"

text \<open>
  White space, an optional sign, then the longest run of digits; what follows is ignored.
\<close>

definition split_sign :: "string \<Rightarrow> bool \<times> string" where
  "split_sign s = (case s of c # cs \<Rightarrow>
       if c = CHR ''-'' then (True, cs) else if c = CHR ''+'' then (False, cs) else (False, s)
     | [] \<Rightarrow> (False, []))"

definition stoi :: "string \<Rightarrow> stoi_exn + int" where
  "stoi s =
     (case split_sign (dropWhile is_space s) of (neg, r) \<Rightarrow>
        let ds = takeWhile is_digit r;
            v = (if neg then - int (digits_value 0 ds) else int (digits_value 0 ds))
        in if ds = [] then Inl Invalid_argument
           else if v < - (2 ^ 31) \<or> 2 ^ 31 \<le> v then Inl Out_of_range
           else Inr v)"

section \<open>Round trip\<close>

lemma digits_value_append: "digits_value a (xs @ ys) = digits_value (digits_value a xs) ys"
  by (induction a xs rule: digits_value.induct) auto

lemma digit_char_decimal:
  "d < 10 \<Longrightarrow> of_char (digit_char d) = 48 + d" "d < 10 \<Longrightarrow> is_digit (digit_char d)"
  "d < 10 \<Longrightarrow> \<not> is_space (digit_char d)" "d < 10 \<Longrightarrow> digit_char d \<noteq> CHR ''-'' \<and> digit_char d \<noteq> CHR ''+''"
proof -
  show c: "of_char (digit_char d) = 48 + d" if "d < 10" for d
    using that by (simp add: digit_char_def)
  show "d < 10 \<Longrightarrow> is_digit (digit_char d)" by (simp add: is_digit_def c)
  have ne: "digit_char d \<noteq> x" if "d < 10" "(of_char x :: nat) < 48" for x
    using c [OF that(1)] that(2) by auto
  show "d < 10 \<Longrightarrow> \<not> is_space (digit_char d)" using ne [of "CHR '' ''"] by (auto simp: is_space_def c)
  show "d < 10 \<Longrightarrow> digit_char d \<noteq> CHR ''-'' \<and> digit_char d \<noteq> CHR ''+''"
    using ne [of "CHR ''-''"] ne [of "CHR ''+''"] by simp
qed

lemma show_decimal:
  "(\<forall>c \<in> set (show_base 10 n). is_digit c) \<and> show_base 10 n \<noteq> []
    \<and> digits_value 0 (show_base 10 n) = n \<and> (\<exists>d < 10. hd (show_base 10 n) = digit_char d)"
proof (induction n rule: less_induct)
  case (less n)
  show ?case
  proof (cases "n < 10")
    case True
    then show ?thesis by (subst (1 2 3 4) show_base.simps) (auto simp: digit_char_decimal)
  next
    case False
    then have "n div 10 < n" by simp
    from less.IH [OF this] show ?thesis
      using False
      by (subst (1 2 3 4) show_base.simps) (auto simp: digit_char_decimal digits_value_append)
  qed
qed

lemma stoi_to_string:
  assumes "n < 2 ^ 31"
  shows "stoi (to_string (int n)) = Inr (int n)"
proof -
  obtain d ds where s: "show_base 10 n = digit_char d # ds" "d < 10"
    using show_decimal [of n] by (metis list.collapse)
  have all: "takeWhile is_digit (show_base 10 n) = show_base 10 n"
    using show_decimal [of n] by (simp add: takeWhile_eq_all_conv)
  have sign: "split_sign (dropWhile is_space (show_base 10 n)) = (False, show_base 10 n)"
    using digit_char_decimal [OF s(2)] by (simp add: s(1) split_sign_def)
  show ?thesis
    using assms show_decimal [of n] by (simp add: stoi_def to_string_def sign all Let_def)
qed

end
