(* ===== verification/Soapy_Device.thy ===== *)
theory Soapy_Device
  imports Soapy_Stream Soapy_Text Complex_Main
begin

text \<open>
  Device control of the SoapySDR plugin (\<open>soapysdr-xtrx/XTRXDevice.cpp\<close>): construction and
  destruction, antennas, corrections, gains, frequencies, sample rates, filters, clocks, sensors,
  registers and settings, on the library and the driver.

  The LMS7002M library is a submodule that is not in the repository. A call of it is a value of
  \<open>lms_call\<close>; what it answers and does to the board is the function \<open>lms_do\<close> of the calls so
  far, and the object keeps the calls in order. Numbers of type \<open>double\<close> are exact reals; where the
  conversion to \<open>int\<close> or a shift would be undefined the result is \<open>Undefined_behaviour\<close>. A map
  entry that C++ creates on access exists here from then on. The lock of the object and the log are
  not part of the model.
\<close>

section \<open>Calls of the LMS7002M library\<close>

datatype lms_dir = LMS_TX | LMS_RX
datatype lms_chan = LMS_CHA | LMS_CHB | LMS_CHAB
datatype lms_port = LMS_PORT1 | LMS_PORT2
datatype rfe_path = RFE_NONE | RFE_LNAH | RFE_LNAL | RFE_LNAW | RFE_LB1 | RFE_LB2
datatype tbb_lb = TBB_LB_DISCONNECTED | TBB_LB_DAC_CURRENT | TBB_LB_LB_LADDER | TBB_LB_MAIN_TBB
datatype tbb_path = TBB_BYP | TBB_S5 | TBB_LAD | TBB_LBF | TBB_HBF
datatype rbb_path = RBB_BYP | RBB_LBF | RBB_HBF | RBB_LB_BYP | RBB_LB_LBF | RBB_LB_HBF | RBB_PDET

datatype (plugins only: size) lms_call =
    LMS_reset | LMS_set_spi_mode nat | LMS_regs_spi_read u32
  | LMS_configure_lml_port lms_port lms_dir int | LMS_reset_lml_fifo lms_dir
  | LMS_afe_enable lms_dir lms_chan bool | LMS_rxtsp_enable lms_chan bool | LMS_txtsp_enable lms_chan bool
  | LMS_rbb_enable lms_chan bool | LMS_tbb_enable lms_chan bool | LMS_rfe_enable lms_chan bool
  | LMS_trf_enable lms_chan bool | LMS_sxx_enable lms_dir bool
  | LMS_ldo_enable bool | LMS_xbuf_share_tx bool | LMS_power_down | LMS_destroy
  | LMS_rfe_set_path lms_chan rfe_path | LMS_trf_select_band lms_chan nat
  | LMS_rxtsp_set_dc_correction lms_chan bool nat | LMS_txtsp_set_dc_correction lms_chan real real
  | LMS_txtsp_set_iq_correction lms_chan real real | LMS_rxtsp_set_iq_correction lms_chan real real
  | LMS_rfe_set_lna lms_chan real | LMS_rfe_set_loopback_lna lms_chan real | LMS_rfe_set_tia lms_chan real
  | LMS_rbb_set_pga lms_chan real | LMS_trf_set_pad lms_chan real | LMS_trf_set_loopback_pad lms_chan real
  | LMS_set_lo_freq lms_dir real real | LMS_rxtsp_set_freq lms_chan real | LMS_txtsp_set_freq lms_chan real
  | LMS_rxtsp_set_decim lms_chan int | LMS_txtsp_set_interp lms_chan int
  | LMS_mcu_calibration_rx real real | LMS_mcu_calibration_tx real real
  | LMS_set_data_clock real real
  | LMS_spi_write u32 u32 | LMS_spi_read u32
  | LMS_trf_enable_loopback lms_chan bool | LMS_rxtsp_tsg_const lms_chan int int
  | LMS_txtsp_tsg_const lms_chan int int | LMS_tbb_enable_loopback lms_chan tbb_lb bool
  | LMS_tbb_set_path lms_chan tbb_path | LMS_rbb_set_path lms_chan rbb_path
  | LMS_setup_digital_loopback | LMS_setup_digital_loopback_lfsr
  | LMS_rxtsp_tsg_tone_div lms_chan int | LMS_txtsp_tsg_tone_div lms_chan int
  | LMS_dump_ini string | LMS_load_ini string

text \<open>An answer: an integer result, and the value written through a result pointer, if any.\<close>

record lms_reply =
  lr_int :: int
  lr_real :: real
  lr_out :: "real option"

section \<open>The object\<close>

datatype xtrx_exn =
    No_device | Open_failed | Create_failed | Ini_failed
  | Unknown_antenna | Unknown_key | Unknown_value | Invalid_value | Unknown_register
  | Unknown_sensor | Unknown_sensor_device | Unknown_sensor_key
  | Rate_too_high | Rate_too_low | Frequency_failed int | Bandwidth_failed int | Clock_failed
  | Clock_source_invalid | Not_found | Stoi stoi_exn | Undefined_behaviour

record xtrx =
  sdr :: soapy
  lms_log :: "lms_call list"
  masterClockRate :: real
  refClockRate :: real
  rxDCOffsetMode :: bool
  txDCOffset :: complex
  cachedAnt :: "soapy_direction \<times> nat \<Rightarrow> string option"
  cachedIqBal :: "soapy_direction \<times> nat \<Rightarrow> complex option"
  cachedGain :: "soapy_direction \<times> nat \<times> string \<Rightarrow> real option"
  cachedFreq :: "soapy_direction \<times> nat \<times> string \<Rightarrow> real option"
  cachedRate :: "soapy_direction \<Rightarrow> real option"
  cachedBw :: "soapy_direction \<times> nat \<Rightarrow> real option"

text \<open>
  What the object meets: the library's environment, the LMS7002M library, and the defaults of the
  base class \<open>SoapySDR::Device\<close>.
\<close>

record xtrx_env =
  xe_lib :: lib_env
  lms_create_ok :: bool
  lms_do :: "lms_call list \<Rightarrow> lms_call \<Rightarrow> fd \<Rightarrow> (lms_reply \<times> fd) lib_result"
  base_dc_mode :: bool
  base_dc_offset :: complex
  base_gain_range :: "real \<times> real"

section \<open>Running methods\<close>

text \<open>
  A method acts on the object and its descriptor; it returns, throws, or ends the process. What it
  did before an exception stays done.
\<close>

type_synonym 'a xm = "xtrx \<times> fd \<Rightarrow> ((xtrx_exn + 'a) \<times> xtrx \<times> fd) lib_result"

definition xret :: "'a \<Rightarrow> 'a xm" where "xret a s = Done (Inr a, s)"
definition xthrow :: "xtrx_exn \<Rightarrow> 'a xm" where "xthrow x s = Done (Inl x, s)"

definition xbind :: "'a xm \<Rightarrow> ('a \<Rightarrow> 'b xm) \<Rightarrow> 'b xm" where
  "xbind m f s = lbind (m s) (\<lambda>(r, s). case r of Inl x \<Rightarrow> Done (Inl x, s) | Inr a \<Rightarrow> f a s)"

fun stmts :: "unit xm list \<Rightarrow> unit xm" where
  "stmts [] = xret ()"
| "stmts (m # ms) = xbind m (\<lambda>_. stmts ms)"

definition xget :: "(xtrx \<Rightarrow> 'a) \<Rightarrow> 'a xm" where "xget f s = Done (Inr (f (fst s)), s)"
definition xmod :: "(xtrx \<Rightarrow> xtrx) \<Rightarrow> unit xm" where "xmod f s = Done (Inr (), f (fst s), snd s)"

definition xfd :: "(fd \<Rightarrow> ('a \<times> fd) lib_result) \<Rightarrow> 'a xm" where
  "xfd g s = lbind (g (snd s)) (\<lambda>(a, fd). Done (Inr a, fst s, fd))"

definition readl :: "xtrx_env \<Rightarrow> u32 \<Rightarrow> u32 xm" where
  "readl e a = xfd (litepcie_readl_u (xe_lib e) a)"

definition writel :: "xtrx_env \<Rightarrow> u32 \<Rightarrow> u32 \<Rightarrow> unit xm" where
  "writel e a v = xfd (\<lambda>fd. lbind (litepcie_writel_u (xe_lib e) a v fd) (\<lambda>fd. Done ((), fd)))"

definition lms :: "xtrx_env \<Rightarrow> lms_call \<Rightarrow> lms_reply xm" where
  "lms e c s = lbind (lms_do e (lms_log (fst s)) c (snd s)) (\<lambda>(r, fd).
     Done (Inr r, (fst s)\<lparr>lms_log := lms_log (fst s) @ [c]\<rparr>, fd))"

definition lms_run :: "xtrx_env \<Rightarrow> lms_call \<Rightarrow> unit xm" where
  "lms_run e c = xbind (lms e c) (\<lambda>_. xret ())"

text \<open>\<open>map::at\<close>.\<close>

definition xat :: "(xtrx \<Rightarrow> 'a option) \<Rightarrow> 'a xm" where
  "xat f = xbind (xget f) (\<lambda>r. case r of None \<Rightarrow> xthrow Not_found | Some a \<Rightarrow> xret a)"

definition xstoi :: "string \<Rightarrow> int xm" where
  "xstoi v = (case stoi v of Inl x \<Rightarrow> xthrow (Stoi x) | Inr i \<Rightarrow> xret i)"

definition dir2LMS :: "soapy_direction \<Rightarrow> lms_dir" where
  "dir2LMS d = (if d = SOAPY_SDR_RX then LMS_RX else LMS_TX)"

definition ch2LMS :: "nat \<Rightarrow> lms_chan" where
  "ch2LMS ch = (if ch = 0 then LMS_CHA else LMS_CHB)"

section \<open>Antennas\<close>

definition listAntennas :: "soapy_direction \<Rightarrow> string list" where
  "listAntennas direction =
     (if direction = SOAPY_SDR_RX then [''LNAH'', ''LNAL'', ''LNAW'', ''LB1'', ''LB2''] else [])
     @ (if direction = SOAPY_SDR_TX then [''BAND1'', ''BAND2''] else [])"

text \<open>The path in the chip and the position of the switch on the board.\<close>

definition rx_antenna :: "string \<Rightarrow> (rfe_path \<times> u32) option" where
  "rx_antenna name =
     (if name = ''LNAH'' then Some (RFE_LNAH, 2)
      else if name = ''LNAL'' then Some (RFE_LNAL, 1)
      else if name = ''LNAW'' then Some (RFE_LNAW, 0)
      else if name = ''LB1'' then Some (RFE_LB1, 0)
      else if name = ''LB2'' then Some (RFE_LB2, 0)
      else None)"

definition tx_antenna :: "string \<Rightarrow> (nat \<times> u32) option" where
  "tx_antenna name =
     (if name = ''BAND1'' then Some (1, 1) else if name = ''BAND2'' then Some (2, 0) else None)"

definition setAntenna :: "xtrx_env \<Rightarrow> soapy_direction \<Rightarrow> nat \<Rightarrow> string \<Rightarrow> unit xm" where
  "setAntenna e direction channel name = stmts [
     if direction = SOAPY_SDR_RX then
       (case rx_antenna name of
          None \<Rightarrow> xthrow Unknown_antenna
        | Some (path, rx_rf_switch) \<Rightarrow> stmts [
            lms_run e (LMS_rfe_set_path (ch2LMS channel) path),
            writel e CSR_RF_SWITCHES_RX_ADDR rx_rf_switch])
     else xret (),
     if direction = SOAPY_SDR_TX then
       (case tx_antenna name of
          None \<Rightarrow> xthrow Unknown_antenna
        | Some (band, tx_rf_switch) \<Rightarrow> stmts [
            lms_run e (LMS_trf_select_band (ch2LMS channel) band),
            writel e CSR_RF_SWITCHES_TX_ADDR tx_rf_switch])
     else xret (),
     xmod (\<lambda>d. d\<lparr>cachedAnt := (cachedAnt d)((direction, channel) \<mapsto> name)\<rparr>)]"

definition getAntenna :: "soapy_direction \<Rightarrow> nat \<Rightarrow> string xm" where
  "getAntenna direction channel = xat (\<lambda>d. cachedAnt d (direction, channel))"

section \<open>Frontend corrections\<close>

definition hasDCOffsetMode :: "soapy_direction \<Rightarrow> bool" where
  "hasDCOffsetMode direction = (if direction = SOAPY_SDR_RX then True else False)"

definition setDCOffsetMode :: "xtrx_env \<Rightarrow> soapy_direction \<Rightarrow> nat \<Rightarrow> bool \<Rightarrow> unit xm" where
  "setDCOffsetMode e direction channel automatic =
     (if direction = SOAPY_SDR_RX then stmts [
        lms_run e (LMS_rxtsp_set_dc_correction (ch2LMS channel) automatic 7),
        xmod (\<lambda>d. d\<lparr>rxDCOffsetMode := automatic\<rparr>)]
      else xret ())"

definition getDCOffsetMode :: "xtrx_env \<Rightarrow> soapy_direction \<Rightarrow> nat \<Rightarrow> bool xm" where
  "getDCOffsetMode e direction channel =
     (if direction = SOAPY_SDR_RX then xget rxDCOffsetMode else xret (base_dc_mode e))"

definition hasDCOffset :: "soapy_direction \<Rightarrow> bool" where
  "hasDCOffset direction = (if direction = SOAPY_SDR_TX then True else False)"

definition setDCOffset :: "xtrx_env \<Rightarrow> soapy_direction \<Rightarrow> nat \<Rightarrow> complex \<Rightarrow> unit xm" where
  "setDCOffset e direction channel offset =
     (if direction = SOAPY_SDR_TX then stmts [
        lms_run e (LMS_txtsp_set_dc_correction (ch2LMS channel) (Re offset) (Im offset)),
        xmod (\<lambda>d. d\<lparr>txDCOffset := offset\<rparr>)]
      else xret ())"

definition getDCOffset :: "xtrx_env \<Rightarrow> soapy_direction \<Rightarrow> nat \<Rightarrow> complex xm" where
  "getDCOffset e direction channel =
     (if direction = SOAPY_SDR_TX then xget txDCOffset else xret (base_dc_offset e))"

definition setIQBalance :: "xtrx_env \<Rightarrow> soapy_direction \<Rightarrow> nat \<Rightarrow> complex \<Rightarrow> unit xm" where
  "setIQBalance e direction channel balance = stmts [
     lms_run e (if direction = SOAPY_SDR_TX
                then LMS_txtsp_set_iq_correction (ch2LMS channel) (Arg balance) (cmod balance)
                else LMS_rxtsp_set_iq_correction (ch2LMS channel) (Arg balance) (cmod balance)),
     xmod (\<lambda>d. d\<lparr>cachedIqBal := (cachedIqBal d)((direction, channel) \<mapsto> balance)\<rparr>)]"

definition getIQBalance :: "soapy_direction \<Rightarrow> nat \<Rightarrow> complex xm" where
  "getIQBalance direction channel = xat (\<lambda>d. cachedIqBal d (direction, channel))"

section \<open>Gains\<close>

definition listGains :: "soapy_direction \<Rightarrow> string list" where
  "listGains direction =
     (if direction = SOAPY_SDR_RX then [''LNA'', ''TIA'', ''PGA''] else [])
     @ (if direction = SOAPY_SDR_TX then [''PAD''] else [])"

definition gain_calls :: "soapy_direction \<Rightarrow> nat \<Rightarrow> string \<Rightarrow> real \<Rightarrow> lms_call list" where
  "gain_calls direction channel name value =
     (let rx = (direction = SOAPY_SDR_RX); tx = (direction = SOAPY_SDR_TX); ch = ch2LMS channel in
      (if rx \<and> name = ''LNA'' then [LMS_rfe_set_lna ch value] else [])
      @ (if rx \<and> name = ''LB_LNA'' then [LMS_rfe_set_loopback_lna ch value] else [])
      @ (if rx \<and> name = ''TIA'' then [LMS_rfe_set_tia ch value] else [])
      @ (if rx \<and> name = ''PGA'' then [LMS_rbb_set_pga ch value] else [])
      @ (if tx \<and> name = ''PAD'' then [LMS_trf_set_pad ch value] else [])
      @ (if tx \<and> name = ''LB_PAD'' then [LMS_trf_set_loopback_pad ch value] else []))"

text \<open>
  The reference to the cache creates an entry 0.0 when there is none, also for a name no branch
  knows; each branch stores the value the library says it set.
\<close>

definition setGain :: "xtrx_env \<Rightarrow> soapy_direction \<Rightarrow> nat \<Rightarrow> string \<Rightarrow> real \<Rightarrow> unit xm" where
  "setGain e direction channel name value =
     (let k = (direction, channel, name) in stmts (
        xmod (\<lambda>d. d\<lparr>cachedGain := (cachedGain d)(k \<mapsto> (case cachedGain d k of None \<Rightarrow> 0 | Some v \<Rightarrow> v))\<rparr>)
        # map (\<lambda>c. xbind (lms e c) (\<lambda>r. xmod (\<lambda>d. d\<lparr>cachedGain := (cachedGain d)(k \<mapsto> lr_real r)\<rparr>)))
            (gain_calls direction channel name value)))"

definition getGain :: "soapy_direction \<Rightarrow> nat \<Rightarrow> string \<Rightarrow> real xm" where
  "getGain direction channel name = xat (\<lambda>d. cachedGain d (direction, channel, name))"

definition getGainRange :: "xtrx_env \<Rightarrow> soapy_direction \<Rightarrow> string \<Rightarrow> real \<times> real" where
  "getGainRange e direction name =
     (let rx = (direction = SOAPY_SDR_RX); tx = (direction = SOAPY_SDR_TX) in
      if rx \<and> name = ''LNA'' then (0, 30)
      else if rx \<and> name = ''LB_LNA'' then (0, 40)
      else if rx \<and> name = ''TIA'' then (0, 12)
      else if rx \<and> name = ''PGA'' then (- 12, 19)
      else if tx \<and> name = ''PAD'' then (- 52, 0)
      else if tx \<and> name = ''LB_PAD'' then (- 43 / 10, 0)
      else base_gain_range e)"

section \<open>Frequencies\<close>

definition tsp_rate :: "soapy_direction \<Rightarrow> xtrx \<Rightarrow> real" where
  "tsp_rate direction d =
     (if direction = SOAPY_SDR_TX then masterClockRate d else masterClockRate d / 4)"

definition setFrequency :: "xtrx_env \<Rightarrow> soapy_direction \<Rightarrow> nat \<Rightarrow> string \<Rightarrow> real \<Rightarrow> unit xm" where
  "setFrequency e direction channel name frequency = stmts [
     if name = ''RF'' then
       xbind (xget refClockRate) (\<lambda>ref.
       xbind (lms e (LMS_set_lo_freq (dir2LMS direction) ref frequency)) (\<lambda>r.
         if lr_int r \<noteq> 0 then xthrow (Frequency_failed (lr_int r)) else
         let actualFreq = (case lr_out r of None \<Rightarrow> 0 | Some f \<Rightarrow> f) in
         xmod (\<lambda>d. d\<lparr>cachedFreq := (cachedFreq d)((direction, 0, name) \<mapsto> actualFreq,
                                                 (direction, 1, name) \<mapsto> actualFreq)\<rparr>)))
     else xret (),
     if name = ''BB'' then
       xbind (xget (tsp_rate direction)) (\<lambda>baseRate. stmts [
         if direction = SOAPY_SDR_RX
         then lms_run e (LMS_rxtsp_set_freq (ch2LMS channel) (frequency / baseRate)) else xret (),
         if direction = SOAPY_SDR_TX
         then lms_run e (LMS_txtsp_set_freq (ch2LMS channel) (frequency / baseRate)) else xret (),
         xmod (\<lambda>d. d\<lparr>cachedFreq := (cachedFreq d)((direction, channel, name) \<mapsto> frequency)\<rparr>)])
     else xret ()]"

definition getFrequency :: "soapy_direction \<Rightarrow> nat \<Rightarrow> string \<Rightarrow> real xm" where
  "getFrequency direction channel name = xat (\<lambda>d. cachedFreq d (direction, channel, name))"

definition listFrequencies :: "string list" where
  "listFrequencies = [''RF'', ''BB'']"

definition getFrequencyRange :: "soapy_direction \<Rightarrow> string \<Rightarrow> xtrx \<Rightarrow> (real \<times> real) list" where
  "getFrequencyRange direction name d =
     (if name = ''RF'' then [(100000, 3800000000)] else [])
     @ (if name = ''BB'' then [(- tsp_rate direction d / 2, tsp_rate direction d / 2)] else [])"

section \<open>Sample rates\<close>

text \<open>
  \<open>1 << int(log(factor) / log(2) + 0.5)\<close>: the conversion truncates, which for the positive numbers
  here is the floor; shifting by 31 or more is undefined.
\<close>

definition int_factor :: "real \<Rightarrow> int option" where
  "int_factor factor =
     (let k = \<lfloor>ln factor / ln 2 + 1 / 2\<rfloor> in if k < 31 then Some (2 ^ nat k) else None)"

definition setSampleRate :: "xtrx_env \<Rightarrow> soapy_direction \<Rightarrow> real \<Rightarrow> unit xm" where
  "setSampleRate e direction rate =
     xbind (xget (tsp_rate direction)) (\<lambda>baseRate.
       if rate = 0 then xthrow Undefined_behaviour else
       let factor = baseRate / rate in
       if factor < 2 then xthrow Rate_too_high else
       case int_factor factor of
         None \<Rightarrow> xthrow Undefined_behaviour
       | Some intFactor \<Rightarrow>
           if intFactor > 32 then xthrow Rate_too_low else stmts [
             if direction = SOAPY_SDR_RX then stmts [
               lms_run e (LMS_rxtsp_set_decim LMS_CHAB intFactor),
               lms_run e (LMS_configure_lml_port LMS_PORT1 LMS_RX (intFactor div 2))]
             else xret (),
             if direction = SOAPY_SDR_TX then stmts [
               lms_run e (LMS_txtsp_set_interp LMS_CHAB intFactor),
               lms_run e (LMS_configure_lml_port LMS_PORT2 LMS_TX (intFactor div 2))]
             else xret (),
             xmod (\<lambda>d. d\<lparr>cachedRate := (cachedRate d)(direction \<mapsto> baseRate / of_int intFactor)\<rparr>)])"

definition getSampleRate :: "soapy_direction \<Rightarrow> real xm" where
  "getSampleRate direction = xat (\<lambda>d. cachedRate d direction)"

definition listSampleRates :: "soapy_direction \<Rightarrow> xtrx \<Rightarrow> real list" where
  "listSampleRates direction d =
     map (\<lambda>i. tsp_rate direction d / 2 ^ i) (rev [1..<6]) @ [30720000 / 4, 30720000 / 2, 30720000]"

definition getStreamFormats :: "string list" where
  "getStreamFormats = [''CS16'']"

section \<open>Filters\<close>

definition setBandwidth :: "xtrx_env \<Rightarrow> soapy_direction \<Rightarrow> nat \<Rightarrow> real \<Rightarrow> unit xm" where
  "setBandwidth e direction channel bw =
     (let k = (direction, channel);
          calibrate = (\<lambda>c. xbind (lms e c) (\<lambda>r.
            if lr_int r = 0
            then xbind (xmod (\<lambda>d. d\<lparr>cachedBw := (cachedBw d)(k \<mapsto> bw)\<rparr>)) (\<lambda>_. xret 0)
            else xret (lr_int r)))
      in
      xbind (xmod (\<lambda>d. d\<lparr>cachedBw := (cachedBw d)(k \<mapsto> (case cachedBw d k of None \<Rightarrow> 0 | Some v \<Rightarrow> v))\<rparr>)) (\<lambda>_.
      xbind (xget refClockRate) (\<lambda>ref.
      xbind (if direction = SOAPY_SDR_RX then calibrate (LMS_mcu_calibration_rx ref bw) else xret 0) (\<lambda>ret.
      xbind (if direction = SOAPY_SDR_TX then calibrate (LMS_mcu_calibration_tx ref bw) else xret ret) (\<lambda>ret.
        if ret \<noteq> 0 then xthrow (Bandwidth_failed ret) else xret ())))))"

definition getBandwidth :: "soapy_direction \<Rightarrow> nat \<Rightarrow> real xm" where
  "getBandwidth direction channel = xat (\<lambda>d. cachedBw d (direction, channel))"

definition listBandwidths :: "soapy_direction \<Rightarrow> real list" where
  "listBandwidths direction =
     (if direction = SOAPY_SDR_RX then
        [1400000, 3000000, 5000000, 10000000, 15000000, 20000000, 37000000, 66000000, 108000000] else [])
     @ (if direction = SOAPY_SDR_TX then
        [2400000, 2740000, 5500000, 8200000, 11000000, 18500000, 38000000, 54000000] else [])"

section \<open>Clocks\<close>

definition setMasterClockRate :: "xtrx_env \<Rightarrow> real \<Rightarrow> unit xm" where
  "setMasterClockRate e rate =
     xbind (xget refClockRate) (\<lambda>ref.
     xbind (lms e (LMS_set_data_clock ref rate)) (\<lambda>r. stmts [
       xmod (\<lambda>d. case lr_out r of None \<Rightarrow> d | Some f \<Rightarrow> d\<lparr>masterClockRate := f\<rparr>),
       if lr_int r \<noteq> 0 then xthrow Clock_failed else xret ()]))"

definition setReferenceClockRate :: "real \<Rightarrow> unit xm" where
  "setReferenceClockRate rate = xmod (\<lambda>d. d\<lparr>refClockRate := rate\<rparr>)"

definition getReferenceClockRates :: "(real \<times> real) list" where
  "getReferenceClockRates = [(25000000, 27000000)]"

definition listClockSources :: "string list" where
  "listClockSources = [''internal'', ''external'']"

definition setClockSource :: "xtrx_env \<Rightarrow> string \<Rightarrow> unit xm" where
  "setClockSource e source =
     xbind (readl e CSR_VCTCXO_CONTROL_ADDR) (\<lambda>control.
       let control = control AND NOT (push_bit CSR_VCTCXO_CONTROL_SEL_OFFSET 1) in
       if source = ''external'' then
         writel e CSR_VCTCXO_CONTROL_ADDR (control OR push_bit CSR_VCTCXO_CONTROL_SEL_OFFSET 1)
       else if source \<noteq> ''internal'' then xthrow Clock_source_invalid
       else writel e CSR_VCTCXO_CONTROL_ADDR control)"

definition getClockSource :: "xtrx_env \<Rightarrow> string xm" where
  "getClockSource e =
     xbind (readl e CSR_VCTCXO_CONTROL_ADDR) (\<lambda>v.
       xret (if v AND push_bit CSR_VCTCXO_CONTROL_SEL_OFFSET 1 \<noteq> 0 then ''external'' else ''internal''))"

section \<open>Sensors\<close>

definition listSensors :: "string list" where
  "listSensors = [''xadc_temp'', ''xadc_vccint'', ''xadc_vccaux'', ''xadc_vccbram'']"

text \<open>The two parts of a key around its first underscore, if it has one.\<close>

definition split_key :: "string \<Rightarrow> (string \<times> string) option" where
  "split_key key =
     (case dropWhile (\<lambda>c. c \<noteq> CHR ''_'') key of
        [] \<Rightarrow> None
      | u # rest \<Rightarrow> Some (takeWhile (\<lambda>c. c \<noteq> CHR ''_'') key, rest))"

record arg_info =
  info_key :: string
  info_value :: string
  info_units :: string
  info_description :: string

definition getSensorInfo :: "string \<Rightarrow> xtrx_exn + arg_info" where
  "getSensorInfo key =
     (case split_key key of
        None \<Rightarrow> Inl Unknown_sensor_key
      | Some (deviceStr, sensorStr) \<Rightarrow>
          if deviceStr \<noteq> ''xadc'' then Inl Unknown_sensor_device
          else if sensorStr = ''temp'' then
            Inr \<lparr>info_key = ''temp'', info_value = ''0.0'', info_units = ''C'', info_description = ''FPGA temperature''\<rparr>
          else if sensorStr = ''vccint'' then
            Inr \<lparr>info_key = ''vccint'', info_value = ''0.0'', info_units = ''V'',
                 info_description = ''FPGA internal supply voltage''\<rparr>
          else if sensorStr = ''vccaux'' then
            Inr \<lparr>info_key = ''vccaux'', info_value = ''0.0'', info_units = ''V'',
                 info_description = ''FPGA auxiliary supply voltage''\<rparr>
          else if sensorStr = ''vccbram'' then
            Inr \<lparr>info_key = ''vccbram'', info_value = ''0.0'', info_units = ''V'',
                 info_description = ''FPGA supply voltage for block RAM memories''\<rparr>
          else Inl Unknown_sensor)"

text \<open>The number that is printed; the six decimals of \<open>std::to_string\<close> are not modelled.\<close>

definition readSensor :: "xtrx_env \<Rightarrow> string \<Rightarrow> real xm" where
  "readSensor e key =
     (let volts = (\<lambda>a. xbind (readl e a) (\<lambda>v. xret (real (unat v) / 4096 * 3))) in
      case split_key key of
        None \<Rightarrow> xthrow Unknown_sensor_key
      | Some (deviceStr, sensorStr) \<Rightarrow>
          if deviceStr \<noteq> ''xadc'' then xthrow Unknown_sensor_device
          else if sensorStr = ''temp'' then
            xbind (readl e CSR_XADC_TEMPERATURE_ADDR) (\<lambda>v.
              xret (real (unat v) * (503975 / 1000) / 4096 - 27315 / 100))
          else if sensorStr = ''vccint'' then volts CSR_XADC_VCCINT_ADDR
          else if sensorStr = ''vccaux'' then volts CSR_XADC_VCCAUX_ADDR
          else if sensorStr = ''vccbram'' then volts CSR_XADC_VCCBRAM_ADDR
          else xthrow Unknown_sensor)"

section \<open>Registers\<close>

definition listRegisterInterfaces :: "string list" where
  "listRegisterInterfaces = [''LMS7002M'', ''LitePCI'']"

definition writeRegister :: "xtrx_env \<Rightarrow> string \<Rightarrow> u32 \<Rightarrow> u32 \<Rightarrow> unit xm" where
  "writeRegister e name addr value =
     (if name = ''LMS7002M'' then lms_run e (LMS_spi_write addr value)
      else if name = ''LitePCI'' then writel e addr value
      else xthrow Unknown_register)"

definition readRegister :: "xtrx_env \<Rightarrow> string \<Rightarrow> u32 \<Rightarrow> u32 xm" where
  "readRegister e name addr =
     (if name = ''LMS7002M'' then xbind (lms e (LMS_spi_read addr)) (\<lambda>r. xret (of_int (lr_int r)))
      else if name = ''LitePCI'' then readl e addr
      else xthrow Unknown_register)"

text \<open>The overloads without a name go to the chip.\<close>

definition writeRegister_chip :: "xtrx_env \<Rightarrow> u32 \<Rightarrow> u32 \<Rightarrow> unit xm" where
  "writeRegister_chip e addr value = lms_run e (LMS_spi_write addr value)"

definition readRegister_chip :: "xtrx_env \<Rightarrow> u32 \<Rightarrow> u32 xm" where
  "readRegister_chip e addr = xbind (lms e (LMS_spi_read addr)) (\<lambda>r. xret (of_int (lr_int r)))"

section \<open>Constant answers\<close>

definition getMasterClockRate :: "real xm" where "getMasterClockRate = xget masterClockRate"
definition getReferenceClockRate :: "real xm" where "getReferenceClockRate = xget refClockRate"
definition getDriverKey :: string where "getDriverKey = ''XTRX over LitePCIe''"
definition getHardwareKey :: string where "getHardwareKey = ''Fairwaves XTRX''"
definition getNumChannels :: "soapy_direction \<Rightarrow> nat" where "getNumChannels direction = 2"
definition getFullDuplex :: "soapy_direction \<Rightarrow> nat \<Rightarrow> bool" where "getFullDuplex direction channel = True"
definition getNativeStreamFormat :: "soapy_direction \<Rightarrow> nat \<Rightarrow> string \<times> real" where
  "getNativeStreamFormat direction channel = (''CS16'', 4096)"
definition hasIQBalance :: "soapy_direction \<Rightarrow> nat \<Rightarrow> bool" where "hasIQBalance direction channel = True"

end
