(* ===== verification/Soapy_Settings.thy ===== *)
theory Soapy_Settings
  imports Soapy_Device
begin

text \<open>
  Settings and life of the SoapySDR device (\<open>XTRXDevice.cpp\<close>): the string interface to the
  FPGA registers and the chip's test modes, construction, destruction, and the search for boards.
\<close>

section \<open>Fields of FPGA registers\<close>

text \<open>The flags of the control registers: one bit, with its two names.\<close>

definition write_flag :: "xtrx_env \<Rightarrow> u32 \<Rightarrow> nat \<Rightarrow> string \<Rightarrow> string \<Rightarrow> string \<Rightarrow> unit xm" where
  "write_flag e addr offset on off value =
     xbind (readl e addr) (\<lambda>control.
       let control = control AND NOT (push_bit offset 1) in
       if value = on then writel e addr (control OR push_bit offset 1)
       else if value \<noteq> off then xthrow Unknown_value
       else writel e addr control)"

definition read_flag :: "xtrx_env \<Rightarrow> u32 \<Rightarrow> nat \<Rightarrow> string \<Rightarrow> string \<Rightarrow> string xm" where
  "read_flag e addr offset on off =
     xbind (readl e addr) (\<lambda>control.
       let control = control AND push_bit offset 1 in xret (if control \<noteq> 0 then on else off))"

definition write_delay :: "xtrx_env \<Rightarrow> nat \<Rightarrow> nat \<Rightarrow> string \<Rightarrow> unit xm" where
  "write_delay e offset width value =
     xbind (xstoi value) (\<lambda>delay.
       if delay < 0 \<or> delay > 31 then xthrow Invalid_value else
       xbind (readl e CSR_LMS7002M_DELAY_ADDR) (\<lambda>reg.
         let mask = push_bit offset (push_bit width 1 - 1) in
         writel e CSR_LMS7002M_DELAY_ADDR ((reg AND NOT mask) OR push_bit offset (of_int delay))))"

definition read_delay :: "xtrx_env \<Rightarrow> nat \<Rightarrow> nat \<Rightarrow> string xm" where
  "read_delay e offset width =
     xbind (readl e CSR_LMS7002M_DELAY_ADDR) (\<lambda>reg.
       let mask = push_bit width 1 - 1; delay = drop_bit offset reg AND mask
       in xret (to_string (int (unat delay))))"

definition dma_set_loopback :: "xtrx_env \<Rightarrow> bool \<Rightarrow> unit xm" where
  "dma_set_loopback e loopback_enable =
     xfd (\<lambda>fd. lbind (checked_ioctl (xe_lib e) (IOCTL_DMA (if loopback_enable then 1 else 0)) fd)
       (\<lambda>(m, fd). Done ((), fd)))"

definition dma_init_cpu :: "xtrx_env \<Rightarrow> unit xm" where
  "dma_init_cpu e =
     xfd (\<lambda>fd. lbind (checked_ioctl (xe_lib e) IOCTL_DMA_INIT fd) (\<lambda>(m, fd). Done ((), fd)))"

section \<open>Reading and writing settings\<close>

definition dma_buffers_text :: "soapy \<Rightarrow> string" where
  "dma_buffers_text d =
     (let n = (\<lambda>w. to_string (sint w)); rx = rx_stream d; tx = tx_stream d in
      ''RX hw count: '' @ n (st_hw rx) @ '' RX sw count: '' @ n (st_sw rx) @ '' RX user count: '' @ n (st_user rx)
      @ '' TX hw count: '' @ n (st_hw tx) @ '' TX sw count: '' @ n (st_sw tx) @ '' TX user count: '' @ n (st_user tx))"

definition readSetting :: "xtrx_env \<Rightarrow> string \<Rightarrow> string xm" where
  "readSetting e key =
     (if key = ''FPGA_TX_RX_LOOPBACK_ENABLE'' then
        read_flag e CSR_LMS7002M_CONTROL_ADDR CSR_LMS7002M_CONTROL_TX_RX_LOOPBACK_ENABLE_OFFSET ''TRUE'' ''FALSE''
      else if key = ''FPGA_TX_PATTERN'' then
        read_flag e CSR_LMS7002M_TX_PATTERN_CONTROL_ADDR CSR_LMS7002M_TX_PATTERN_CONTROL_ENABLE_OFFSET ''1'' ''0''
      else if key = ''FPGA_RX_PATTERN'' then
        read_flag e CSR_LMS7002M_RX_PATTERN_CONTROL_ADDR CSR_LMS7002M_RX_PATTERN_CONTROL_ENABLE_OFFSET ''1'' ''0''
      else if key = ''FPGA_RX_PATTERN_ERRORS'' then
        xbind (readl e CSR_LMS7002M_RX_PATTERN_ERRORS_ADDR) (\<lambda>v. xret (to_string (int (unat v))))
      else if key = ''FPGA_TX_DELAY'' then
        read_delay e CSR_LMS7002M_DELAY_TX_DELAY_OFFSET CSR_LMS7002M_DELAY_TX_DELAY_SIZE
      else if key = ''FPGA_RX_DELAY'' then
        read_delay e CSR_LMS7002M_DELAY_RX_DELAY_OFFSET CSR_LMS7002M_DELAY_RX_DELAY_SIZE
      else if key = ''DMA_BUFFERS'' then xget (\<lambda>d. dma_buffers_text (sdr d))
      else xthrow Unknown_key)"

definition tbb_lb_of :: "string \<Rightarrow> tbb_lb option" where
  "tbb_lb_of value =
     (if value = ''LB_DISCONNECTED'' then Some TBB_LB_DISCONNECTED
      else if value = ''LB_DAC_CURRENT'' then Some TBB_LB_DAC_CURRENT
      else if value = ''LB_LB_LADDER'' then Some TBB_LB_LB_LADDER
      else if value = ''LB_MAIN_TBB'' then Some TBB_LB_MAIN_TBB
      else None)"

definition tbb_path_of :: "string \<Rightarrow> tbb_path option" where
  "tbb_path_of value =
     (if value = ''TBB_BYP'' then Some TBB_BYP
      else if value = ''TBB_S5'' then Some TBB_S5
      else if value = ''TBB_LAD'' then Some TBB_LAD
      else if value = ''TBB_LBF'' then Some TBB_LBF
      else if value = ''TBB_HBF'' then Some TBB_HBF
      else None)"

definition rbb_path_of :: "string \<Rightarrow> rbb_path option" where
  "rbb_path_of value =
     (if value = ''BYP'' then Some RBB_BYP
      else if value = ''LBF'' then Some RBB_LBF
      else if value = ''HBF'' then Some RBB_HBF
      else if value = ''LB_BYP'' then Some RBB_LB_BYP
      else if value = ''LB_LBF'' then Some RBB_LB_LBF
      else if value = ''LB_HBF'' then Some RBB_LB_HBF
      else if value = ''PDET'' then Some RBB_PDET
      else None)"

definition run_path :: "xtrx_env \<Rightarrow> ('p \<Rightarrow> lms_call) \<Rightarrow> 'p option \<Rightarrow> unit xm" where
  "run_path e c path = (case path of None \<Rightarrow> xthrow Unknown_value | Some p \<Rightarrow> lms_run e (c p))"

text \<open>The digital loopbacks of the chip: switching one off restores the data ports.\<close>

definition chip_loopback :: "xtrx_env \<Rightarrow> lms_call \<Rightarrow> string \<Rightarrow> unit xm" where
  "chip_loopback e setup value =
     (if value = ''TRUE'' then lms_run e setup
      else if value = ''FALSE'' then stmts [
        lms_run e (LMS_configure_lml_port LMS_PORT2 LMS_TX 1),
        lms_run e (LMS_configure_lml_port LMS_PORT1 LMS_RX 1)]
      else xthrow Unknown_value)"

text \<open>The keys that program the chip; \<open>None\<close> for a key of the FPGA or an unknown one.\<close>

definition write_chip_setting :: "xtrx_env \<Rightarrow> string \<Rightarrow> string \<Rightarrow> unit xm option" where
  "write_chip_setting e key value =
     (let enable = (value = ''TRUE'') in
      if key = ''RXTSP_ENABLE'' then Some (lms_run e (LMS_rxtsp_enable LMS_CHAB enable))
      else if key = ''TXTSP_ENABLE'' then Some (lms_run e (LMS_txtsp_enable LMS_CHAB enable))
      else if key = ''RBB_ENABLE'' then Some (lms_run e (LMS_rbb_enable LMS_CHAB enable))
      else if key = ''TBB_ENABLE'' then Some (lms_run e (LMS_tbb_enable LMS_CHAB enable))
      else if key = ''TRF_ENABLE_LOOPBACK'' then Some (lms_run e (LMS_trf_enable_loopback LMS_CHAB enable))
      else if key = ''RXTSP_TSG_CONST'' then
        Some (xbind (xstoi value) (\<lambda>ampl. lms_run e (LMS_rxtsp_tsg_const LMS_CHAB ampl 0)))
      else if key = ''TXTSP_TSG_CONST'' then
        Some (xbind (xstoi value) (\<lambda>ampl. lms_run e (LMS_txtsp_tsg_const LMS_CHAB ampl 0)))
      else if key = ''TBB_ENABLE_LOOPBACK'' then
        Some (run_path e (\<lambda>p. LMS_tbb_enable_loopback LMS_CHAB p False) (tbb_lb_of value))
      else if key = ''TBB_SET_PATH'' then Some (run_path e (LMS_tbb_set_path LMS_CHAB) (tbb_path_of value))
      else if key = ''RBB_SET_PATH'' then Some (run_path e (LMS_rbb_set_path LMS_CHAB) (rbb_path_of value))
      else if key = ''LOOPBACK_ENABLE'' then Some (chip_loopback e LMS_setup_digital_loopback value)
      else if key = ''LOOPBACK_ENABLE_LFSR'' then Some (chip_loopback e LMS_setup_digital_loopback_lfsr value)
      else if key = ''RESET_RX_FIFO'' then Some (lms_run e (LMS_reset_lml_fifo LMS_RX))
      else if key = ''DUMP_INI'' then Some (lms_run e (LMS_dump_ini value))
      else if key = ''RXTSP_TONE'' then
        Some (xbind (xstoi value) (\<lambda>n. lms_run e (LMS_rxtsp_tsg_tone_div LMS_CHAB n)))
      else if key = ''TXTSP_TONE'' then
        Some (xbind (xstoi value) (\<lambda>n. lms_run e (LMS_txtsp_tsg_tone_div LMS_CHAB n)))
      else None)"

definition writeSetting :: "xtrx_env \<Rightarrow> string \<Rightarrow> string \<Rightarrow> unit xm" where
  "writeSetting e key value =
     (case write_chip_setting e key value of
        Some m \<Rightarrow> m
      | None \<Rightarrow>
          if key = ''FPGA_TX_RX_LOOPBACK_ENABLE'' then
            write_flag e CSR_LMS7002M_CONTROL_ADDR CSR_LMS7002M_CONTROL_TX_RX_LOOPBACK_ENABLE_OFFSET ''TRUE'' ''FALSE'' value
          else if key = ''FPGA_DMA_LOOPBACK_ENABLE'' then
            (if value = ''TRUE'' then dma_set_loopback e True
             else if value = ''FALSE'' then dma_set_loopback e False
             else xthrow Unknown_value)
          else if key = ''FPGA_TX_PATTERN'' then
            write_flag e CSR_LMS7002M_TX_PATTERN_CONTROL_ADDR CSR_LMS7002M_TX_PATTERN_CONTROL_ENABLE_OFFSET ''1'' ''0'' value
          else if key = ''FPGA_RX_PATTERN'' then
            write_flag e CSR_LMS7002M_RX_PATTERN_CONTROL_ADDR CSR_LMS7002M_RX_PATTERN_CONTROL_ENABLE_OFFSET ''1'' ''0'' value
          else if key = ''FPGA_TX_DELAY'' then
            write_delay e CSR_LMS7002M_DELAY_TX_DELAY_OFFSET CSR_LMS7002M_DELAY_TX_DELAY_SIZE value
          else if key = ''FPGA_RX_DELAY'' then
            write_delay e CSR_LMS7002M_DELAY_RX_DELAY_OFFSET CSR_LMS7002M_DELAY_RX_DELAY_SIZE value
          else xthrow Unknown_key)"

section \<open>Identification\<close>

fun read_words :: "lib_env \<Rightarrow> u32 list \<Rightarrow> fd \<Rightarrow> (u32 list \<times> fd) lib_result" where
  "read_words le [] fd = Done ([], fd)"
| "read_words le (a # as) fd = lbind (litepcie_readl_u le a fd) (\<lambda>(v, fd).
     lbind (read_words le as fd) (\<lambda>(vs, fd). Done (v # vs, fd)))"

text \<open>
  The identification is the low bytes of 256 words up to the first zero; without a zero among them
  the constructor of the string runs over the end of the array (\<open>None\<close>).
\<close>

definition getXTRXIdentification :: "lib_env \<Rightarrow> fd \<Rightarrow> (string option \<times> fd) lib_result" where
  "getXTRXIdentification le fd =
     lbind (read_words le (map (\<lambda>i. CSR_IDENTIFIER_MEM_BASE + of_nat (4 * i)) [0..<256]) fd) (\<lambda>(ws, fd).
       let fpga_identification = map (\<lambda>w. char_of (unat w) :: char) ws
       in Done (if CHR 0x00 \<in> set fpga_identification
                then Some (takeWhile (\<lambda>c. c \<noteq> CHR 0x00) fpga_identification) else None, fd))"

definition getXTRXSerial :: "lib_env \<Rightarrow> fd \<Rightarrow> (string \<times> fd) lib_result" where
  "getXTRXSerial le fd =
     lbind (litepcie_readl_u le CSR_DNA_ID_ADDR fd) (\<lambda>(hi, fd).
     lbind (litepcie_readl_u le (CSR_DNA_ID_ADDR + 4) fd) (\<lambda>(lo, fd).
       Done (hex 0 hi @ hex 8 lo, fd)))"

definition getHardwareInfo :: "xtrx_env \<Rightarrow> (string \<Rightarrow> string option) xm" where
  "getHardwareInfo e =
     xbind (xfd (getXTRXIdentification (xe_lib e))) (\<lambda>r. case r of
       None \<Rightarrow> xthrow Undefined_behaviour
     | Some s \<Rightarrow> xret [''identification'' \<mapsto> s])"

section \<open>Construction\<close>

type_synonym kwargs = "string \<Rightarrow> string option"

definition both :: "(lms_chan \<Rightarrow> lms_call) \<Rightarrow> lms_call list" where
  "both c = [c LMS_CHA, c LMS_CHB]"

definition enable_components :: "lms_call list" where
  "enable_components =
     both (\<lambda>ch. LMS_afe_enable LMS_TX ch True) @ both (\<lambda>ch. LMS_afe_enable LMS_RX ch True)
     @ both (\<lambda>ch. LMS_rxtsp_enable ch True) @ both (\<lambda>ch. LMS_txtsp_enable ch True)
     @ both (\<lambda>ch. LMS_rbb_enable ch True) @ both (\<lambda>ch. LMS_tbb_enable ch True)
     @ both (\<lambda>ch. LMS_rfe_enable ch True) @ both (\<lambda>ch. LMS_trf_enable ch True)
     @ [LMS_sxx_enable LMS_RX True, LMS_sxx_enable LMS_TX True,
        LMS_ldo_enable True, LMS_xbuf_share_tx True]"

definition reset_fpga :: "xtrx_env \<Rightarrow> unit xm" where
  "reset_fpga e = stmts [
     writel e CSR_LMS7002M_CONTROL_ADDR (push_bit CSR_LMS7002M_CONTROL_RESET_OFFSET 1),
     writel e CSR_LMS7002M_CONTROL_ADDR 0,
     writel e CSR_LMS7002M_CONTROL_ADDR
       (push_bit CSR_LMS7002M_CONTROL_TX_ENABLE_OFFSET 1 OR push_bit CSR_LMS7002M_CONTROL_RX_ENABLE_OFFSET 1),
     writeSetting e ''FPGA_DMA_LOOPBACK_ENABLE'' ''TRUE'',
     writeSetting e ''FPGA_TX_PATTERN'' ''1'',
     writeSetting e ''FPGA_RX_PATTERN'' ''1'',
     writeSetting e ''FPGA_RX_DELAY'' ''16'',
     writeSetting e ''FPGA_TX_DELAY'' ''16'']"

definition channel_defaults :: "xtrx_env \<Rightarrow> nat \<Rightarrow> unit xm" where
  "channel_defaults e i = stmts [
     xmod (\<lambda>d. d\<lparr>cachedFreq := (cachedFreq d)((SOAPY_SDR_RX, i, ''RF'') \<mapsto> 1000000000,
       (SOAPY_SDR_TX, i, ''RF'') \<mapsto> 1000000000, (SOAPY_SDR_RX, i, ''BB'') \<mapsto> 0, (SOAPY_SDR_TX, i, ''BB'') \<mapsto> 0)\<rparr>),
     setAntenna e SOAPY_SDR_RX i ''LNAW'',
     setAntenna e SOAPY_SDR_TX i ''BAND1'',
     setGain e SOAPY_SDR_RX i ''LNA'' 30,
     setGain e SOAPY_SDR_RX i ''TIA'' 9,
     setGain e SOAPY_SDR_RX i ''PGA'' 6,
     setGain e SOAPY_SDR_TX i ''PAD'' 0,
     xmod (\<lambda>d. d\<lparr>cachedBw := (cachedBw d)((SOAPY_SDR_RX, i) \<mapsto> 10000000, (SOAPY_SDR_TX, i) \<mapsto> 10000000)\<rparr>),
     setIQBalance e SOAPY_SDR_RX i 1,
     setIQBalance e SOAPY_SDR_TX i 1]"

text \<open>The body of the constructor once the device node is open.\<close>

definition xtrx_setup :: "xtrx_env \<Rightarrow> kwargs \<Rightarrow> unit xm" where
  "xtrx_setup e args = stmts ([
     xbind (xfd (getXTRXSerial (xe_lib e))) (\<lambda>_. xret ()),
     reset_fpga e,
     if \<not> lms_create_ok e then xthrow Create_failed else xret (),
     lms_run e LMS_reset,
     lms_run e (LMS_set_spi_mode 4),
     lms_run e (LMS_regs_spi_read 0x2f),
     setClockSource e ''internal'',
     lms_run e (LMS_configure_lml_port LMS_PORT2 LMS_TX 1),
     lms_run e (LMS_configure_lml_port LMS_PORT1 LMS_RX 1)]
     @ map (lms_run e) enable_components @ [
     setMasterClockRate e 122880000,
     xmod (\<lambda>d. d\<lparr>cachedRate := (cachedRate d)(SOAPY_SDR_RX \<mapsto> 1000000, SOAPY_SDR_TX \<mapsto> 1000000)\<rparr>),
     channel_defaults e 0,
     channel_defaults e 1,
     xbind (xfd (checked_ioctl (xe_lib e) IOCTL_MMAP_DMA_INFO)) (\<lambda>m. case m of
       InfoReply i \<Rightarrow> xmod (\<lambda>d. d\<lparr>sdr := (sdr d)\<lparr>dma_info := i\<rparr>\<rparr>) | _ \<Rightarrow> xret ()),
     dma_init_cpu e,
     case args ''ini'' of
       None \<Rightarrow> xret ()
     | Some path \<Rightarrow> xbind (lms e (LMS_load_ini path)) (\<lambda>r.
         if lr_int r \<noteq> 0 then xthrow Ini_failed else xret ())])"

text \<open>
  The object before the body runs. The member \<open>_rxDCOffsetMode\<close> and the geometry of the rings are not
  initialised; they are arguments here.
\<close>

definition fresh_xtrx :: "bool \<Rightarrow> litepcie_ioctl_mmap_dma_info \<Rightarrow> xtrx" where
  "fresh_xtrx dc info = \<lparr>sdr = \<lparr>rx_stream = fresh_stream, tx_stream = fresh_stream, dma_info = info\<rparr>,
     lms_log = [], masterClockRate = 1000000, refClockRate = 26000000, rxDCOffsetMode = dc, txDCOffset = 0,
     cachedAnt = (\<lambda>_. None), cachedIqBal = (\<lambda>_. None), cachedGain = (\<lambda>_. None), cachedFreq = (\<lambda>_. None),
     cachedRate = (\<lambda>_. None), cachedBw = (\<lambda>_. None)\<rparr>"

text \<open>
  The constructor: an exception leaves no object, and since no destructor runs then, the file stays
  open if it was opened.
\<close>

definition SoapyLiteXXTRX :: "xtrx_env \<Rightarrow> kwargs \<Rightarrow> xtrx \<Rightarrow> nat \<Rightarrow> kstate
    \<Rightarrow> ((xtrx_exn + xtrx) \<times> litepcie_chan_priv option \<times> kstate) lib_result" where
  "SoapyLiteXXTRX e args d ci s =
     (if args ''path'' = None then Done (Inl No_device, None, s)
      else if open_ret (xe_lib e) < 0 then Done (Inl Open_failed, None, s)
      else case litepcie_open True ci s of (r, fo, s) \<Rightarrow>
        lbind (xtrx_setup e args (d, (the fo, s))) (\<lambda>(r, d, f, s).
          Done (case r of Inl x \<Rightarrow> Inl x | Inr _ \<Rightarrow> Inr d, Some f, s)))"

definition power_down_calls :: "lms_call list" where
  "power_down_calls = [
     LMS_afe_enable LMS_TX LMS_CHA False, LMS_afe_enable LMS_TX LMS_CHB False,
     LMS_afe_enable LMS_RX LMS_CHA False, LMS_afe_enable LMS_RX LMS_CHB False,
     LMS_rxtsp_enable LMS_CHAB False, LMS_txtsp_enable LMS_CHAB False,
     LMS_rbb_enable LMS_CHAB False, LMS_tbb_enable LMS_CHAB False,
     LMS_rfe_enable LMS_CHAB False, LMS_trf_enable LMS_CHAB False,
     LMS_sxx_enable LMS_RX False, LMS_sxx_enable LMS_TX False,
     LMS_xbuf_share_tx False, LMS_ldo_enable False, LMS_power_down, LMS_destroy]"

definition xtrx_teardown :: "xtrx_env \<Rightarrow> unit xm" where
  "xtrx_teardown e =
     xbind (xget sdr) (\<lambda>d. stmts ([
       if st_opened (rx_stream d) then stmts [
         xfd (\<lambda>fd. lbind (litepcie_release_dma (xe_lib e) 0 1 fd) (\<lambda>fd. Done ((), fd))),
         xmod (\<lambda>x. x\<lparr>sdr := set_rx (\<lambda>t. t\<lparr>st_opened := False\<rparr>) (sdr x)\<rparr>)] else xret (),
       if st_opened (tx_stream d) then stmts [
         xfd (\<lambda>fd. lbind (litepcie_release_dma (xe_lib e) 1 0 fd) (\<lambda>fd. Done ((), fd))),
         xmod (\<lambda>x. x\<lparr>sdr := set_tx (\<lambda>t. t\<lparr>st_opened := False\<rparr>) (sdr x)\<rparr>)] else xret ()]
       @ map (lms_run e) power_down_calls))"

text \<open>The destructor: the teardown, then \<open>close\<close> reaches the release operation of the driver.\<close>

definition destroy_xtrx :: "xtrx_env \<Rightarrow> xtrx \<Rightarrow> fd \<Rightarrow> (xtrx \<times> kstate) lib_result" where
  "destroy_xtrx e d fd =
     lbind (xtrx_teardown e (d, fd)) (\<lambda>(_, d, fd).
       case litepcie_release (le_k (xe_lib e)) (fst fd) (snd fd) of
         Ret r s \<Rightarrow> Done (d, s)
       | Sleep \<Rightarrow> Block
       | Oops x \<Rightarrow> Fault x)"

section \<open>Finding boards\<close>

fun contains :: "string \<Rightarrow> string \<Rightarrow> bool" where
  "contains pat [] \<longleftrightarrow> pat = []"
| "contains pat (c # cs) \<longleftrightarrow> take (length pat) (c # cs) = pat \<or> contains pat cs"

definition XTRX_IDENT :: string where
  "XTRX_IDENT = ''LiteX SoC on Fairwaves XTRX''"

definition node_path :: "nat \<Rightarrow> string" where
  "node_path i = ''/dev/litepcie'' @ to_string (int i)"

datatype 'a found = Found 'a | Find_exn xtrx_exn

text \<open>
  The loop over the ten device nodes. \<open>node\<close> gives the open file of a node that can be opened. The
  result has the boards found and the descriptors that are still open afterwards: the one of a node
  that is not an XTRX is not closed.
\<close>

fun find_nodes :: "lib_env \<Rightarrow> (string \<Rightarrow> fd option) \<Rightarrow> kwargs \<Rightarrow> nat list
    \<Rightarrow> ((kwargs list \<times> string list) option) lib_result" where
  "find_nodes le node args [] = Done (Some ([], []))"
| "find_nodes le node args (i # is) =
     (case node (node_path i) of
        None \<Rightarrow> find_nodes le node args is
      | Some fd \<Rightarrow>
          lbind (getXTRXIdentification le fd) (\<lambda>(ident, fd).
            case ident of
              None \<Rightarrow> Done None
            | Some fpga_identification \<Rightarrow>
                if contains XTRX_IDENT fpga_identification then
                  lbind (getXTRXSerial le fd) (\<lambda>(serial, fd).
                    let dev = args(''path'' \<mapsto> node_path i, ''serial'' \<mapsto> serial,
                                   ''identification'' \<mapsto> fpga_identification)
                    in lbind (find_nodes le node args is) (\<lambda>r.
                         Done (map_option (\<lambda>(found, opened).
                           (if args ''serial'' \<noteq> None \<and> args ''serial'' \<noteq> dev ''serial''
                            then found else dev # found, opened)) r)))
                else lbind (find_nodes le node args is) (\<lambda>r.
                       Done (map_option (\<lambda>(found, opened). (found, node_path i # opened)) r))))"

definition findXTRX :: "lib_env \<Rightarrow> (string \<Rightarrow> fd option) \<Rightarrow> kwargs
    \<Rightarrow> ((kwargs list \<times> string list) found) lib_result" where
  "findXTRX le node args =
     (case args ''path'' of
        Some path \<Rightarrow>
          (case node path of
             None \<Rightarrow> Done (Find_exn Open_failed)
           | Some fd \<Rightarrow>
               lbind (getXTRXSerial le fd) (\<lambda>(serial, fd).
               lbind (getXTRXIdentification le fd) (\<lambda>(ident, fd).
                 case ident of
                   None \<Rightarrow> Done (Find_exn Undefined_behaviour)
                 | Some s \<Rightarrow> Done (Found ([args(''serial'' \<mapsto> serial, ''identification'' \<mapsto> s)], [])))))
      | None \<Rightarrow>
          lbind (find_nodes le node args [0..<10]) (\<lambda>r.
            Done (case r of None \<Rightarrow> Find_exn Undefined_behaviour | Some x \<Rightarrow> Found x)))"

end
