(* ===== verification/Soapy_Control.thy ===== *)
theory Soapy_Control
  imports Soapy_Settings
begin

text \<open>
  Facts on the device control of the SoapySDR plugin: a calculus of total triples for methods that
  return, the contents of the FPGA's storage registers as the last write in the driver's access
  history, the settings as a map, sample rates, antennas, construction, and the search.
\<close>

section \<open>Methods that return\<close>

text \<open>The method returns from such a state, and the result and the new state satisfy the post-condition.\<close>

definition returns :: "(xtrx \<times> fd \<Rightarrow> bool) \<Rightarrow> 'a xm \<Rightarrow> ('a \<Rightarrow> xtrx \<times> fd \<Rightarrow> bool) \<Rightarrow> bool" where
  "returns P m Q \<longleftrightarrow> (\<forall>s. P s \<longrightarrow> (\<exists>r s'. m s = Done (Inr r, s') \<and> Q r s'))"

lemma returnsD: "returns P m Q \<Longrightarrow> P s \<Longrightarrow> \<exists>r s'. m s = Done (Inr r, s') \<and> Q r s'"
  unfolding returns_def by blast

lemma returns_xret: "(\<And>s. P s \<Longrightarrow> Q a s) \<Longrightarrow> returns P (xret a) Q"
  by (simp add: returns_def xret_def)

lemma returns_xbind:
  assumes "returns P m Q" and "\<And>r. returns (Q r) (f r) R"
  shows "returns P (xbind m f) R"
  unfolding returns_def
proof (intro allI impI)
  fix s assume "P s"
  then obtain r s' where "m s = Done (Inr r, s')" "Q r s'" using returnsD [OF assms(1)] by blast
  then show "\<exists>r s'. xbind m f s = Done (Inr r, s') \<and> R r s'"
    using returnsD [OF assms(2) [of r], of s'] by (auto simp: xbind_def)
qed

lemma returns_stmts_Nil: "returns P (stmts []) (\<lambda>_. P)"
  by (simp add: returns_xret)

lemma returns_stmts_Cons:
  "returns P m (\<lambda>_. Q) \<Longrightarrow> returns Q (stmts ms) R \<Longrightarrow> returns P (stmts (m # ms)) R"
  by (simp add: returns_xbind)

lemma returns_stmts_same:
  "(\<And>m. m \<in> set ms \<Longrightarrow> returns P m (\<lambda>_. P)) \<Longrightarrow> returns P (stmts ms) (\<lambda>_. P)"
  by (induction ms) (auto intro: returns_stmts_Nil [simplified] returns_xbind)

lemma stmts_append: "stmts (ms @ ns) = xbind (stmts ms) (\<lambda>_. stmts ns)"
  by (induction ms) (auto simp: xbind_def xret_def fun_eq_iff lbind_def split: lib_result.splits sum.splits)

lemma returns_stmts_append:
  "returns P (stmts ms) (\<lambda>_. Q) \<Longrightarrow> returns Q (stmts ns) R \<Longrightarrow> returns P (stmts (ms @ ns)) R"
  by (simp add: stmts_append returns_xbind)

lemma returns_weaken:
  "returns P m Q \<Longrightarrow> (\<And>s. P' s \<Longrightarrow> P s) \<Longrightarrow> (\<And>r s. Q r s \<Longrightarrow> Q' r s) \<Longrightarrow> returns P' m Q'"
  unfolding returns_def by meson

section \<open>Contents of registers\<close>

fun reg_value :: "u64 \<Rightarrow> u32 \<Rightarrow> mmio_event list \<Rightarrow> u32" where
  "reg_value a v [] = v"
| "reg_value a v (MWrite b w # h) = reg_value a (if b = a then w else v) h"
| "reg_value a v (_ # h) = reg_value a v h"

lemma reg_value_append [simp]: "reg_value a v (h @ h') = reg_value a (reg_value a v h) h'"
  by (induction a v h rule: reg_value.induct) auto

text \<open>The registers that keep what is written into them.\<close>

definition storage_regs :: "u32 list" where
  "storage_regs = [CSR_LMS7002M_CONTROL_ADDR, CSR_LMS7002M_TX_PATTERN_CONTROL_ADDR,
     CSR_LMS7002M_RX_PATTERN_CONTROL_ADDR, CSR_LMS7002M_DELAY_ADDR, CSR_VCTCXO_CONTROL_ADDR]"

definition reg :: "(u32 \<Rightarrow> u32) \<Rightarrow> kstate \<Rightarrow> u32 \<Rightarrow> u32" where
  "reg init s a = reg_value (bar_offset a) (init a) (mmio s)"

definition stored :: "xtrx_env \<Rightarrow> (u32 \<Rightarrow> u32) \<Rightarrow> bool" where
  "stored e init \<longleftrightarrow> (\<forall>a \<in> set storage_regs. \<forall>h.
     dev_read (le_k (xe_lib e)) h (bar_offset a) = reg_value (bar_offset a) (init a) h)"

definition ready :: "xtrx_env \<Rightarrow> fd \<Rightarrow> bool" where
  "ready e fd \<longleftrightarrow> chan_ready (priv_chan (fst fd)) (snd fd) \<and> from_ok (le_arg (xe_lib e)) \<and> to_ok (le_arg (xe_lib e))"

lemma bar_offset_eq [simp]: "bar_offset a = bar_offset b \<longleftrightarrow> a = b"
  by (simp add: bar_offset_def)

lemma reg_writel [simp]: "reg init (litepcie_writel a v s) b = (if b = a then v else reg init s b)"
  by (simp add: reg_def)

lemma reg_readl [simp]: "reg init (snd (litepcie_readl k a s)) b = reg init s b"
  by (simp add: reg_def)

lemma readl_run:
  assumes "ready e (f, s)"
  shows "readl e a (d, f, s) = Done (Inr (fst (litepcie_readl (le_k (xe_lib e)) a s)),
    d, f, snd (litepcie_readl (le_k (xe_lib e)) a s))"
  using assms lib_readl_writel(1) [of "(f, s)" "xe_lib e" a]
  by (simp add: ready_def readl_def xfd_def)

lemma writel_run:
  assumes "ready e (f, s)"
  shows "writel e a v (d, f, s) = Done (Inr (), d, f, litepcie_writel a v s)"
  using assms lib_readl_writel(2) [of "(f, s)" "xe_lib e" a v]
  by (simp add: ready_def writel_def xfd_def)

lemma ready_steps [simp]:
  "ready e (f, litepcie_writel a v s) \<longleftrightarrow> ready e (f, s)"
  "ready e (f, snd (litepcie_readl k a s)) \<longleftrightarrow> ready e (f, s)"
  by (simp_all add: ready_def chan_ready_def)

section \<open>Settings as a map\<close>

text \<open>What each FPGA setting says of the registers, and the values it takes.\<close>

definition setting_text :: "(u32 \<Rightarrow> u32) \<Rightarrow> string \<Rightarrow> string option" where
  "setting_text R key =
     (if key = ''FPGA_TX_RX_LOOPBACK_ENABLE'' then
        Some (if bit (R CSR_LMS7002M_CONTROL_ADDR) 16 then ''TRUE'' else ''FALSE'')
      else if key = ''FPGA_TX_PATTERN'' then
        Some (if bit (R CSR_LMS7002M_TX_PATTERN_CONTROL_ADDR) 0 then ''1'' else ''0'')
      else if key = ''FPGA_RX_PATTERN'' then
        Some (if bit (R CSR_LMS7002M_RX_PATTERN_CONTROL_ADDR) 0 then ''1'' else ''0'')
      else if key = ''FPGA_TX_DELAY'' then
        Some (to_string (int (unat (take_bit 5 (R CSR_LMS7002M_DELAY_ADDR)))))
      else if key = ''FPGA_RX_DELAY'' then
        Some (to_string (int (unat (take_bit 5 (drop_bit 8 (R CSR_LMS7002M_DELAY_ADDR))))))
      else None)"

definition setting_values :: "string \<Rightarrow> string list" where
  "setting_values key =
     (if key = ''FPGA_TX_RX_LOOPBACK_ENABLE'' then [''TRUE'', ''FALSE'']
      else if key = ''FPGA_TX_PATTERN'' \<or> key = ''FPGA_RX_PATTERN'' then [''1'', ''0'']
      else if key = ''FPGA_TX_DELAY'' \<or> key = ''FPGA_RX_DELAY'' then map (\<lambda>n. to_string (int n)) [0..<32]
      else [])"

lemma readl_stored:
  assumes "ready e (f, s)" "stored e init" "a \<in> set storage_regs"
  shows "readl e a (d, f, s) = Done (Inr (reg init s a), d, f, snd (litepcie_readl (le_k (xe_lib e)) a s))"
  using assms by (simp add: readl_run stored_def reg_def)

lemma read_flag_run:
  assumes "ready e (f, s)" "stored e init" "a \<in> set storage_regs"
  shows "\<exists>s'. read_flag e a n on off (d, f, s) = Done (Inr (if bit (reg init s a) n then on else off), d, f, s')
    \<and> reg init s' = reg init s \<and> ready e (f, s')"
  using assms
  by (auto simp: read_flag_def xbind_def readl_stored xret_def Let_def and_exp_eq_0_iff_not_bit fun_eq_iff)

lemma write_flag_run:
  assumes "ready e (f, s)" "stored e init" "a \<in> set storage_regs" "v = on \<or> v = off" "on \<noteq> off"
  shows "\<exists>s'. write_flag e a n on off v (d, f, s) = Done (Inr (), d, f, s')
    \<and> reg init s' = (reg init s)(a := if v = on then (reg init s a AND NOT (push_bit n 1)) OR push_bit n 1
                                     else reg init s a AND NOT (push_bit n 1))
    \<and> ready e (f, s')"
  using assms
  by (auto simp: write_flag_def xbind_def readl_stored writel_run Let_def fun_eq_iff)

lemma write_flag_rejects:
  assumes "ready e (f, s)" "v \<noteq> on" "v \<noteq> off"
  shows "\<exists>s'. write_flag e a n on off v (d, f, s) = Done (Inl Unknown_value, d, f, s') \<and> reg init s' = reg init s"
  using assms
  by (auto simp: write_flag_def xbind_def readl_run xthrow_def Let_def fun_eq_iff)

lemma delay_reg_stored: "CSR_LMS7002M_DELAY_ADDR \<in> set storage_regs"
  by (simp add: storage_regs_def)

lemma and_31: "w AND 31 = take_bit 5 (w :: u32)"
  by (simp add: take_bit_eq_mask mask_eq_exp_minus_1)

lemma read_delay_run:
  assumes "ready e (f, s)" "stored e init"
  shows "\<exists>s'. read_delay e n 5 (d, f, s) =
      Done (Inr (to_string (int (unat (take_bit 5 (drop_bit n (reg init s CSR_LMS7002M_DELAY_ADDR)))))), d, f, s')
    \<and> reg init s' = reg init s \<and> ready e (f, s')"
  using assms
  by (auto simp: read_delay_def xbind_def readl_stored [OF _ _ delay_reg_stored] xret_def Let_def
      and_31 fun_eq_iff)

lemma write_delay_run:
  assumes "ready e (f, s)" "stored e init" "k < 32"
  shows "\<exists>s'. write_delay e n 5 (to_string (int k)) (d, f, s) = Done (Inr (), d, f, s')
    \<and> reg init s' = (reg init s)(CSR_LMS7002M_DELAY_ADDR :=
         (reg init s CSR_LMS7002M_DELAY_ADDR AND NOT (push_bit n 31)) OR push_bit n (of_nat k))
    \<and> ready e (f, s')"
proof -
  have "k < 2 ^ 31" using assms(3) by simp
  then have "stoi (to_string (int k)) = Inr (int k)" by (rule stoi_to_string)
  with assms show ?thesis
    by (auto simp: write_delay_def xbind_def xstoi_def xret_def writel_run
        readl_stored [OF _ _ delay_reg_stored] Let_def fun_eq_iff)
qed

text \<open>A delay that is no number or not between 0 and 31 is refused before any access.\<close>

lemma write_delay_rejects:
  assumes "case stoi v of Inl x \<Rightarrow> True | Inr k \<Rightarrow> k < 0 \<or> 31 < k"
  shows "\<exists>x. write_delay e n 5 v (d, fd) = Done (Inl x, d, fd)"
  using assms by (auto simp: write_delay_def xbind_def xstoi_def xret_def xthrow_def split: sum.splits)

subsection \<open>One setting at a time\<close>

lemma setting_text_keys:
  "setting_text R ''FPGA_TX_RX_LOOPBACK_ENABLE'' = Some (if bit (R CSR_LMS7002M_CONTROL_ADDR) 16 then ''TRUE'' else ''FALSE'')"
  "setting_text R ''FPGA_TX_PATTERN'' = Some (if bit (R CSR_LMS7002M_TX_PATTERN_CONTROL_ADDR) 0 then ''1'' else ''0'')"
  "setting_text R ''FPGA_RX_PATTERN'' = Some (if bit (R CSR_LMS7002M_RX_PATTERN_CONTROL_ADDR) 0 then ''1'' else ''0'')"
  "setting_text R ''FPGA_TX_DELAY'' = Some (to_string (int (unat (take_bit 5 (R CSR_LMS7002M_DELAY_ADDR)))))"
  "setting_text R ''FPGA_RX_DELAY'' = Some (to_string (int (unat (take_bit 5 (drop_bit 8 (R CSR_LMS7002M_DELAY_ADDR))))))"
  by (simp_all add: setting_text_def)

lemma readSetting_keys:
  "readSetting e ''FPGA_TX_RX_LOOPBACK_ENABLE'' = read_flag e CSR_LMS7002M_CONTROL_ADDR 16 ''TRUE'' ''FALSE''"
  "readSetting e ''FPGA_TX_PATTERN'' = read_flag e CSR_LMS7002M_TX_PATTERN_CONTROL_ADDR 0 ''1'' ''0''"
  "readSetting e ''FPGA_RX_PATTERN'' = read_flag e CSR_LMS7002M_RX_PATTERN_CONTROL_ADDR 0 ''1'' ''0''"
  "readSetting e ''FPGA_TX_DELAY'' = read_delay e 0 5"
  "readSetting e ''FPGA_RX_DELAY'' = read_delay e 8 5"
  by (simp_all add: readSetting_def CSR_LMS7002M_CONTROL_TX_RX_LOOPBACK_ENABLE_OFFSET_def
        CSR_LMS7002M_TX_PATTERN_CONTROL_ENABLE_OFFSET_def CSR_LMS7002M_RX_PATTERN_CONTROL_ENABLE_OFFSET_def
        CSR_LMS7002M_DELAY_TX_DELAY_OFFSET_def CSR_LMS7002M_DELAY_RX_DELAY_OFFSET_def
        CSR_LMS7002M_DELAY_TX_DELAY_SIZE_def CSR_LMS7002M_DELAY_RX_DELAY_SIZE_def)

lemma writeSetting_keys:
  "writeSetting e ''FPGA_TX_RX_LOOPBACK_ENABLE'' = write_flag e CSR_LMS7002M_CONTROL_ADDR 16 ''TRUE'' ''FALSE''"
  "writeSetting e ''FPGA_TX_PATTERN'' = write_flag e CSR_LMS7002M_TX_PATTERN_CONTROL_ADDR 0 ''1'' ''0''"
  "writeSetting e ''FPGA_RX_PATTERN'' = write_flag e CSR_LMS7002M_RX_PATTERN_CONTROL_ADDR 0 ''1'' ''0''"
  "writeSetting e ''FPGA_TX_DELAY'' = write_delay e 0 5"
  "writeSetting e ''FPGA_RX_DELAY'' = write_delay e 8 5"
  by (simp_all add: fun_eq_iff writeSetting_def write_chip_setting_def Let_def
        CSR_LMS7002M_CONTROL_TX_RX_LOOPBACK_ENABLE_OFFSET_def
        CSR_LMS7002M_TX_PATTERN_CONTROL_ENABLE_OFFSET_def CSR_LMS7002M_RX_PATTERN_CONTROL_ENABLE_OFFSET_def
        CSR_LMS7002M_DELAY_TX_DELAY_OFFSET_def CSR_LMS7002M_DELAY_RX_DELAY_OFFSET_def
        CSR_LMS7002M_DELAY_TX_DELAY_SIZE_def CSR_LMS7002M_DELAY_RX_DELAY_SIZE_def)

definition fpga_keys :: "string list" where
  "fpga_keys = [''FPGA_TX_RX_LOOPBACK_ENABLE'', ''FPGA_TX_PATTERN'', ''FPGA_RX_PATTERN'', ''FPGA_TX_DELAY'', ''FPGA_RX_DELAY'']"

lemma fpga_key_cases:
  assumes "key \<in> set fpga_keys"
  obtains (loopback) "key = ''FPGA_TX_RX_LOOPBACK_ENABLE''" | (tx_pattern) "key = ''FPGA_TX_PATTERN''"
    | (rx_pattern) "key = ''FPGA_RX_PATTERN''" | (tx_delay) "key = ''FPGA_TX_DELAY''" | (rx_delay) "key = ''FPGA_RX_DELAY''"
  using assms unfolding fpga_keys_def by auto

lemma flag_regs_stored:
  "CSR_LMS7002M_CONTROL_ADDR \<in> set storage_regs" "CSR_LMS7002M_TX_PATTERN_CONTROL_ADDR \<in> set storage_regs"
  "CSR_LMS7002M_RX_PATTERN_CONTROL_ADDR \<in> set storage_regs"
  by (simp_all add: storage_regs_def)

lemma readSetting_run:
  assumes "ready e (f, s)" "stored e init" "key \<in> set fpga_keys"
  shows "\<exists>s'. readSetting e key (d, f, s) = Done (Inr (the (setting_text (reg init s) key)), d, f, s')
    \<and> reg init s' = reg init s \<and> ready e (f, s')"
  using assms(3)
proof (cases key rule: fpga_key_cases)
  case loopback
  show ?thesis unfolding loopback readSetting_keys setting_text_keys option.sel
    by (rule read_flag_run [OF assms(1,2) flag_regs_stored(1)])
next
  case tx_pattern
  show ?thesis unfolding tx_pattern readSetting_keys setting_text_keys option.sel
    by (rule read_flag_run [OF assms(1,2) flag_regs_stored(2)])
next
  case rx_pattern
  show ?thesis unfolding rx_pattern readSetting_keys setting_text_keys option.sel
    by (rule read_flag_run [OF assms(1,2) flag_regs_stored(3)])
next
  case tx_delay
  show ?thesis unfolding tx_delay readSetting_keys setting_text_keys option.sel
    using read_delay_run [OF assms(1,2), of 0] by simp
next
  case rx_delay
  show ?thesis unfolding rx_delay readSetting_keys setting_text_keys option.sel
    by (rule read_delay_run [OF assms(1,2)])
qed

subsection \<open>Writing one leaves the others\<close>

lemma word32_eqI: "(\<And>n. n < 32 \<Longrightarrow> bit v n = bit w n) \<Longrightarrow> v = (w :: u32)"
  by (rule bit_eqI) simp

lemma mask_31: "(31 :: u32) = mask 5"
  by (simp add: mask_eq_exp_minus_1)

lemma small_bits:
  fixes k n :: nat
  assumes "k < 32" "bit k n"
  shows "n < 5"
proof -
  have "take_bit 5 k = k" using assms(1) by (intro take_bit_nat_eq_self) simp
  then show ?thesis using assms(2) by (metis bit_take_bit_iff)
qed

text \<open>The two delays are separate fields of one register.\<close>

lemma delay_fields:
  fixes w :: u32
  assumes "k < 32"
  shows "take_bit 5 ((w AND NOT (push_bit 0 31)) OR push_bit 0 (of_nat k)) = of_nat k"
    and "take_bit 5 (drop_bit 8 ((w AND NOT (push_bit 0 31)) OR push_bit 0 (of_nat k))) = take_bit 5 (drop_bit 8 w)"
    and "take_bit 5 (drop_bit 8 ((w AND NOT (push_bit 8 31)) OR push_bit 8 (of_nat k))) = of_nat k"
    and "take_bit 5 ((w AND NOT (push_bit 8 31)) OR push_bit 8 (of_nat k)) = take_bit 5 w"
proof -
  show "take_bit 5 ((w AND NOT (push_bit 0 31)) OR push_bit 0 (of_nat k)) = of_nat k"
    by (rule word32_eqI) (auto simp: mask_31 bit_simps dest: small_bits [OF assms])
  show "take_bit 5 (drop_bit 8 ((w AND NOT (push_bit 0 31)) OR push_bit 0 (of_nat k))) = take_bit 5 (drop_bit 8 w)"
    by (rule word32_eqI) (auto simp: mask_31 bit_simps dest: small_bits [OF assms])
  show "take_bit 5 (drop_bit 8 ((w AND NOT (push_bit 8 31)) OR push_bit 8 (of_nat k))) = of_nat k"
    by (rule word32_eqI) (auto simp: mask_31 bit_simps dest: small_bits [OF assms])
  show "take_bit 5 ((w AND NOT (push_bit 8 31)) OR push_bit 8 (of_nat k)) = take_bit 5 w"
    by (rule word32_eqI) (auto simp: mask_31 bit_simps dest: small_bits [OF assms])
qed

lemma setting_regs_ne:
  "CSR_LMS7002M_CONTROL_ADDR \<noteq> CSR_LMS7002M_TX_PATTERN_CONTROL_ADDR"
  "CSR_LMS7002M_CONTROL_ADDR \<noteq> CSR_LMS7002M_RX_PATTERN_CONTROL_ADDR"
  "CSR_LMS7002M_CONTROL_ADDR \<noteq> CSR_LMS7002M_DELAY_ADDR"
  "CSR_LMS7002M_TX_PATTERN_CONTROL_ADDR \<noteq> CSR_LMS7002M_RX_PATTERN_CONTROL_ADDR"
  "CSR_LMS7002M_TX_PATTERN_CONTROL_ADDR \<noteq> CSR_LMS7002M_DELAY_ADDR"
  "CSR_LMS7002M_RX_PATTERN_CONTROL_ADDR \<noteq> CSR_LMS7002M_DELAY_ADDR"
  by (simp_all add: csr_defs)

lemmas regs_ne = setting_regs_ne setting_regs_ne [symmetric]

text \<open>The settings other than one that lives in a register which changed from \<open>R\<close> to \<open>R'\<close>.\<close>

lemma other_settings:
  assumes "R' = R(CSR_LMS7002M_CONTROL_ADDR := w)" "key \<noteq> ''FPGA_TX_RX_LOOPBACK_ENABLE''"
  shows "setting_text R' key = setting_text R key"
  using assms by (simp add: setting_text_def regs_ne)

lemma other_settings_tx:
  assumes "R' = R(CSR_LMS7002M_TX_PATTERN_CONTROL_ADDR := w)" "key \<noteq> ''FPGA_TX_PATTERN''"
  shows "setting_text R' key = setting_text R key"
  using assms by (simp add: setting_text_def regs_ne)

lemma other_settings_rx:
  assumes "R' = R(CSR_LMS7002M_RX_PATTERN_CONTROL_ADDR := w)" "key \<noteq> ''FPGA_RX_PATTERN''"
  shows "setting_text R' key = setting_text R key"
  using assms by (simp add: setting_text_def regs_ne)

lemma other_settings_delay:
  assumes "R' = R(CSR_LMS7002M_DELAY_ADDR := w)"
    and "key = ''FPGA_TX_DELAY'' \<Longrightarrow> take_bit 5 w = take_bit 5 (R CSR_LMS7002M_DELAY_ADDR)"
    and "key = ''FPGA_RX_DELAY'' \<Longrightarrow> take_bit 5 (drop_bit 8 w) = take_bit 5 (drop_bit 8 (R CSR_LMS7002M_DELAY_ADDR))"
  shows "setting_text R' key = setting_text R key"
  using assms by (simp add: setting_text_def regs_ne)

lemma delay_text:
  assumes "k < 32" "w = of_nat k"
  shows "to_string (int (unat (w :: u32))) = to_string (int k)"
proof -
  have "unat (of_nat k :: u32) = k" using assms(1) by (intro unat_of_nat_small) simp
  then show ?thesis by (simp add: assms(2))
qed

text \<open>Accepted values: the setting changes to the value and no other one does.\<close>

lemma writeSetting_run:
  assumes r: "ready e (f, s)" "stored e init" and k: "key \<in> set fpga_keys" "v \<in> set (setting_values key)"
  shows "\<exists>s'. writeSetting e key v (d, f, s) = Done (Inr (), d, f, s') \<and> ready e (f, s')
    \<and> setting_text (reg init s') key = Some v
    \<and> (\<forall>key'. key' \<noteq> key \<longrightarrow> setting_text (reg init s') key' = setting_text (reg init s) key')"
  using k(1)
proof (cases key rule: fpga_key_cases)
  case loopback
  have v: "v = ''TRUE'' \<or> v = ''FALSE''" using k(2) by (simp add: loopback setting_values_def)
  obtain s' where "writeSetting e key v (d, f, s) = Done (Inr (), d, f, s')" "ready e (f, s')"
    and R: "reg init s' = (reg init s)(CSR_LMS7002M_CONTROL_ADDR :=
      if v = ''TRUE'' then (reg init s CSR_LMS7002M_CONTROL_ADDR AND NOT (push_bit 16 1)) OR push_bit 16 1
      else reg init s CSR_LMS7002M_CONTROL_ADDR AND NOT (push_bit 16 1))"
    using write_flag_run [OF r flag_regs_stored(1) v, of 16 d] unfolding loopback writeSetting_keys by auto
  moreover have "setting_text (reg init s') key = Some v"
    using v unfolding loopback setting_text_keys R by (auto simp: bit_simps)
  ultimately show ?thesis using other_settings [OF R] by (intro exI [of _ s']) (simp add: loopback)
next
  case tx_pattern
  have v: "v = ''1'' \<or> v = ''0''" using k(2) by (simp add: tx_pattern setting_values_def)
  obtain s' where "writeSetting e key v (d, f, s) = Done (Inr (), d, f, s')" "ready e (f, s')"
    and R: "reg init s' = (reg init s)(CSR_LMS7002M_TX_PATTERN_CONTROL_ADDR :=
      if v = ''1'' then (reg init s CSR_LMS7002M_TX_PATTERN_CONTROL_ADDR AND NOT (push_bit 0 1)) OR push_bit 0 1
      else reg init s CSR_LMS7002M_TX_PATTERN_CONTROL_ADDR AND NOT (push_bit 0 1))"
    using write_flag_run [OF r flag_regs_stored(2) v, of 0 d] unfolding tx_pattern writeSetting_keys by auto
  moreover have "setting_text (reg init s') key = Some v"
    using v unfolding tx_pattern setting_text_keys R by (auto simp: bit_simps)
  ultimately show ?thesis using other_settings_tx [OF R] by (intro exI [of _ s']) (simp add: tx_pattern)
next
  case rx_pattern
  have v: "v = ''1'' \<or> v = ''0''" using k(2) by (simp add: rx_pattern setting_values_def)
  obtain s' where "writeSetting e key v (d, f, s) = Done (Inr (), d, f, s')" "ready e (f, s')"
    and R: "reg init s' = (reg init s)(CSR_LMS7002M_RX_PATTERN_CONTROL_ADDR :=
      if v = ''1'' then (reg init s CSR_LMS7002M_RX_PATTERN_CONTROL_ADDR AND NOT (push_bit 0 1)) OR push_bit 0 1
      else reg init s CSR_LMS7002M_RX_PATTERN_CONTROL_ADDR AND NOT (push_bit 0 1))"
    using write_flag_run [OF r flag_regs_stored(3) v, of 0 d] unfolding rx_pattern writeSetting_keys by auto
  moreover have "setting_text (reg init s') key = Some v"
    using v unfolding rx_pattern setting_text_keys R by (auto simp: bit_simps)
  ultimately show ?thesis using other_settings_rx [OF R] by (intro exI [of _ s']) (simp add: rx_pattern)
next
  case tx_delay
  then obtain n where n: "n < 32" "v = to_string (int n)" using k(2) by (auto simp: setting_values_def)
  obtain s' where "writeSetting e key v (d, f, s) = Done (Inr (), d, f, s')" "ready e (f, s')"
    and R: "reg init s' = (reg init s)(CSR_LMS7002M_DELAY_ADDR :=
      (reg init s CSR_LMS7002M_DELAY_ADDR AND NOT (push_bit 0 31)) OR push_bit 0 (of_nat n))"
    using write_delay_run [OF r n(1), of 0 d] unfolding tx_delay writeSetting_keys n(2) by auto
  moreover have "setting_text (reg init s') key = Some v"
    unfolding tx_delay setting_text_keys R n(2) fun_upd_same delay_fields(1) [OF n(1)] using delay_text [OF n(1) refl] by simp
  moreover have "setting_text (reg init s') key' = setting_text (reg init s) key'" if "key' \<noteq> key" for key'
    using that unfolding tx_delay by (intro other_settings_delay [OF R]) (simp_all only: delay_fields(2) [OF n(1)] simp_thms)
  ultimately show ?thesis by blast
next
  case rx_delay
  then obtain n where n: "n < 32" "v = to_string (int n)" using k(2) by (auto simp: setting_values_def)
  obtain s' where "writeSetting e key v (d, f, s) = Done (Inr (), d, f, s')" "ready e (f, s')"
    and R: "reg init s' = (reg init s)(CSR_LMS7002M_DELAY_ADDR :=
      (reg init s CSR_LMS7002M_DELAY_ADDR AND NOT (push_bit 8 31)) OR push_bit 8 (of_nat n))"
    using write_delay_run [OF r n(1), of 8 d] unfolding rx_delay writeSetting_keys n(2) by auto
  moreover have "setting_text (reg init s') key = Some v"
    unfolding rx_delay setting_text_keys R n(2) fun_upd_same delay_fields(3) [OF n(1)] using delay_text [OF n(1) refl] by simp
  moreover have "setting_text (reg init s') key' = setting_text (reg init s) key'" if "key' \<noteq> key" for key'
    using that unfolding rx_delay by (intro other_settings_delay [OF R]) (simp_all only: delay_fields(4) [OF n(1)] simp_thms)
  ultimately show ?thesis by blast
qed

end
