(* ===== verification/Soapy_Life.thy ===== *)
theory Soapy_Life
  imports Soapy_Control Util_Apps
begin

text \<open>
  The access of the LMS7002M library to the board (\<open>soapysdr-xtrx/litepcie_interface.h\<close>), and what
  the constructor of the SoapySDR device leaves in the FPGA when the library reaches the board only
  through it.
\<close>

section \<open>The SPI callback\<close>

definition LITEPCIE_SPI_START :: u32 where "LITEPCIE_SPI_START = push_bit 0 1"
definition LITEPCIE_SPI_DONE :: u32 where "LITEPCIE_SPI_DONE = push_bit 0 1"
definition LITEPCIE_SPI_LENGTH :: u32 where "LITEPCIE_SPI_LENGTH = push_bit 8 1"

partial_function (option) interface_wait :: "'c spi_port \<Rightarrow> 'c \<Rightarrow> 'c option" where
  "interface_wait P c =
     Option.bind (p_read P CSR_LMS7002M_SPI_STATUS_ADDR c) (\<lambda>(v, c).
       if v AND LITEPCIE_SPI_DONE = 0 then interface_wait P c else Some c)"

definition litepcie_interface_transact :: "'c spi_port \<Rightarrow> u32 \<Rightarrow> bool \<Rightarrow> 'c \<Rightarrow> (u32 \<times> 'c) option" where
  "litepcie_interface_transact P data_in readback c =
     Option.bind (p_write P CSR_LMS7002M_SPI_MOSI_ADDR data_in c) (\<lambda>c.
     Option.bind (p_write P CSR_LMS7002M_SPI_CONTROL_ADDR (32 * LITEPCIE_SPI_LENGTH OR LITEPCIE_SPI_START) c) (\<lambda>c.
     Option.bind (interface_wait P c) (\<lambda>c.
       if readback then
         Option.bind (p_read P CSR_LMS7002M_SPI_MISO_ADDR c) (\<lambda>(v, c). Some (v AND 0xffff, c))
       else Some (0, c))))"

text \<open>The utility has its own copy of the wait loop; the two return the same.\<close>

lemma interface_wait_lms:
  assumes "interface_wait P c = Some d"
  shows "lms_wait P c = Some d"
proof -
  let ?Q = "\<lambda>(P, c) d. lms_wait P c = Some d"
  have "?Q (P, c) d"
  proof (rule interface_wait.raw_induct [where Pa = ?Q, OF _ assms])
    fix w P c d
    assume IH: "\<And>P c d. w P c = Some d \<Longrightarrow> ?Q (P, c) d"
      and eq: "Option.bind (p_read P CSR_LMS7002M_SPI_STATUS_ADDR c)
        (\<lambda>(v, c). if v AND LITEPCIE_SPI_DONE = 0 then w P c else Some c) = Some d"
    have "lms_wait P c = Some d"
      using eq by (subst lms_wait.simps)
        (auto simp: bind_Some_iff SPI_DONE_def LITEPCIE_SPI_DONE_def split: if_splits dest!: IH)
    then show "?Q (P, c) d" by simp
  qed
  then show ?thesis by simp
qed

lemma lms_wait_interface:
  assumes "lms_wait P c = Some d"
  shows "interface_wait P c = Some d"
proof -
  let ?Q = "\<lambda>(P, c) d. interface_wait P c = Some d"
  have "?Q (P, c) d"
  proof (rule lms_wait.raw_induct [where Pa = ?Q, OF _ assms])
    fix w P c d
    assume IH: "\<And>P c d. w P c = Some d \<Longrightarrow> ?Q (P, c) d"
      and eq: "Option.bind (p_read P CSR_LMS7002M_SPI_STATUS_ADDR c)
        (\<lambda>(v, c). if v AND SPI_DONE = 0 then w P c else Some c) = Some d"
    have "interface_wait P c = Some d"
      using eq by (subst interface_wait.simps)
        (auto simp: bind_Some_iff SPI_DONE_def LITEPCIE_SPI_DONE_def split: if_splits dest!: IH)
    then show "?Q (P, c) d" by simp
  qed
  then show ?thesis by simp
qed

lemma interface_wait_eq: "interface_wait P c = lms_wait P c"
  by (cases "interface_wait P c"; cases "lms_wait P c")
     (auto dest: interface_wait_lms lms_wait_interface)

lemma transact_write:
  "litepcie_interface_transact P (lms_frame_write addr val) False c =
     map_option (\<lambda>c. (0, c)) (lms7002m_spi_write P addr val c)"
  by (simp add: litepcie_interface_transact_def lms7002m_spi_write_def interface_wait_eq
      LITEPCIE_SPI_LENGTH_def LITEPCIE_SPI_START_def SPI_LENGTH_def SPI_START_def
      map_conv_bind_option o_def)

lemma transact_read:
  "litepcie_interface_transact P (lms_frame_read addr) True c = lms7002m_spi_read P addr c"
  by (simp add: litepcie_interface_transact_def lms7002m_spi_read_def interface_wait_eq
      LITEPCIE_SPI_LENGTH_def LITEPCIE_SPI_START_def SPI_LENGTH_def SPI_START_def)

section \<open>Only the SPI registers change\<close>

definition spi_regs :: "u32 list" where
  "spi_regs = [CSR_LMS7002M_SPI_MOSI_ADDR, CSR_LMS7002M_SPI_CONTROL_ADDR]"

definition spi_only :: "xtrx_env \<Rightarrow> fd \<Rightarrow> fd \<Rightarrow> bool" where
  "spi_only e x y \<longleftrightarrow> fst y = fst x \<and> chan (snd y) = chan (snd x) \<and> channels (snd y) = channels (snd x)
     \<and> (\<forall>init a. a \<notin> set spi_regs \<longrightarrow> reg init (snd y) a = reg init (snd x) a)"

lemma spi_only_refl: "spi_only e x x"
  by (simp add: spi_only_def)

lemma spi_only_trans: "spi_only e x y \<Longrightarrow> spi_only e y z \<Longrightarrow> spi_only e x z"
  by (simp add: spi_only_def)

lemma spi_only_ready: "spi_only e x y \<Longrightarrow> ready e x \<Longrightarrow> ready e y"
  by (simp add: spi_only_def ready_def chan_ready_def)

lemma spi_only_device_ok: "spi_only e x y \<Longrightarrow> device_ok (snd x) \<Longrightarrow> device_ok (snd y)"
  by (simp add: spi_only_def device_ok_def)

lemma kernel_port_read:
  assumes "ready e x" "p_read (kernel_port (xe_lib e)) a x = Some (v, y)"
  shows "spi_only e x y"
proof -
  obtain f s where x: "x = (f, s)" by fastforce
  from assms lib_readl_writel(1) [of x "xe_lib e" a] show ?thesis
    by (auto simp: x kernel_port_def lib_option_def ready_def spi_only_def chan_ready_def)
qed

lemma kernel_port_write:
  assumes "ready e x" "a \<in> set spi_regs" "p_write (kernel_port (xe_lib e)) a v x = Some y"
  shows "spi_only e x y"
proof -
  obtain f s where x: "x = (f, s)" by fastforce
  from assms lib_readl_writel(2) [of x "xe_lib e" a v] show ?thesis
    by (auto simp: x kernel_port_def lib_option_def ready_def spi_only_def chan_ready_def)
qed

lemma interface_wait_spi:
  assumes "interface_wait (kernel_port (xe_lib e)) x = Some y" "ready e x"
  shows "spi_only e x y"
proof -
  let ?Q = "\<lambda>(P, x) y. P = kernel_port (xe_lib e) \<longrightarrow> ready e x \<longrightarrow> spi_only e x y"
  have "?Q (kernel_port (xe_lib e), x) y"
  proof (rule interface_wait.raw_induct [where Pa = ?Q, OF _ assms(1)])
    fix w P x y
    assume IH: "\<And>P x y. w P x = Some y \<Longrightarrow> ?Q (P, x) y"
      and eq: "Option.bind (p_read P CSR_LMS7002M_SPI_STATUS_ADDR x)
        (\<lambda>(v, c). if v AND LITEPCIE_SPI_DONE = 0 then w P c else Some c) = Some y"
    show "?Q (P, x) y"
    proof (clarsimp)
      assume P: "P = kernel_port (xe_lib e)" and r: "ready e x"
      obtain v z where z: "p_read P CSR_LMS7002M_SPI_STATUS_ADDR x = Some (v, z)"
        "(if v AND LITEPCIE_SPI_DONE = 0 then w P z else Some z) = Some y"
        using eq by (auto simp: bind_Some_iff)
      have s: "spi_only e x z" by (rule kernel_port_read [OF r z(1) [unfolded P]])
      then have "ready e z" using spi_only_ready [OF _ r] by blast
      then show "spi_only e x y"
        using s z(2) IH [of P z y] spi_only_trans by (auto simp: P split: if_splits)
    qed
  qed
  with assms(2) show ?thesis by simp
qed

lemma transact_spi:
  assumes "litepcie_interface_transact (kernel_port (xe_lib e)) w rb x = Some (v, y)" "ready e x"
  shows "spi_only e x y"
proof -
  let ?P = "kernel_port (xe_lib e)"
  obtain x1 x2 x3 where
    1: "p_write ?P CSR_LMS7002M_SPI_MOSI_ADDR w x = Some x1"
    and 2: "p_write ?P CSR_LMS7002M_SPI_CONTROL_ADDR (32 * LITEPCIE_SPI_LENGTH OR LITEPCIE_SPI_START) x1 = Some x2"
    and 3: "interface_wait ?P x2 = Some x3"
    and 4: "x3 = y \<or> (\<exists>v'. p_read ?P CSR_LMS7002M_SPI_MISO_ADDR x3 = Some (v', y))"
    using assms(1) by (auto simp: litepcie_interface_transact_def bind_Some_iff split: if_splits)
  have s1: "spi_only e x x1" using kernel_port_write [OF assms(2) _ 1] by (simp add: spi_regs_def)
  then have r1: "ready e x1" using spi_only_ready [OF _ assms(2)] by blast
  have s2: "spi_only e x1 x2" using kernel_port_write [OF r1 _ 2] by (simp add: spi_regs_def)
  then have r2: "ready e x2" using spi_only_ready [OF _ r1] by blast
  have s3: "spi_only e x2 x3" by (rule interface_wait_spi [OF 3 r2])
  then have r3: "ready e x3" using spi_only_ready [OF _ r2] by blast
  have "spi_only e x3 y" using 4 kernel_port_read [OF r3] spi_only_refl by blast
  then show ?thesis using s1 s2 s3 spi_only_trans by blast
qed

text \<open>What the library may do in a call: any number of transactions.\<close>

inductive transacts :: "lib_env \<Rightarrow> fd \<Rightarrow> fd \<Rightarrow> bool" for le where
  none: "transacts le x x"
| more: "transacts le x y \<Longrightarrow> litepcie_interface_transact (kernel_port le) w rb y = Some (v, z) \<Longrightarrow> transacts le x z"

lemma transacts_spi: "transacts (xe_lib e) x y \<Longrightarrow> ready e x \<Longrightarrow> spi_only e x y"
proof (induction rule: transacts.induct)
  case (more x y w rb v z)
  then have "spi_only e x y" "ready e y" using spi_only_ready by blast+
  with transact_spi [OF more.hyps(2)] show ?case using spi_only_trans by blast
qed (rule spi_only_refl)

section \<open>States between two statements\<close>

definition holding :: "xtrx_env \<Rightarrow> (u32 \<Rightarrow> u32) \<Rightarrow> ((u32 \<Rightarrow> u32) \<Rightarrow> bool) \<Rightarrow> xtrx \<times> fd \<Rightarrow> bool" where
  "holding e init A x \<longleftrightarrow> ready e (snd x) \<and> device_ok (snd (snd x)) \<and> A (reg init (snd (snd x)))"

text \<open>An assertion that does not speak of the SPI registers.\<close>

definition spi_free :: "((u32 \<Rightarrow> u32) \<Rightarrow> bool) \<Rightarrow> bool" where
  "spi_free A \<longleftrightarrow> (\<forall>X Y. (\<forall>a. a \<notin> set spi_regs \<longrightarrow> Y a = X a) \<longrightarrow> A X \<longrightarrow> A Y)"

text \<open>The library answers with success and reaches the board only through the callback.\<close>

definition lms_good :: "xtrx_env \<Rightarrow> bool" where
  "lms_good e \<longleftrightarrow> (\<forall>h c x. ready e x \<longrightarrow>
     (\<exists>r y. lms_do e h c x = Done (r, y) \<and> transacts (xe_lib e) x y \<and> lr_int r = 0))"

lemma device_ok_mmio [simp]: "device_ok (s\<lparr>mmio := h\<rparr>) = device_ok s"
  by (simp add: device_ok_def)

lemma device_ok_steps [simp]:
  "device_ok (litepcie_writel a v s) = device_ok s" "device_ok (snd (litepcie_readl k a s)) = device_ok s"
  by (simp_all add: device_ok_def)

lemma holds_readl: "returns (holding e init A) (readl e a) (\<lambda>_. holding e init A)"
  unfolding returns_def
proof (intro allI impI)
  fix x assume x: "holding e init A x"
  obtain d f s where "x = (d, f, s)" by (metis prod_cases3)
  with x show "\<exists>r x'. readl e a x = Done (Inr r, x') \<and> holding e init A x'"
    by (auto simp: holding_def readl_run reg_def [abs_def])
qed

lemma reg_writel_fun: "reg init (litepcie_writel a v s) = (reg init s)(a := v)"
  by (simp add: fun_eq_iff)

lemma holds_writel:
  assumes "\<And>X. A X \<Longrightarrow> B (X(a := v))"
  shows "returns (holding e init A) (writel e a v) (\<lambda>_. holding e init B)"
  unfolding returns_def
proof (intro allI impI)
  fix x assume x: "holding e init A x"
  obtain d f s where "x = (d, f, s)" by (metis prod_cases3)
  with x assms show "\<exists>r x'. writel e a v x = Done (Inr r, x') \<and> holding e init B x'"
    by (auto simp: holding_def writel_run reg_writel_fun)
qed

lemma holds_xmod: "returns (holding e init A) (xmod g) (\<lambda>_. holding e init A)"
  by (simp add: returns_def xmod_def holding_def)

lemma holds_xget: "returns (holding e init A) (xget g) (\<lambda>_. holding e init A)"
  by (simp add: returns_def xget_def)

lemma holds_xret: "returns (holding e init A) (xret r) (\<lambda>_. holding e init A)"
  by (simp add: returns_def xret_def)

lemma holds_lms:
  assumes "lms_good e" "spi_free A"
  shows "returns (holding e init A) (lms e c) (\<lambda>r x. lr_int r = 0 \<and> holding e init A x)"
  unfolding returns_def
proof (intro allI impI)
  fix x assume x: "holding e init A x"
  obtain d fd where xd: "x = (d, fd)" by (rule prod.exhaust)
  have rd: "ready e fd" using x by (simp add: holding_def xd)
  then obtain r y where y: "lms_do e (lms_log d) c fd = Done (r, y)" "transacts (xe_lib e) fd y" "lr_int r = 0"
    using assms(1) unfolding lms_good_def by blast
  have s: "spi_only e fd y" by (rule transacts_spi [OF y(2) rd])
  then have "A (reg init (snd y))"
    using assms(2) x unfolding spi_free_def by (auto simp: holding_def xd spi_only_def)
  then have "holding e init A (d', y)" for d'
    using spi_only_ready [OF s rd] spi_only_device_ok [OF s] x by (simp add: holding_def xd)
  with y(1,3) show "\<exists>r x'. lms e c x = Done (Inr r, x') \<and> lr_int r = 0 \<and> holding e init A x'"
    by (simp add: lms_def xd)
qed

lemma holds_lms_run:
  "lms_good e \<Longrightarrow> spi_free A \<Longrightarrow> returns (holding e init A) (lms_run e c) (\<lambda>_. holding e init A)"
  unfolding lms_run_def
  by (rule returns_xbind [OF holds_lms]) (auto intro!: returns_weaken [OF holds_xret])

section \<open>Statements of the constructor\<close>

lemma holds_writel_same:
  "(\<And>X. A X \<Longrightarrow> A (X(a := v))) \<Longrightarrow> returns (holding e init A) (writel e a v) (\<lambda>_. holding e init A)"
  by (rule holds_writel)

lemma holds_stmts:
  "(\<And>m. m \<in> set ms \<Longrightarrow> returns (holding e init A) m (\<lambda>_. holding e init A))
    \<Longrightarrow> returns (holding e init A) (stmts ms) (\<lambda>_. holding e init A)"
  by (rule returns_stmts_same)

lemma holds_xbind:
  "returns P m (\<lambda>_. Q) \<Longrightarrow> (\<And>r. returns Q (f r) R) \<Longrightarrow> returns P (xbind m f) R"
  by (rule returns_xbind)

lemma holds_xfd:
  assumes "\<And>f s. ready e (f, s) \<Longrightarrow> device_ok s \<Longrightarrow> \<exists>v s'. g (f, s) = Done (v, (f, s'))
    \<and> ready e (f, s') \<and> device_ok s' \<and> reg init s' = reg init s"
  shows "returns (holding e init A) (xfd g) (\<lambda>_. holding e init A)"
  unfolding returns_def
proof (intro allI impI)
  fix x assume x: "holding e init A x"
  obtain d f s where xd: "x = (d, f, s)" by (metis prod_cases3)
  then obtain v s' where "g (f, s) = Done (v, (f, s'))" "ready e (f, s')" "device_ok s'" "reg init s' = reg init s"
    using assms [of f s] x by (auto simp: holding_def)
  with x show "\<exists>r x'. xfd g x = Done (Inr r, x') \<and> holding e init A x'"
    by (simp add: xd xfd_def holding_def)
qed

lemma holds_serial: "returns (holding e init A) (xfd (getXTRXSerial (xe_lib e))) (\<lambda>_. holding e init A)"
proof (rule holds_xfd)
  fix f s assume r: "ready e (f, s)" "device_ok s"
  let ?k = "le_k (xe_lib e)"
  have rd: "litepcie_readl_u (xe_lib e) a (f, s) =
      Done (fst (litepcie_readl ?k a s), (f, snd (litepcie_readl ?k a s)))" if "ready e (f, s)" for a s
    using lib_readl_writel(1) [of "(f, s)" "xe_lib e" a] that by (simp add: ready_def)
  show "\<exists>v s'. getXTRXSerial (xe_lib e) (f, s) = Done (v, (f, s')) \<and> ready e (f, s') \<and> device_ok s'
      \<and> reg init s' = reg init s"
    using r by (auto simp: getXTRXSerial_def rd fun_eq_iff)
qed

lemma info_ioctl:
  assumes "ready e (f, s)"
  shows "checked_ioctl (xe_lib e) IOCTL_MMAP_DMA_INFO (f, s) = Done (InfoReply mmap_dma_info, (f, s))"
  using assms by (simp add: checked_ioctl_def litepcie_ioctl_def reply_def ready_def)

lemma holds_info:
  "returns (holding e init A) (xbind (xfd (checked_ioctl (xe_lib e) IOCTL_MMAP_DMA_INFO)) (\<lambda>m. case m of
       InfoReply i \<Rightarrow> xmod (g i) | _ \<Rightarrow> xret ())) (\<lambda>_. holding e init A)"
  by (rule holds_xbind, rule holds_xfd)
     (auto simp: info_ioctl intro: holds_xmod holds_xret split: ioctl_reply.split)

lemma init_bufs_mmio: "mmio (snd (dma_init_bufs e i js s)) = mmio s"
  by (induction js arbitrary: s) (auto simp: split_beta Let_def alloc_coherent_def)

lemma init_cpu_mmio: "mmio (snd (litepcie_dma_init_cpu e b s)) = mmio s"
proof -
  have "mmio (snd (dma_init_chans e is s)) = mmio s" for "is" s
    by (induction "is" arbitrary: s) (auto simp: split_beta init_bufs_mmio)
  then show ?thesis by (simp add: litepcie_dma_init_cpu_def)
qed

lemma holds_dma_init:
  assumes "alloc_works (le_k (xe_lib e))"
  shows "returns (holding e init A) (dma_init_cpu e) (\<lambda>_. holding e init A)"
  unfolding dma_init_cpu_def
proof (rule holds_xfd)
  fix f s assume r: "ready e (f, s)" "device_ok s"
  let ?k = "le_k (xe_lib e)"
  obtain x t where t: "litepcie_dma_init_cpu ?k True s = (x, t)" by fastforce
  have i: "x = 0" "device_ok t" using init_cpu_all_buffers [OF r(2) assms t] by simp_all
  have "chan_ready (priv_chan f) t"
    using usable.keeps_init [of "priv_chan f" s ?k True] r(1) by (simp add: t ready_def)
  moreover have "reg init t = reg init s"
    using init_cpu_mmio [of ?k True s] by (simp add: t reg_def [abs_def])
  ultimately show "\<exists>v s'. lbind (checked_ioctl (xe_lib e) IOCTL_DMA_INIT (f, s)) (\<lambda>(m, fd). Done ((), fd)) =
      Done (v, f, s') \<and> ready e (f, s') \<and> device_ok s' \<and> reg init s' = reg init s"
    using r i t by (auto simp: checked_ioctl_def litepcie_ioctl_def ready_def chan_ready_def)
qed

lemma holds_loopback:
  assumes "\<And>X. A X \<Longrightarrow> B (X(CSR_PCIE_DMA0_LOOPBACK_ENABLE_ADDR := (if on then 1 else 0)))"
  shows "returns (holding e init A) (dma_set_loopback e on) (\<lambda>_. holding e init B)"
  unfolding returns_def
proof (intro allI impI)
  fix x assume x: "holding e init A x"
  obtain d f s where xd: "x = (d, f, s)" by (metis prod_cases3)
  let ?b = "(if on then 1 else 0) :: u32"
  have r: "ready e (f, s)" "device_ok s" "A (reg init s)" using x by (simp_all add: holding_def xd)
  have a: "CSR_PCIE_DMA0_BASE + PCIE_DMA_LOOPBACK_ENABLE_OFFSET = CSR_PCIE_DMA0_LOOPBACK_ENABLE_ADDR"
    by (simp add: csr_defs)
  have "checked_ioctl (xe_lib e) (IOCTL_DMA (if on then 1 else 0)) (f, s) =
      Done (NoReply, f, litepcie_writel CSR_PCIE_DMA0_LOOPBACK_ENABLE_ADDR ?b s)"
    using r(1) by (simp add: checked_ioctl_def litepcie_ioctl_def ioctl_dma_def ready_def chan_ready_def a)
  then have "dma_set_loopback e on x =
      Done (Inr (), d, f, litepcie_writel CSR_PCIE_DMA0_LOOPBACK_ENABLE_ADDR ?b s)"
    by (simp add: dma_set_loopback_def xfd_def xd)
  with r assms show "\<exists>r x'. dma_set_loopback e on x = Done (Inr r, x') \<and> holding e init B x'"
    by (simp add: holding_def reg_writel_fun)
qed

section \<open>What the constructor leaves\<close>

lemma holds_readl_stored:
  assumes "stored e init" "a \<in> set storage_regs"
  shows "returns (holding e init A) (readl e a) (\<lambda>v. holding e init (\<lambda>X. A X \<and> X a = v))"
  unfolding returns_def
proof (intro allI impI)
  fix x assume x: "holding e init A x"
  obtain d f s where "x = (d, f, s)" by (metis prod_cases3)
  with x assms show "\<exists>r x'. readl e a x = Done (Inr r, x') \<and> holding e init (\<lambda>X. A X \<and> X a = r) x'"
    by (auto simp: holding_def readl_stored reg_def [abs_def])
qed

lemma holds_write_flag:
  assumes "stored e init" "a \<in> set storage_regs"
    and "\<And>X. A X \<Longrightarrow> B (X(a := (X a AND NOT (push_bit n 1)) OR push_bit n 1))"
  shows "returns (holding e init A) (write_flag e a n on off on) (\<lambda>_. holding e init B)"
  unfolding write_flag_def Let_def if_P [OF refl]
  by (rule returns_xbind [OF holds_readl_stored [OF assms(1,2)]], rule holds_writel)
     (clarify, erule assms(3))

lemma to_string_16: "to_string 16 = ''16''"
  by code_simp

lemma stoi_16: "stoi ''16'' = Inr 16"
  using stoi_to_string [of 16] by (simp add: to_string_16)

lemma holds_write_delay:
  assumes "stored e init"
    and "\<And>X. A X \<Longrightarrow> B (X(CSR_LMS7002M_DELAY_ADDR := (X CSR_LMS7002M_DELAY_ADDR AND NOT (push_bit n 31)) OR push_bit n 16))"
  shows "returns (holding e init A) (write_delay e n 5 ''16'') (\<lambda>_. holding e init B)"
proof -
  have s: "xstoi ''16'' = xret 16" by (simp add: xstoi_def stoi_16)
  have w: "write_delay e n 5 ''16'' = xbind (readl e CSR_LMS7002M_DELAY_ADDR) (\<lambda>reg.
      writel e CSR_LMS7002M_DELAY_ADDR ((reg AND NOT (push_bit n 31)) OR push_bit n 16))"
    by (simp add: write_delay_def s xbind_def xret_def fun_eq_iff)
  show ?thesis unfolding w
    by (rule returns_xbind [OF holds_readl_stored [OF assms(1) delay_reg_stored]], rule holds_writel)
       (clarify, erule assms(2))
qed

lemma holds_internal_clock:
  assumes "stored e init"
    and "\<And>X. A X \<Longrightarrow> B (X(CSR_VCTCXO_CONTROL_ADDR :=
           X CSR_VCTCXO_CONTROL_ADDR AND NOT (push_bit CSR_VCTCXO_CONTROL_SEL_OFFSET 1)))"
  shows "returns (holding e init A) (setClockSource e ''internal'') (\<lambda>_. holding e init B)"
proof -
  have m: "CSR_VCTCXO_CONTROL_ADDR \<in> set storage_regs" by (simp add: storage_regs_def)
  have w: "setClockSource e ''internal'' = xbind (readl e CSR_VCTCXO_CONTROL_ADDR) (\<lambda>control.
      writel e CSR_VCTCXO_CONTROL_ADDR (control AND NOT (push_bit CSR_VCTCXO_CONTROL_SEL_OFFSET 1)))"
    by (simp add: setClockSource_def)
  show ?thesis unfolding w
    by (rule returns_xbind [OF holds_readl_stored [OF assms(1) m]], rule holds_writel)
       (clarify, erule assms(2))
qed

text \<open>The FPGA after the reset of the constructor.\<close>

definition test_config :: "(u32 \<Rightarrow> u32) \<Rightarrow> bool" where
  "test_config R \<longleftrightarrow> R CSR_LMS7002M_CONTROL_ADDR = 0x300
     \<and> R CSR_PCIE_DMA0_LOOPBACK_ENABLE_ADDR = 1
     \<and> setting_text R ''FPGA_TX_PATTERN'' = Some ''1'' \<and> setting_text R ''FPGA_RX_PATTERN'' = Some ''1''
     \<and> setting_text R ''FPGA_TX_DELAY'' = Some ''16'' \<and> setting_text R ''FPGA_RX_DELAY'' = Some ''16''"

lemma loopback_key: "writeSetting e ''FPGA_DMA_LOOPBACK_ENABLE'' ''TRUE'' = dma_set_loopback e True"
  by (simp add: fun_eq_iff writeSetting_def write_chip_setting_def Let_def)

definition config_steps :: "nat \<Rightarrow> (u32 \<Rightarrow> u32) \<Rightarrow> bool" where
  "config_steps n X \<longleftrightarrow> (n > 0 \<longrightarrow> X CSR_LMS7002M_CONTROL_ADDR = 0x300)
     \<and> (n > 1 \<longrightarrow> X CSR_PCIE_DMA0_LOOPBACK_ENABLE_ADDR = 1)
     \<and> (n > 2 \<longrightarrow> bit (X CSR_LMS7002M_TX_PATTERN_CONTROL_ADDR) 0)
     \<and> (n > 3 \<longrightarrow> bit (X CSR_LMS7002M_RX_PATTERN_CONTROL_ADDR) 0)
     \<and> (n > 4 \<longrightarrow> take_bit 5 (drop_bit 8 (X CSR_LMS7002M_DELAY_ADDR)) = 16)
     \<and> (n > 5 \<longrightarrow> take_bit 5 (X CSR_LMS7002M_DELAY_ADDR) = 16)"

lemma config_steps_done: "config_steps 6 X \<Longrightarrow> test_config X"
  by (simp add: config_steps_def test_config_def setting_text_keys to_string_16)

lemma reset_fpga_run:
  assumes "stored e init"
  shows "returns (holding e init A) (reset_fpga e) (\<lambda>_. holding e init test_config)"
proof -
  note [simp] = config_steps_def csr_defs
  have d16: "of_nat 16 = (16 :: u32)" by simp
  show ?thesis
    unfolding reset_fpga_def loopback_key writeSetting_keys
  proof (intro returns_stmts_Cons)
    show "returns (holding e init A) (writel e CSR_LMS7002M_CONTROL_ADDR (push_bit CSR_LMS7002M_CONTROL_RESET_OFFSET 1))
        (\<lambda>_. holding e init (config_steps 0))" by (rule holds_writel) simp
    show "returns (holding e init (config_steps 0)) (writel e CSR_LMS7002M_CONTROL_ADDR 0)
        (\<lambda>_. holding e init (config_steps 0))" by (rule holds_writel) simp
    show "returns (holding e init (config_steps 0)) (writel e CSR_LMS7002M_CONTROL_ADDR
          (push_bit CSR_LMS7002M_CONTROL_TX_ENABLE_OFFSET 1 OR push_bit CSR_LMS7002M_CONTROL_RX_ENABLE_OFFSET 1))
        (\<lambda>_. holding e init (config_steps 1))" by (rule holds_writel) simp
    show "returns (holding e init (config_steps 1)) (dma_set_loopback e True) (\<lambda>_. holding e init (config_steps 2))"
      by (rule holds_loopback) simp
    show "returns (holding e init (config_steps 2)) (write_flag e CSR_LMS7002M_TX_PATTERN_CONTROL_ADDR 0 ''1'' ''0'' ''1'')
        (\<lambda>_. holding e init (config_steps 3))"
      by (rule holds_write_flag [OF assms flag_regs_stored(2)]) (simp add: bit_simps)
    show "returns (holding e init (config_steps 3)) (write_flag e CSR_LMS7002M_RX_PATTERN_CONTROL_ADDR 0 ''1'' ''0'' ''1'')
        (\<lambda>_. holding e init (config_steps 4))"
      by (rule holds_write_flag [OF assms flag_regs_stored(3)]) (simp add: bit_simps)
    show "returns (holding e init (config_steps 4)) (write_delay e 8 5 ''16'') (\<lambda>_. holding e init (config_steps 5))"
      using delay_fields(3) [of 16, unfolded d16] by (intro holds_write_delay [OF assms]) simp
    show "returns (holding e init (config_steps 5)) (write_delay e 0 5 ''16'') (\<lambda>_. holding e init (config_steps 6))"
      using delay_fields(1,2) [of 16, unfolded d16] by (intro holds_write_delay [OF assms]) simp
    show "returns (holding e init (config_steps 6)) (stmts []) (\<lambda>_. holding e init test_config)"
      by (rule returns_weaken [OF returns_stmts_Nil]) (auto simp: holding_def intro: config_steps_done)
  qed
qed

lemma holds_antenna:
  assumes "lms_good e" "spi_free A"
    and "direction = SOAPY_SDR_RX \<Longrightarrow> \<exists>path. rx_antenna name = Some (path, w) \<and> a = CSR_RF_SWITCHES_RX_ADDR"
    and "direction = SOAPY_SDR_TX \<Longrightarrow> \<exists>band. tx_antenna name = Some (band, w) \<and> a = CSR_RF_SWITCHES_TX_ADDR"
    and "direction \<noteq> Other_direction" and "\<And>X. A X \<Longrightarrow> B (X(a := w))"
  shows "returns (holding e init A) (setAntenna e direction i name) (\<lambda>_. holding e init B)"
proof -
  have sw: "returns (holding e init A) (stmts [lms_run e c, writel e a w]) (\<lambda>_. holding e init B)" for c
    by (rule returns_stmts_Cons [OF holds_lms_run [OF assms(1,2)]],
        rule returns_stmts_Cons [OF holds_writel returns_stmts_Nil], erule assms(6))
  have tail: "returns (holding e init B) (stmts [xmod g]) (\<lambda>_. holding e init B)" for g
    by (rule returns_stmts_Cons [OF holds_xmod returns_stmts_Nil])
  show ?thesis
  proof (cases direction)
    case SOAPY_SDR_RX
    with assms(3) obtain path where "rx_antenna name = Some (path, w)" "a = CSR_RF_SWITCHES_RX_ADDR" by blast
    with SOAPY_SDR_RX sw [of "LMS_rfe_set_path (ch2LMS i) path"] show ?thesis
      unfolding setAntenna_def
      by (intro returns_stmts_Cons [where Q = "holding e init B"] holds_xret holds_xmod returns_stmts_Nil)
         (simp_all del: stmts.simps add: holds_xret)
  next
    case SOAPY_SDR_TX
    with assms(4) obtain band where "tx_antenna name = Some (band, w)" "a = CSR_RF_SWITCHES_TX_ADDR" by blast
    with SOAPY_SDR_TX sw [of "LMS_trf_select_band (ch2LMS i) band"] show ?thesis
      unfolding setAntenna_def
      by (intro returns_stmts_Cons [where P = "holding e init A" and Q = "holding e init A"]
            returns_stmts_Cons [where P = "holding e init A" and Q = "holding e init B"] holds_xret holds_xmod tail)
         (simp_all del: stmts.simps add: holds_xret)
  qed (use assms(5) in simp)
qed

lemma holds_gain:
  assumes "lms_good e" "spi_free A"
  shows "returns (holding e init A) (setGain e direction i name v) (\<lambda>_. holding e init A)"
  unfolding setGain_def Let_def
proof (rule returns_stmts_same)
  have m: "returns (holding e init A) (xbind (lms e c) (\<lambda>r. xmod (g r))) (\<lambda>_. holding e init A)" for c g
    by (rule returns_xbind [OF holds_lms [OF assms]], rule returns_weaken [OF holds_xmod]) auto
  show "returns (holding e init A) x (\<lambda>_. holding e init A)"
    if "x \<in> set (xmod h # map (\<lambda>c. xbind (lms e c) (\<lambda>r. xmod (g r))) cs)" for x h g cs
    using that by (auto intro: holds_xmod m)
qed

lemma holds_iq:
  assumes "lms_good e" "spi_free A"
  shows "returns (holding e init A) (setIQBalance e direction i b) (\<lambda>_. holding e init A)"
  unfolding setIQBalance_def
  by (rule returns_stmts_same) (auto intro: holds_lms_run [OF assms] holds_xmod)

lemma holds_master_clock:
  assumes "lms_good e" "spi_free A"
  shows "returns (holding e init A) (setMasterClockRate e rate) (\<lambda>_. holding e init A)"
  unfolding setMasterClockRate_def
proof (rule returns_xbind [OF holds_xget], rule returns_xbind [OF holds_lms [OF assms]])
  fix r
  have ok: "returns (holding e init A) (stmts [xmod g, xret ()]) (\<lambda>_. holding e init A)" for g
    by (rule returns_stmts_same) (auto intro: holds_xmod holds_xret)
  show "returns (\<lambda>x. lr_int r = 0 \<and> holding e init A x)
     (stmts [xmod g, if lr_int r \<noteq> 0 then xthrow Clock_failed else xret ()]) (\<lambda>_. holding e init A)" for g
    by (cases "lr_int r = 0") (auto simp del: stmts.simps intro: returns_weaken [OF ok] simp: returns_def [of "\<lambda>_. False"])
qed

text \<open>The configuration does not depend on the SPI registers, the RF switches or the clock selection.\<close>

definition board_regs :: "u32 list" where
  "board_regs = [CSR_RF_SWITCHES_RX_ADDR, CSR_RF_SWITCHES_TX_ADDR, CSR_VCTCXO_CONTROL_ADDR]"

lemma test_config_cong:
  assumes "test_config X" "\<And>a. a \<notin> set spi_regs \<Longrightarrow> a \<notin> set board_regs \<Longrightarrow> Y a = X a"
  shows "test_config Y"
proof -
  note [simp] = spi_regs_def board_regs_def csr_defs
  have "Y CSR_LMS7002M_CONTROL_ADDR = X CSR_LMS7002M_CONTROL_ADDR"
    "Y CSR_PCIE_DMA0_LOOPBACK_ENABLE_ADDR = X CSR_PCIE_DMA0_LOOPBACK_ENABLE_ADDR"
    "Y CSR_LMS7002M_TX_PATTERN_CONTROL_ADDR = X CSR_LMS7002M_TX_PATTERN_CONTROL_ADDR"
    "Y CSR_LMS7002M_RX_PATTERN_CONTROL_ADDR = X CSR_LMS7002M_RX_PATTERN_CONTROL_ADDR"
    "Y CSR_LMS7002M_DELAY_ADDR = X CSR_LMS7002M_DELAY_ADDR"
    by (rule assms(2); simp)+
  with assms(1) show ?thesis by (simp only: test_config_def setting_text_keys)
qed

lemma test_config_upd: "test_config X \<Longrightarrow> a \<in> set board_regs \<Longrightarrow> test_config (X(a := v))"
  by (rule test_config_cong [of X]) auto

definition constructed :: "nat \<Rightarrow> (u32 \<Rightarrow> u32) \<Rightarrow> bool" where
  "constructed n X \<longleftrightarrow> test_config X
     \<and> (n > 0 \<longrightarrow> \<not> bit (X CSR_VCTCXO_CONTROL_ADDR) 0)
     \<and> (n > 1 \<longrightarrow> X CSR_RF_SWITCHES_RX_ADDR = 0)
     \<and> (n > 2 \<longrightarrow> X CSR_RF_SWITCHES_TX_ADDR = 1)"

lemma constructed_free: "spi_free (constructed n)"
  unfolding spi_free_def
proof (intro allI impI)
  fix X Y :: "u32 \<Rightarrow> u32"
  assume eq: "\<forall>a. a \<notin> set spi_regs \<longrightarrow> Y a = X a" and X: "constructed n X"
  have "Y a = X a" if "a \<in> set board_regs" for a
    using that eq by (auto simp: board_regs_def spi_regs_def csr_defs)
  moreover have "test_config Y" using X eq by (auto simp: constructed_def intro: test_config_cong)
  ultimately show "constructed n Y" using X by (simp add: constructed_def board_regs_def)
qed

lemma constructed_weaken: "constructed n X \<Longrightarrow> m \<le> n \<Longrightarrow> constructed m X"
  unfolding constructed_def by auto

lemma constructed_rx: "constructed n X \<Longrightarrow> 0 < n \<Longrightarrow> constructed (max 2 n) (X(CSR_RF_SWITCHES_RX_ADDR := 0))"
  unfolding constructed_def
  by (auto intro!: test_config_upd simp: board_regs_def)

lemma constructed_tx: "constructed n X \<Longrightarrow> 1 < n \<Longrightarrow> constructed 3 (X(CSR_RF_SWITCHES_TX_ADDR := 1))"
  unfolding constructed_def
  by (auto intro!: test_config_upd simp: board_regs_def) (auto simp: csr_defs)

lemma constructed_clock:
  "test_config X \<Longrightarrow> constructed 1 (X(CSR_VCTCXO_CONTROL_ADDR :=
     X CSR_VCTCXO_CONTROL_ADDR AND NOT (push_bit CSR_VCTCXO_CONTROL_SEL_OFFSET 1)))"
  unfolding constructed_def
  by (auto intro!: test_config_upd simp: board_regs_def CSR_VCTCXO_CONTROL_SEL_OFFSET_def bit_simps)

lemma channel_defaults_run:
  assumes "lms_good e" "0 < n"
  shows "returns (holding e init (constructed n)) (channel_defaults e i) (\<lambda>_. holding e init (constructed 3))"
proof -
  let ?H = "\<lambda>n. holding e init (constructed n)"
  have rx: "returns (?H n) (setAntenna e SOAPY_SDR_RX i ''LNAW'') (\<lambda>_. ?H (max 2 n))"
    by (rule holds_antenna [OF assms(1) constructed_free, where a = CSR_RF_SWITCHES_RX_ADDR and w = 0])
       (auto simp: rx_antenna_def intro: constructed_rx assms(2))
  have tx: "returns (?H (max 2 n)) (setAntenna e SOAPY_SDR_TX i ''BAND1'') (\<lambda>_. ?H 3)"
    by (rule holds_antenna [OF assms(1) constructed_free, where a = CSR_RF_SWITCHES_TX_ADDR and w = 1])
       (auto simp: tx_antenna_def intro: constructed_tx)
  have rest: "returns (?H 3) (stmts ms) (\<lambda>_. ?H 3)"
    if "\<And>m. m \<in> set ms \<Longrightarrow> (\<exists>dir nm v. m = setGain e dir i nm v) \<or> (\<exists>g. m = xmod g) \<or> (\<exists>dir b. m = setIQBalance e dir i b)"
    for ms
    by (rule returns_stmts_same)
       (use that holds_gain [OF assms(1) constructed_free] holds_xmod holds_iq [OF assms(1) constructed_free] in blast)
  show ?thesis
    unfolding channel_defaults_def
    by (rule returns_stmts_Cons [OF holds_xmod], rule returns_stmts_Cons [OF rx],
        rule returns_stmts_Cons [OF tx], rule rest) auto
qed

lemma setup_run:
  assumes "stored e init" "lms_good e" "lms_create_ok e" "alloc_works (le_k (xe_lib e))"
  shows "returns (holding e init (\<lambda>_. True)) (xtrx_setup e args) (\<lambda>_. holding e init (constructed 3))"
proof -
  let ?H = "\<lambda>n. holding e init (constructed n)"
  have lib: "returns (holding e init A) m (\<lambda>_. holding e init A)"
    if "spi_free A" "(\<exists>c. m = lms_run e c) \<or> (\<exists>r. m = setMasterClockRate e r) \<or> (\<exists>g. m = xmod g)" for A m
    using that holds_lms_run [OF assms(2) that(1)] holds_master_clock [OF assms(2) that(1)] holds_xmod by blast
  have created: "(if \<not> lms_create_ok e then xthrow Create_failed else xret ()) = xret ()"
    using assms(3) by simp
  have test_free: "spi_free test_config"
    unfolding spi_free_def by (auto intro: test_config_cong)
  have ini: "returns (?H 3) (case p of None \<Rightarrow> xret () | Some path \<Rightarrow> xbind (lms e (LMS_load_ini path)) (\<lambda>r.
         if lr_int r \<noteq> 0 then xthrow Ini_failed else xret ())) (\<lambda>_. ?H 3)" for p
  proof (cases p)
    case (Some path)
    have "returns (?H 3) (xbind (lms e (LMS_load_ini path)) (\<lambda>r.
         if lr_int r \<noteq> 0 then xthrow Ini_failed else xret ())) (\<lambda>_. ?H 3)"
      by (rule returns_xbind [OF holds_lms [OF assms(2) constructed_free]])
         (auto simp: returns_def xret_def)
    then show ?thesis by (simp add: Some)
  qed (simp add: holds_xret)
  show ?thesis
    unfolding xtrx_setup_def
  proof (rule returns_stmts_append)
    show "returns (holding e init (\<lambda>_. True)) (stmts [
       xbind (xfd (getXTRXSerial (xe_lib e))) (\<lambda>_. xret ()),
       reset_fpga e,
       if \<not> lms_create_ok e then xthrow Create_failed else xret (),
       lms_run e LMS_reset,
       lms_run e (LMS_set_spi_mode 4),
       lms_run e (LMS_regs_spi_read 0x2f),
       setClockSource e ''internal'',
       lms_run e (LMS_configure_lml_port LMS_PORT2 LMS_TX 1),
       lms_run e (LMS_configure_lml_port LMS_PORT1 LMS_RX 1)]) (\<lambda>_. ?H 1)"
      unfolding created
      by (rule returns_stmts_Cons [OF returns_xbind [OF holds_serial holds_xret]],
          rule returns_stmts_Cons [OF reset_fpga_run [OF assms(1)]],
          rule returns_stmts_Cons [OF holds_xret],
          rule returns_stmts_Cons [OF lib [OF test_free]], blast,
          rule returns_stmts_Cons [OF lib [OF test_free]], blast,
          rule returns_stmts_Cons [OF lib [OF test_free]], blast,
          rule returns_stmts_Cons [OF holds_internal_clock [OF assms(1)]], erule constructed_clock,
          rule returns_stmts_same) (auto intro: lib [OF constructed_free])
  next
    show "returns (?H 1) (stmts (map (lms_run e) enable_components @ [
       setMasterClockRate e 122880000,
       xmod (\<lambda>d. d\<lparr>cachedRate := (cachedRate d)(SOAPY_SDR_RX \<mapsto> 1000000, SOAPY_SDR_TX \<mapsto> 1000000)\<rparr>),
       channel_defaults e 0,
       channel_defaults e 1,
       xbind (xfd (checked_ioctl (xe_lib e) IOCTL_MMAP_DMA_INFO)) (\<lambda>m. case m of
         InfoReply i \<Rightarrow> xmod (\<lambda>d. d\<lparr>sdr := (sdr d)\<lparr>dma_info := i\<rparr>\<rparr>) | _ \<Rightarrow> xret ()),
       dma_init_cpu e,
       case args ''ini'' of
         None \<Rightarrow> xret ()
       | Some path \<Rightarrow> xbind (lms e (LMS_load_ini path)) (\<lambda>r.
           if lr_int r \<noteq> 0 then xthrow Ini_failed else xret ())])) (\<lambda>_. ?H 3)"
    proof (rule returns_stmts_append)
      show "returns (?H 1) (stmts (map (lms_run e) enable_components)) (\<lambda>_. ?H 1)"
        by (rule returns_stmts_same) (auto intro: lib [OF constructed_free])
      have one: "(0 :: nat) < 1" and three: "(0 :: nat) < 3" by simp_all
      show "returns (?H 1) (stmts [
         setMasterClockRate e 122880000,
         xmod (\<lambda>d. d\<lparr>cachedRate := (cachedRate d)(SOAPY_SDR_RX \<mapsto> 1000000, SOAPY_SDR_TX \<mapsto> 1000000)\<rparr>),
         channel_defaults e 0,
         channel_defaults e 1,
         xbind (xfd (checked_ioctl (xe_lib e) IOCTL_MMAP_DMA_INFO)) (\<lambda>m. case m of
           InfoReply i \<Rightarrow> xmod (\<lambda>d. d\<lparr>sdr := (sdr d)\<lparr>dma_info := i\<rparr>\<rparr>) | _ \<Rightarrow> xret ()),
         dma_init_cpu e,
         case args ''ini'' of
           None \<Rightarrow> xret ()
         | Some path \<Rightarrow> xbind (lms e (LMS_load_ini path)) (\<lambda>r.
             if lr_int r \<noteq> 0 then xthrow Ini_failed else xret ())]) (\<lambda>_. ?H 3)"
        by (rule returns_stmts_Cons [OF holds_master_clock [OF assms(2) constructed_free]],
            rule returns_stmts_Cons [OF holds_xmod],
            rule returns_stmts_Cons [OF channel_defaults_run [OF assms(2) one]],
            rule returns_stmts_Cons [OF channel_defaults_run [OF assms(2) three]],
            rule returns_stmts_Cons [OF holds_info],
            rule returns_stmts_Cons [OF holds_dma_init [OF assms(4)]],
            rule returns_stmts_Cons [OF ini returns_stmts_Nil])
    qed
  qed
qed

text \<open>Opening the node changes only counters of the channel.\<close>

lemma open_run:
  assumes "chan_ready ci s" "device_ok s" "litepcie_open True ci s = (r, fo, t)"
  shows "\<exists>f. fo = Some f \<and> priv_chan f = ci" "chan_ready ci t" "device_ok t" "reg init t = reg init s"
proof -
  let ?s1 = "if reader_enable (dma_of ci s) = 0 then upd_dma ci clear_reader_counts s else s"
  have ok: "device_ok (upd_dma i g u)" if "device_ok u" "\<And>d. arrays_ok d \<Longrightarrow> arrays_ok (g d)" for i g u
    unfolding device_ok_def
  proof (intro conjI allI impI)
    show "channels (upd_dma i g u) \<le> length (chan (upd_dma i g u))" using that(1) by (simp add: device_ok_def)
    fix k assume "k < length (chan (upd_dma i g u))"
    then show "arrays_ok (dma_of k (upd_dma i g u))"
      using that by (cases "i = k") (simp_all add: device_ok_def)
  qed
  have t: "t = (if writer_enable (dma_of ci ?s1) = 0 then upd_dma ci clear_writer_counts ?s1 else ?s1)"
    and f: "fo = Some \<lparr>priv_chan = ci, reader = False, writer = False\<rparr>"
    using assms(3) by (simp_all add: litepcie_open_def Let_def)
  show "\<exists>f. fo = Some f \<and> priv_chan f = ci" by (simp add: f)
  show "chan_ready ci t" by (rule usable.keeps_open [OF assms(3,1)])
  have w: "arrays_ok (clear_writer_counts d) = arrays_ok d" "arrays_ok (clear_reader_counts d) = arrays_ok d" for d
    by (simp_all add: arrays_ok_def clear_writer_counts_def clear_reader_counts_def)
  have "device_ok ?s1" using assms(2) ok by (simp add: w)
  then show "device_ok t" using ok by (simp add: t w)
  show "reg init t = reg init s" by (simp add: t reg_def [abs_def])
qed

lemma constructor_run:
  assumes "stored e init" "lms_good e" "lms_create_ok e" "alloc_works (le_k (xe_lib e))"
    and "args ''path'' \<noteq> None" "0 \<le> open_ret (xe_lib e)"
    and "from_ok (le_arg (xe_lib e))" "to_ok (le_arg (xe_lib e))" "chan_ready ci s" "device_ok s"
  shows "\<exists>d' f t. SoapyLiteXXTRX e args d ci s = Done (Inr d', Some f, t)
    \<and> ready e (f, t) \<and> constructed 3 (reg init t)"
proof -
  obtain r fo u where o: "litepcie_open True ci s = (r, fo, u)" by (metis prod_cases3)
  note O = open_run [OF assms(9,10) o]
  obtain f where f: "fo = Some f" "priv_chan f = ci" using O(1) by blast
  have "holding e init (\<lambda>_. True) (d, f, u)"
    using O(2,3) f(2) assms(7,8) by (simp add: holding_def ready_def)
  then obtain x' where x: "xtrx_setup e args (d, f, u) = Done (Inr (), x')" "holding e init (constructed 3) x'"
    using returnsD [OF setup_run [OF assms(1-4)]] by fastforce
  obtain d' f' t where "x' = (d', f', t)" by (metis prod_cases3)
  with x o f assms(5,6) show ?thesis by (auto simp: SoapyLiteXXTRX_def holding_def)
qed

section \<open>Antennas\<close>

lemma lms_run_good:
  assumes "lms_good e" "ready e fd"
  shows "\<exists>fd'. lms_run e c (d, fd) = Done (Inr (), d\<lparr>lms_log := lms_log d @ [c]\<rparr>, fd') \<and> spi_only e fd fd'"
proof -
  obtain r y where y: "lms_do e (lms_log d) c fd = Done (r, y)" "transacts (xe_lib e) fd y"
    using assms unfolding lms_good_def by blast
  with transacts_spi [OF y(2) assms(2)] show ?thesis
    by (simp add: lms_run_def lms_def xbind_def xret_def)
qed

lemma setAntenna_rx:
  assumes "lms_good e" "ready e fd" "rx_antenna name = Some (path, w)"
  shows "\<exists>fd'. setAntenna e SOAPY_SDR_RX ch name (d, fd) = Done (Inr (),
      d\<lparr>lms_log := lms_log d @ [LMS_rfe_set_path (ch2LMS ch) path],
        cachedAnt := (cachedAnt d)((SOAPY_SDR_RX, ch) \<mapsto> name)\<rparr>, fd')
    \<and> ready e fd' \<and> reg init (snd fd') CSR_RF_SWITCHES_RX_ADDR = w"
proof -
  obtain fd1 where 1: "lms_run e (LMS_rfe_set_path (ch2LMS ch) path) (d, fd) =
      Done (Inr (), d\<lparr>lms_log := lms_log d @ [LMS_rfe_set_path (ch2LMS ch) path]\<rparr>, fd1)" "spi_only e fd fd1"
    using lms_run_good [OF assms(1,2)] by blast
  obtain f s where fd1: "fd1 = (f, s)" by fastforce
  have "ready e (f, s)" using spi_only_ready [OF 1(2) assms(2)] by (simp add: fd1)
  then show ?thesis
    using 1(1) assms(3)
    by (simp add: setAntenna_def xbind_def xret_def xmod_def fd1 writel_run)
qed

text \<open>Both channels share the switch: the second choice moves it for the first channel too.\<close>

lemma antennas_share_switch:
  assumes "lms_good e" "ready e fd" "rx_antenna a = Some (p, v)" "rx_antenna b = Some (q, w)"
  shows "\<exists>d' fd'. stmts [setAntenna e SOAPY_SDR_RX 0 a, setAntenna e SOAPY_SDR_RX 1 b] (d, fd) = Done (Inr (), d', fd')
    \<and> getAntenna SOAPY_SDR_RX 0 (d', fd') = Done (Inr a, d', fd')
    \<and> getAntenna SOAPY_SDR_RX 1 (d', fd') = Done (Inr b, d', fd')
    \<and> lms_log d' = lms_log d @ [LMS_rfe_set_path LMS_CHA p, LMS_rfe_set_path LMS_CHB q]
    \<and> reg init (snd fd') CSR_RF_SWITCHES_RX_ADDR = w"
proof -
  obtain fd1 where 1: "setAntenna e SOAPY_SDR_RX 0 a (d, fd) = Done (Inr (),
      d\<lparr>lms_log := lms_log d @ [LMS_rfe_set_path (ch2LMS 0) p],
        cachedAnt := (cachedAnt d)((SOAPY_SDR_RX, 0) \<mapsto> a)\<rparr>, fd1)" "ready e fd1"
    using setAntenna_rx [OF assms(1-3)] by blast
  let ?d = "d\<lparr>lms_log := lms_log d @ [LMS_rfe_set_path (ch2LMS 0) p],
        cachedAnt := (cachedAnt d)((SOAPY_SDR_RX, 0) \<mapsto> a)\<rparr>"
  obtain fd2 where 2: "setAntenna e SOAPY_SDR_RX 1 b (?d, fd1) = Done (Inr (),
      ?d\<lparr>lms_log := lms_log ?d @ [LMS_rfe_set_path (ch2LMS 1) q],
        cachedAnt := (cachedAnt ?d)((SOAPY_SDR_RX, 1) \<mapsto> b)\<rparr>, fd2)" "reg init (snd fd2) CSR_RF_SWITCHES_RX_ADDR = w"
    using setAntenna_rx [OF assms(1) 1(2) assms(4)] by blast
  show ?thesis
    using 1(1) 2
    by (simp add: xbind_def xret_def getAntenna_def xat_def xget_def ch2LMS_def)
qed

lemma unknown_antenna:
  "rx_antenna name = None \<Longrightarrow> setAntenna e SOAPY_SDR_RX ch name x = Done (Inl Unknown_antenna, x)"
  "tx_antenna name = None \<Longrightarrow> setAntenna e SOAPY_SDR_TX ch name x = Done (Inl Unknown_antenna, x)"
  by (simp_all add: setAntenna_def xbind_def xret_def xthrow_def)

section \<open>The search\<close>

text \<open>A node that opens and is no XTRX, and a node that is one with the serial number asked for.\<close>

definition foreign_node :: "lib_env \<Rightarrow> (string \<Rightarrow> fd option) \<Rightarrow> nat \<Rightarrow> bool" where
  "foreign_node le node i \<longleftrightarrow> (case node (node_path i) of None \<Rightarrow> False | Some fd \<Rightarrow>
     case getXTRXIdentification le fd of Done (Some s, fd) \<Rightarrow> \<not> contains XTRX_IDENT s | _ \<Rightarrow> False)"

definition wanted_node :: "lib_env \<Rightarrow> (string \<Rightarrow> fd option) \<Rightarrow> kwargs \<Rightarrow> nat \<Rightarrow> bool" where
  "wanted_node le node args i \<longleftrightarrow> (case node (node_path i) of None \<Rightarrow> False | Some fd \<Rightarrow>
     case getXTRXIdentification le fd of
       Done (Some s, fd) \<Rightarrow> contains XTRX_IDENT s \<and>
         (case args ''serial'' of None \<Rightarrow> True | Some w \<Rightarrow>
            (case getXTRXSerial le fd of Done (serial, fd) \<Rightarrow> serial = w | _ \<Rightarrow> False))
     | _ \<Rightarrow> False)"

lemma find_nodes_result:
  assumes "find_nodes le node args is = Done (Some (found, opened))"
  shows "opened = map node_path (filter (foreign_node le node) is)
    \<and> map (\<lambda>d. d ''path'') found = map (\<lambda>i. Some (node_path i)) (filter (wanted_node le node args) is)"
  using assms
proof (induction "is" arbitrary: found opened)
  case (Cons i "is")
  show ?case
  proof (cases "node (node_path i)")
    case None
    then show ?thesis using Cons by (simp add: foreign_node_def wanted_node_def)
  next
    case (Some fd)
    obtain s fd1 where s: "getXTRXIdentification le fd = Done (Some s, fd1)"
      using Cons.prems by (auto simp: Some lbind_Done_iff split: option.splits)
    have fw: "foreign_node le node i \<longleftrightarrow> \<not> contains XTRX_IDENT s"
      "wanted_node le node args i \<longleftrightarrow> contains XTRX_IDENT s \<and>
         (case args ''serial'' of None \<Rightarrow> True | Some w \<Rightarrow>
            (case getXTRXSerial le fd1 of Done (serial, fd) \<Rightarrow> serial = w | _ \<Rightarrow> False))"
      by (simp_all add: foreign_node_def wanted_node_def Some s)
    show ?thesis
    proof (cases "contains XTRX_IDENT s")
      case True
      then obtain ser fd2 fs where rest: "getXTRXSerial le fd1 = Done (ser, fd2)"
        "find_nodes le node args is = Done (Some (fs, opened))"
        "found = (if args ''serial'' \<noteq> None \<and> args ''serial'' \<noteq> Some ser then fs
          else args(''path'' \<mapsto> node_path i, ''serial'' \<mapsto> ser, ''identification'' \<mapsto> s) # fs)"
        using Cons.prems by (auto simp: Some s lbind_Done_iff Let_def split_beta)
      show ?thesis
        using Cons.IH [OF rest(2)] True by (cases "args ''serial''") (auto simp: fw rest(1,3))
    next
      case False
      then obtain os where rest: "find_nodes le node args is = Done (Some (found, os))" "opened = node_path i # os"
        using Cons.prems by (auto simp: Some s lbind_Done_iff)
      show ?thesis using Cons.IH [OF rest(1)] False by (simp add: fw rest(2))
    qed
  qed
qed simp

section \<open>Values that are refused\<close>

text \<open>The values a setting takes: a delay is read as a number, so leading spaces and what follows the digits do not matter.\<close>

definition setting_accepts :: "string \<Rightarrow> string \<Rightarrow> bool" where
  "setting_accepts key v \<longleftrightarrow>
     (if key = ''FPGA_TX_DELAY'' \<or> key = ''FPGA_RX_DELAY''
      then (case stoi v of Inl x \<Rightarrow> False | Inr k \<Rightarrow> 0 \<le> k \<and> k \<le> 31)
      else v \<in> set (setting_values key))"

lemma writeSetting_rejects:
  assumes "ready e (f, s)" "key \<in> set fpga_keys" "\<not> setting_accepts key v"
  shows "\<exists>x s'. writeSetting e key v (d, f, s) = Done (Inl x, d, f, s') \<and> reg init s' = reg init s"
  using assms(2)
proof (cases key rule: fpga_key_cases)
  case tx_delay
  have "case stoi v of Inl x \<Rightarrow> True | Inr k \<Rightarrow> k < 0 \<or> 31 < k"
    using assms(3) by (auto simp: setting_accepts_def tx_delay split: sum.splits)
  from write_delay_rejects [OF this] show ?thesis unfolding tx_delay writeSetting_keys by blast
next
  case rx_delay
  have "case stoi v of Inl x \<Rightarrow> True | Inr k \<Rightarrow> k < 0 \<or> 31 < k"
    using assms(3) by (auto simp: setting_accepts_def rx_delay split: sum.splits)
  from write_delay_rejects [OF this] show ?thesis unfolding rx_delay writeSetting_keys by blast
next
  case loopback
  have "v \<noteq> ''TRUE''" "v \<noteq> ''FALSE''" using assms(3) by (auto simp: setting_accepts_def setting_values_def loopback)
  from write_flag_rejects [OF assms(1) this] show ?thesis unfolding loopback writeSetting_keys by blast
next
  case tx_pattern
  have "v \<noteq> ''1''" "v \<noteq> ''0''" using assms(3) by (auto simp: setting_accepts_def setting_values_def tx_pattern)
  from write_flag_rejects [OF assms(1) this] show ?thesis unfolding tx_pattern writeSetting_keys by blast
next
  case rx_pattern
  have "v \<noteq> ''1''" "v \<noteq> ''0''" using assms(3) by (auto simp: setting_accepts_def setting_values_def rx_pattern)
  from write_flag_rejects [OF assms(1) this] show ?thesis unfolding rx_pattern writeSetting_keys by blast
qed

end
