(* ===== verification/Soapy_Rates.thy ===== *)
theory Soapy_Rates
  imports Soapy_Settings
begin

text \<open>
  Sample rates of the SoapySDR plugin: which factor \<open>setSampleRate\<close> chooses, what it programs, and
  which of the rates it lists it accepts.
\<close>

definition lms_answers :: "xtrx_env \<Rightarrow> bool" where
  "lms_answers e \<longleftrightarrow> (\<forall>h c fd. \<exists>r fd'. lms_do e h c fd = Done (r, fd'))"

lemma lms_run_answers:
  assumes "lms_answers e"
  shows "\<exists>fd'. lms_run e c (d, fd) = Done (Inr (), d\<lparr>lms_log := lms_log d @ [c]\<rparr>, fd')"
proof -
  obtain r fd' where "lms_do e (lms_log d) c fd = Done (r, fd')"
    using assms unfolding lms_answers_def by blast
  then show ?thesis by (simp add: lms_run_def xbind_def lms_def xret_def)
qed

lemma lms_run_two:
  assumes "lms_answers e"
  shows "\<exists>fd'. stmts [lms_run e c, lms_run e c'] (d, fd) =
    Done (Inr (), d\<lparr>lms_log := lms_log d @ [c, c']\<rparr>, fd')"
proof -
  obtain fd1 where 1: "lms_run e c (d, fd) = Done (Inr (), d\<lparr>lms_log := lms_log d @ [c]\<rparr>, fd1)"
    using lms_run_answers [OF assms] by blast
  obtain fd2 where 2: "lms_run e c' (d\<lparr>lms_log := lms_log d @ [c]\<rparr>, fd1) =
      Done (Inr (), d\<lparr>lms_log := lms_log d @ [c, c']\<rparr>, fd2)"
    using lms_run_answers [OF assms, of c' "d\<lparr>lms_log := lms_log d @ [c]\<rparr>" fd1] by auto
  show ?thesis by (simp add: xbind_def 1 2 xret_def)
qed

section \<open>The factor\<close>

lemma log2_ln: "ln x / ln 2 = log 2 (x :: real)"
  by (simp add: log_def)

lemma factor_bounds:
  assumes "2 \<le> (f :: real)" and "k = \<lfloor>ln f / ln 2 + 1 / 2\<rfloor>"
  shows "1 \<le> k" and "2 ^ nat k \<le> f * sqrt 2" and "f < sqrt 2 * 2 ^ nat k"
proof -
  have f: "0 < f" using assms(1) by simp
  have l: "1 \<le> log 2 f" using assms(1) by (simp add: le_log_iff)
  have k: "real_of_int k \<le> log 2 f + 1 / 2" "log 2 f + 1 / 2 < real_of_int k + 1"
    unfolding assms(2) log2_ln by linarith+
  then show k1: "1 \<le> k" using l by linarith
  have s: "sqrt 2 = 2 powr (1 / 2 :: real)" by (simp add: powr_half_sqrt)
  have p: "(2 :: real) ^ nat k = 2 powr k" using k1 by (simp add: powr_realpow [symmetric])
  have "2 powr k \<le> 2 powr (log 2 f + 1 / 2)" using k(1) by simp
  then show "2 ^ nat k \<le> f * sqrt 2" using f by (simp add: p s powr_add)
  have "2 powr log 2 f < 2 powr (1 / 2 + real_of_int k)" using k(2) by (simp add: less_powr_iff)
  then show "f < sqrt 2 * 2 ^ nat k" using f by (simp add: p s powr_add)
qed

lemma int_factor_cases:
  assumes "2 \<le> f" "f < 32 * sqrt 2"
  shows "\<exists>k. 1 \<le> k \<and> k \<le> 5 \<and> int_factor f = Some (2 ^ k) \<and> 2 ^ k \<le> f * sqrt 2 \<and> f < sqrt 2 * 2 ^ k"
proof -
  obtain k where k: "k = \<lfloor>ln f / ln 2 + 1 / 2\<rfloor>" by blast
  note b = factor_bounds [OF assms(1) k]
  have "(2 :: real) ^ nat k < 2 ^ 6"
  proof -
    have "f * sqrt 2 < 32 * sqrt 2 * sqrt 2" using assms(2) by (intro mult_strict_right_mono) simp_all
    also have "\<dots> = 2 ^ 6" by simp
    finally show ?thesis using b(2) by linarith
  qed
  then have "nat k < 6" by (simp only: power_strict_increasing_iff)
  then have "1 \<le> nat k" "nat k \<le> 5" "k < 31" using b(1) by linarith+
  with b k show ?thesis by (intro exI [of _ "nat k"]) (simp add: int_factor_def Let_def)
qed

section \<open>Setting a rate\<close>

definition rate_calls :: "soapy_direction \<Rightarrow> nat \<Rightarrow> lms_call list" where
  "rate_calls direction k =
     (case direction of
        SOAPY_SDR_RX \<Rightarrow> [LMS_rxtsp_set_decim LMS_CHAB (2 ^ k), LMS_configure_lml_port LMS_PORT1 LMS_RX (2 ^ (k - 1))]
      | SOAPY_SDR_TX \<Rightarrow> [LMS_txtsp_set_interp LMS_CHAB (2 ^ k), LMS_configure_lml_port LMS_PORT2 LMS_TX (2 ^ (k - 1))]
      | Other_direction \<Rightarrow> [])"

lemma half_power: "1 \<le> k \<Longrightarrow> (2 :: int) ^ k div 2 = 2 ^ (k - 1)"
  by (cases k) simp_all

lemma setSampleRate_accepts:
  assumes "lms_answers e" "0 < rate" "direction \<noteq> Other_direction"
    and "2 * rate \<le> tsp_rate direction d" "tsp_rate direction d < 32 * sqrt 2 * rate"
  shows "\<exists>k fd'. 1 \<le> k \<and> k \<le> 5
    \<and> setSampleRate e direction rate (d, fd) = Done (Inr (),
        d\<lparr>lms_log := lms_log d @ rate_calls direction k,
          cachedRate := (cachedRate d)(direction \<mapsto> tsp_rate direction d / 2 ^ k)\<rparr>, fd')
    \<and> tsp_rate direction d / 2 ^ k \<le> rate * sqrt 2 \<and> rate \<le> sqrt 2 * (tsp_rate direction d / 2 ^ k)"
proof -
  let ?b = "tsp_rate direction d" let ?f = "?b / rate"
  have f: "2 \<le> ?f" "?f < 32 * sqrt 2" using assms(2,4,5) by (simp_all add: field_simps)
  obtain k where k: "1 \<le> k" "k \<le> 5" "int_factor ?f = Some (2 ^ k)" "2 ^ k \<le> ?f * sqrt 2" "?f < sqrt 2 * 2 ^ k"
    using int_factor_cases [OF f] by blast
  have small: "\<not> (2 :: int) ^ k > 32"
  proof -
    have "(2 :: int) ^ k \<le> 2 ^ 5" using k(2) by (intro power_increasing) simp_all
    then show ?thesis by simp
  qed
  have run: "\<exists>fd'. setSampleRate e direction rate (d, fd) = Done (Inr (),
        d\<lparr>lms_log := lms_log d @ rate_calls direction k,
          cachedRate := (cachedRate d)(direction \<mapsto> ?b / 2 ^ k)\<rparr>, fd')"
  proof (cases direction)
    case SOAPY_SDR_RX
    have "\<exists>fd'. stmts [lms_run e (LMS_rxtsp_set_decim LMS_CHAB (2 ^ k)),
        lms_run e (LMS_configure_lml_port LMS_PORT1 LMS_RX (2 ^ k div 2))] (d, fd)
      = Done (Inr (), d\<lparr>lms_log := lms_log d @ rate_calls direction k\<rparr>, fd')"
      unfolding rate_calls_def SOAPY_SDR_RX soapy_direction.case half_power [OF k(1)]
      by (rule lms_run_two [OF assms(1)])
    then show ?thesis
      using assms(2) f(1) k(3) small unfolding setSampleRate_def
      by (elim exE) (simp add: xbind_def xget_def Let_def xmod_def xret_def SOAPY_SDR_RX)
  next
    case SOAPY_SDR_TX
    have "\<exists>fd'. stmts [lms_run e (LMS_txtsp_set_interp LMS_CHAB (2 ^ k)),
        lms_run e (LMS_configure_lml_port LMS_PORT2 LMS_TX (2 ^ k div 2))] (d, fd)
      = Done (Inr (), d\<lparr>lms_log := lms_log d @ rate_calls direction k\<rparr>, fd')"
      unfolding rate_calls_def SOAPY_SDR_TX soapy_direction.case half_power [OF k(1)]
      by (rule lms_run_two [OF assms(1)])
    then show ?thesis
      using assms(2) f(1) k(3) small unfolding setSampleRate_def
      by (elim exE) (simp add: xbind_def xget_def Let_def xmod_def xret_def SOAPY_SDR_TX)
  qed (use assms(3) in simp)
  have "?b / 2 ^ k \<le> rate * sqrt 2" "rate \<le> sqrt 2 * (?b / 2 ^ k)"
    using k(4,5) assms(2) by (simp_all add: field_simps)
  with run k(1,2) show ?thesis by blast
qed

lemma setSampleRate_too_high:
  assumes "0 < rate" "tsp_rate direction d < 2 * rate"
  shows "setSampleRate e direction rate (d, fd) = Done (Inl Rate_too_high, d, fd)"
  using assms by (simp add: setSampleRate_def xbind_def xget_def xthrow_def Let_def field_simps)

end
