(* ===== verification/Liteuart.thy ===== *)
theory Liteuart
  imports Kernel_State
begin

text \<open>
  The driver of the virtual UART, \<open>litepcie-kernel-module/liteuart.c\<close>, with the accessors of
  \<open>litex.h\<close>. A port is a record; what the driver asks of the board and of the serial core is one
  log of events in order. The answers of both (registers, the SysRq filter, time, the characters
  the console layer asks to print) are functions of that log in the record \<open>uart_env\<close>.
  Loops that poll the board may not return and are partial functions.
\<close>

section \<open>Ports and their world\<close>

datatype uart_event =
    URead u64 u32
  | UWrite u64 u32
  | URelax
  | USysrq u8 bool
  | UInsert u32 u32 u8 u32
  | UPush
  | UWakeup

record uart_port =
  membase :: u64
  port_iotype :: nat
  port_flags :: u32
  regshift :: nat
  fifosize :: nat
  iobase :: u64
  port_type :: nat
  port_line :: nat
  icount_rx :: u32
  icount_tx :: u32
  x_char :: u8
  xmit_buf :: "u8 list"
  xmit_head :: u32
  xmit_tail :: u32
  port_timeout :: nat

record liteuart_port = uart_port +
  uart_timer :: "nat option"
  uart_id :: u32
  ulog :: "uart_event list"

record uart_env =
  big_endian :: bool
  uart_reg :: "uart_event list \<Rightarrow> u64 \<Rightarrow> u32"
  sysrq_char :: "uart_event list \<Rightarrow> u8 \<Rightarrow> bool"
  jiffies :: "uart_event list \<Rightarrow> nat"
  poll_timeout :: "nat \<Rightarrow> nat"
  baud_rate :: "nat \<Rightarrow> nat \<Rightarrow> nat"
  new_timeout :: "u32 \<Rightarrow> nat \<Rightarrow> nat"
  page_bits :: nat
  console_chars :: "u8 list \<Rightarrow> u8 list"

section \<open>Register accessors\<close>

definition swab32 :: "u32 \<Rightarrow> u32" where
  "swab32 v = push_bit 24 (take_bit 8 v) OR push_bit 16 (take_bit 8 (drop_bit 8 v))
     OR push_bit 8 (take_bit 8 (drop_bit 16 v)) OR drop_bit 24 v"

definition cpu_to_le32 :: "uart_env \<Rightarrow> u32 \<Rightarrow> u32" where
  "cpu_to_le32 e v = (if big_endian e then swab32 v else v)"

definition le32_to_cpu :: "uart_env \<Rightarrow> u32 \<Rightarrow> u32" where
  "le32_to_cpu e v = (if big_endian e then swab32 v else v)"

definition write_litex_subregister :: "uart_env \<Rightarrow> u32 \<Rightarrow> u64 \<Rightarrow> liteuart_port \<Rightarrow> liteuart_port" where
  "write_litex_subregister e val addr p = p\<lparr>ulog := ulog p @ [UWrite addr (cpu_to_le32 e val)]\<rparr>"

definition read_litex_subregister :: "uart_env \<Rightarrow> u64 \<Rightarrow> liteuart_port \<Rightarrow> u32 \<times> liteuart_port" where
  "read_litex_subregister e addr p =
     (let v = uart_reg e (ulog p) addr in (le32_to_cpu e v, p\<lparr>ulog := ulog p @ [URead addr v]\<rparr>))"

definition litex_write8 :: "uart_env \<Rightarrow> u64 \<Rightarrow> u8 \<Rightarrow> liteuart_port \<Rightarrow> liteuart_port" where
  "litex_write8 e r v = write_litex_subregister e (ucast v) r"

definition litex_write16 :: "uart_env \<Rightarrow> u64 \<Rightarrow> u16 \<Rightarrow> liteuart_port \<Rightarrow> liteuart_port" where
  "litex_write16 e r v = write_litex_subregister e (ucast v) r"

definition litex_write32 :: "uart_env \<Rightarrow> u64 \<Rightarrow> u32 \<Rightarrow> liteuart_port \<Rightarrow> liteuart_port" where
  "litex_write32 e r v = write_litex_subregister e v r"

definition litex_write64 :: "uart_env \<Rightarrow> u64 \<Rightarrow> u64 \<Rightarrow> liteuart_port \<Rightarrow> liteuart_port" where
  "litex_write64 e r v p =
     write_litex_subregister e (ucast v) (r + 4)
       (write_litex_subregister e (ucast (drop_bit 32 v)) r p)"

definition litex_read8 :: "uart_env \<Rightarrow> u64 \<Rightarrow> liteuart_port \<Rightarrow> u8 \<times> liteuart_port" where
  "litex_read8 e r p = (case read_litex_subregister e r p of (v, p) \<Rightarrow> (ucast v, p))"

definition litex_read16 :: "uart_env \<Rightarrow> u64 \<Rightarrow> liteuart_port \<Rightarrow> u16 \<times> liteuart_port" where
  "litex_read16 e r p = (case read_litex_subregister e r p of (v, p) \<Rightarrow> (ucast v, p))"

definition litex_read32 :: "uart_env \<Rightarrow> u64 \<Rightarrow> liteuart_port \<Rightarrow> u32 \<times> liteuart_port" where
  "litex_read32 e r p = read_litex_subregister e r p"

definition litex_read64 :: "uart_env \<Rightarrow> u64 \<Rightarrow> liteuart_port \<Rightarrow> u64 \<times> liteuart_port" where
  "litex_read64 e r p =
     (case read_litex_subregister e r p of (hi, p) \<Rightarrow>
        case read_litex_subregister e (r + 4) p of (lo, p) \<Rightarrow>
          (push_bit 32 (ucast hi) OR ucast lo, p))"

section \<open>Registers and constants\<close>

definition OFF_RXTX :: u64 where [csr_defs]: "OFF_RXTX = 0x00"
definition OFF_TXFULL :: u64 where [csr_defs]: "OFF_TXFULL = 0x04"
definition OFF_RXEMPTY :: u64 where [csr_defs]: "OFF_RXEMPTY = 0x08"
definition OFF_EV_STATUS :: u64 where [csr_defs]: "OFF_EV_STATUS = 0x0c"
definition OFF_EV_PENDING :: u64 where [csr_defs]: "OFF_EV_PENDING = 0x10"
definition OFF_EV_ENABLE :: u64 where [csr_defs]: "OFF_EV_ENABLE = 0x14"

definition CONFIG_SERIAL_LITEUART_MAX_PORTS :: nat where
  "CONFIG_SERIAL_LITEUART_MAX_PORTS = 16"

text \<open>Constants of the kernel's headers that the driver uses.\<close>

definition TTY_NORMAL :: u32 where "TTY_NORMAL = 0"
definition TIOCSER_TEMT :: u32 where "TIOCSER_TEMT = 1"
definition TIOCM_CTS :: u32 where "TIOCM_CTS = 0x20"
definition TIOCM_CAR :: u32 where "TIOCM_CAR = 0x40"
definition TIOCM_DSR :: u32 where "TIOCM_DSR = 0x100"
definition WAKEUP_CHARS :: nat where "WAKEUP_CHARS = 256"
definition PORT_UNKNOWN :: nat where "PORT_UNKNOWN = 0"
definition UPIO_MEM :: nat where "UPIO_MEM = 2"
definition UPF_BOOT_AUTOCONF :: u32 where "UPF_BOOT_AUTOCONF = push_bit 28 1"
definition IORESOURCE_TYPE_BITS :: u64 where "IORESOURCE_TYPE_BITS = 0x1f00"
definition IORESOURCE_IO :: u64 where "IORESOURCE_IO = 0x100"
definition IORESOURCE_MEM :: u64 where "IORESOURCE_MEM = 0x200"
definition IORESOURCE_REG :: u64 where "IORESOURCE_REG = 0x300"

section \<open>Receiving\<close>

definition mod_timer :: "uart_env \<Rightarrow> liteuart_port \<Rightarrow> liteuart_port" where
  "mod_timer e p = p\<lparr>uart_timer := Some (jiffies e (ulog p) + poll_timeout e (port_timeout p))\<rparr>"

text \<open>One turn of the polling loop after the character has been read; \<open>status\<close> is 1 there.\<close>

definition receive_char :: "uart_env \<Rightarrow> u32 \<Rightarrow> u8 \<Rightarrow> liteuart_port \<Rightarrow> liteuart_port" where
  "receive_char e status ch p =
     (let p = p\<lparr>icount_rx := icount_rx p + 1\<rparr>;
          taken = sysrq_char e (ulog p) ch;
          p = p\<lparr>ulog := ulog p @ [USysrq ch taken]\<rparr>;
          p = (if \<not> taken then p\<lparr>ulog := ulog p @ [UInsert status 0 ch TTY_NORMAL]\<rparr> else p)
      in p\<lparr>ulog := ulog p @ [UPush]\<rparr>)"

partial_function (option) receive_loop :: "uart_env \<Rightarrow> liteuart_port \<Rightarrow> liteuart_port option" where
  "receive_loop e p =
     (case litex_read8 e (membase p + OFF_RXEMPTY) p of (v, p) \<Rightarrow>
        let status = (if v = 0 then 1 else 0) in
        if status = 1 then
          case litex_read8 e (membase p + OFF_RXTX) p of (ch, p) \<Rightarrow>
            receive_loop e (receive_char e status ch p)
        else Some p)"

definition liteuart_timer :: "uart_env \<Rightarrow> liteuart_port \<Rightarrow> liteuart_port option" where
  "liteuart_timer e p = Option.bind (receive_loop e p) (\<lambda>p. Some (mod_timer e p))"

section \<open>Sending\<close>

partial_function (option) wait_tx :: "uart_env \<Rightarrow> liteuart_port \<Rightarrow> liteuart_port option" where
  "wait_tx e p =
     (case litex_read8 e (membase p + OFF_TXFULL) p of (v, p) \<Rightarrow>
        if v \<noteq> 0 then wait_tx e (p\<lparr>ulog := ulog p @ [URelax]\<rparr>) else Some p)"

definition liteuart_putchar :: "uart_env \<Rightarrow> u8 \<Rightarrow> liteuart_port \<Rightarrow> liteuart_port option" where
  "liteuart_putchar e ch p =
     Option.bind (wait_tx e p) (\<lambda>p. Some (litex_write8 e (membase p + OFF_RXTX) ch p))"

definition liteuart_tx_empty :: "uart_env \<Rightarrow> liteuart_port \<Rightarrow> u32 \<times> liteuart_port" where
  "liteuart_tx_empty e p =
     (case litex_read8 e (membase p + OFF_TXFULL) p of (v, p) \<Rightarrow>
        (if v = 0 then TIOCSER_TEMT else 0, p))"

definition liteuart_get_mctrl :: u32 where
  "liteuart_get_mctrl = TIOCM_CTS OR TIOCM_DSR OR TIOCM_CAR"

definition chars_pending :: "uart_env \<Rightarrow> liteuart_port \<Rightarrow> u32" where
  "chars_pending e p = (xmit_head p - xmit_tail p) AND mask (page_bits e)"

definition pop_xmit :: "uart_env \<Rightarrow> liteuart_port \<Rightarrow> u8 \<times> liteuart_port" where
  "pop_xmit e p =
     (xmit_buf p ! unat (xmit_tail p),
      p\<lparr>xmit_tail := (xmit_tail p + 1) AND mask (page_bits e), icount_tx := icount_tx p + 1\<rparr>)"

partial_function (option) transmit_loop :: "uart_env \<Rightarrow> liteuart_port \<Rightarrow> liteuart_port option" where
  "transmit_loop e p =
     (if xmit_head p \<noteq> xmit_tail p then
        case pop_xmit e p of (ch, p) \<Rightarrow> Option.bind (liteuart_putchar e ch p) (transmit_loop e)
      else Some p)"

definition liteuart_start_tx :: "uart_env \<Rightarrow> liteuart_port \<Rightarrow> liteuart_port option" where
  "liteuart_start_tx e p =
     Option.bind
       (if x_char p \<noteq> 0 then
          Some ((litex_write8 e (membase p + OFF_RXTX) (x_char p) p)\<lparr>icount_tx := icount_tx p + 1, x_char := 0\<rparr>)
        else if xmit_head p \<noteq> xmit_tail p then transmit_loop e p
        else Some p)
       (\<lambda>p. Some (if unat (chars_pending e p) < WAKEUP_CHARS then p\<lparr>ulog := ulog p @ [UWakeup]\<rparr> else p))"

section \<open>The other port operations\<close>

definition liteuart_stop_rx :: "liteuart_port \<Rightarrow> liteuart_port" where
  "liteuart_stop_rx p = p\<lparr>uart_timer := None\<rparr>"

definition liteuart_startup :: "uart_env \<Rightarrow> liteuart_port \<Rightarrow> int \<times> liteuart_port" where
  "liteuart_startup e p = (0, mod_timer e (litex_write8 e (membase p + OFF_EV_ENABLE) 0 p))"

text \<open>
  \<open>baud_rate\<close> and \<open>new_timeout\<close> are the answers of the serial core. The operations of
  \<open>liteuart_ops\<close> with an empty body (modem control, stopping the transmitter, breaks, shutdown, the
  memory region) change nothing and have no definition.
\<close>

definition liteuart_set_termios :: "uart_env \<Rightarrow> u32 \<Rightarrow> liteuart_port \<Rightarrow> liteuart_port" where
  "liteuart_set_termios e c_cflag p = p\<lparr>port_timeout := new_timeout e c_cflag (baud_rate e 0 460800)\<rparr>"

definition liteuart_config_port :: "liteuart_port \<Rightarrow> liteuart_port" where
  "liteuart_config_port p = p\<lparr>port_type := 1\<rparr>"

definition liteuart_verify_port :: "nat \<Rightarrow> liteuart_port \<Rightarrow> int" where
  "liteuart_verify_port ser_type p =
     (if port_type p \<noteq> PORT_UNKNOWN \<and> ser_type \<noteq> 1 then - EINVAL else 0)"

section \<open>What reaches the board\<close>

text \<open>The characters a log puts into the transmitter, and those it hands to the terminal.\<close>

fun uart_sent :: "u64 \<Rightarrow> uart_event list \<Rightarrow> u32 list" where
  "uart_sent b [] = []"
| "uart_sent b (UWrite a v # h) = (if a = b + OFF_RXTX then v # uart_sent b h else uart_sent b h)"
| "uart_sent b (_ # h) = uart_sent b h"

fun inserted :: "uart_event list \<Rightarrow> u8 list" where
  "inserted [] = []"
| "inserted (UInsert st ov ch fl # h) = ch # inserted h"
| "inserted (_ # h) = inserted h"

lemma uart_sent_append [simp]: "uart_sent b (h @ h') = uart_sent b h @ uart_sent b h'"
  by (induction b h rule: uart_sent.induct) auto

lemma inserted_append [simp]: "inserted (h @ h') = inserted h @ inserted h'"
  by (induction h rule: inserted.induct) auto

text \<open>
  Flow control of a log: every character is written right after a read of TXFULL that showed
  room. The flag says whether the last event was such a read.
\<close>

definition full :: "uart_env \<Rightarrow> u32 \<Rightarrow> bool" where
  "full e v \<longleftrightarrow> (ucast (le32_to_cpu e v) :: u8) \<noteq> 0"

fun flow :: "uart_env \<Rightarrow> u64 \<Rightarrow> bool \<Rightarrow> uart_event list \<Rightarrow> bool" where
  "flow e b room [] \<longleftrightarrow> True"
| "flow e b room (UWrite a v # h) \<longleftrightarrow> (a = b + OFF_RXTX \<longrightarrow> room) \<and> flow e b False h"
| "flow e b room (URead a v # h) \<longleftrightarrow> flow e b (a = b + OFF_TXFULL \<and> \<not> full e v) h"
| "flow e b room (_ # h) \<longleftrightarrow> flow e b False h"

text \<open>A transmitter that makes room again: some measure of the log falls while it is full.\<close>

definition drains :: "uart_env \<Rightarrow> u64 \<Rightarrow> (uart_event list \<Rightarrow> nat) \<Rightarrow> bool" where
  "drains e b m \<longleftrightarrow> (\<forall>h. full e (uart_reg e h (b + OFF_TXFULL)) \<longrightarrow>
     m (h @ [URead (b + OFF_TXFULL) (uart_reg e h (b + OFF_TXFULL)), URelax]) < m h)"

subsection \<open>The accessors\<close>

lemma swab32_swab32 [simp]: "swab32 (swab32 v) = v"
proof (rule bit_eqI)
  fix n assume n: "possible_bit TYPE(u32) n"
  then have "n < 32" by simp
  then have "\<exists>k<8. n = k \<or> n = 8 + k \<or> n = 16 + k \<or> n = 24 + k" by presburger
  then obtain k where "k < 8" "n = k \<or> n = 8 + k \<or> n = 16 + k \<or> n = 24 + k" by blast
  then show "bit (swab32 (swab32 v)) n = bit v n"
    by (elim disjE) (simp_all add: swab32_def bit_simps)
qed

lemma le32_cpu [simp]: "le32_to_cpu e (cpu_to_le32 e v) = v"
  by (simp add: le32_to_cpu_def cpu_to_le32_def)

lemma swab32_0 [simp]: "swab32 0 = 0"
  by (simp add: swab32_def)

lemma write_sub_simps [simp]:
  "ulog (write_litex_subregister e v a p) = ulog p @ [UWrite a (cpu_to_le32 e v)]"
  "membase (write_litex_subregister e v a p) = membase p"
  by (simp_all add: write_litex_subregister_def)

text \<open>A register that keeps what is written into it: a read shows the last write of the log.\<close>

fun held :: "u64 \<Rightarrow> u32 \<Rightarrow> uart_event list \<Rightarrow> u32" where
  "held a v [] = v"
| "held a v (UWrite b w # h) = held a (if b = a then w else v) h"
| "held a v (_ # h) = held a v h"

lemma held_append [simp]: "held a v (h @ h') = held a (held a v h) h'"
  by (induction a v h rule: held.induct) auto

definition stores :: "uart_env \<Rightarrow> u64 \<Rightarrow> u32 \<Rightarrow> bool" where
  "stores e a v \<longleftrightarrow> (\<forall>h. uart_reg e h a = held a v h)"

lemma next_subregister: "r + 4 \<noteq> (r :: u64)" "r \<noteq> r + 4"
  by simp_all

lemma join_halves: "push_bit 32 (ucast (ucast (drop_bit 32 v) :: u32)) OR ucast (ucast v :: u32) = v" for v :: u64
proof (rule bit_eqI)
  fix n assume "possible_bit TYPE(u64) n"
  then have "n < 64" by simp
  then consider "n < 32" | "32 \<le> n \<and> n < 64" by linarith
  then show "bit (push_bit 32 (ucast (ucast (drop_bit 32 v) :: u32)) OR ucast (ucast v :: u32) :: u64) n = bit v n"
    by cases (auto simp: bit_simps)
qed

lemma litex64_roundtrip:
  assumes "stores e r a" and "stores e (r + 4) b"
  shows "fst (litex_read64 e r (litex_write64 e r v p)) = v"
  using assms
  by (simp add: litex_read64_def litex_write64_def read_litex_subregister_def Let_def stores_def
      next_subregister join_halves)

lemma litex32_roundtrip:
  assumes "stores e r a"
  shows "fst (litex_read32 e r (litex_write32 e r v p)) = v"
  using assms by (simp add: litex_read32_def litex_write32_def read_litex_subregister_def stores_def Let_def)

section \<open>The transmitter\<close>

lemma flow_weaken: "flow e b False h \<Longrightarrow> flow e b r h"
  by (cases h; cases "hd h") auto

lemma flow_append: "flow e b r h \<Longrightarrow> flow e b False h' \<Longrightarrow> flow e b r (h @ h')"
  by (induction e b r h rule: flow.induct) (auto intro: flow_weaken)

lemma wait_tx_returns:
  assumes "drains e (membase p) m"
  shows "\<exists>h v. wait_tx e p = Some (p\<lparr>ulog := ulog p @ h @ [URead (membase p + OFF_TXFULL) v]\<rparr>)
    \<and> \<not> full e v \<and> uart_sent (membase p) h = [] \<and> flow e (membase p) False h"
  using assms
proof (induction "m (ulog p)" arbitrary: p rule: less_induct)
  case less
  let ?a = "membase p + OFF_TXFULL" let ?v = "uart_reg e (ulog p) ?a"
  show ?case
  proof (cases "full e ?v")
    case False
    then have "wait_tx e p = Some (p\<lparr>ulog := ulog p @ [] @ [URead ?a ?v]\<rparr>)"
      by (subst wait_tx.simps) (simp add: litex_read8_def read_litex_subregister_def Let_def full_def)
    with False show ?thesis by fastforce
  next
    case True
    let ?h = "[URead ?a ?v, URelax]"
    let ?q = "p\<lparr>ulog := ulog p @ ?h\<rparr>"
    have step: "wait_tx e p = wait_tx e ?q"
      using True by (subst wait_tx.simps)
        (simp add: litex_read8_def read_litex_subregister_def Let_def full_def)
    have "m (ulog ?q) < m (ulog p)" using True less.prems by (simp add: drains_def)
    from less.hyps [OF this] less.prems obtain h v where
      "wait_tx e ?q = Some (?q\<lparr>ulog := ulog ?q @ h @ [URead ?a v]\<rparr>)" "\<not> full e v"
      "uart_sent (membase p) h = []" "flow e (membase p) False h" by auto
    then show ?thesis
      by (intro exI [of _ "?h @ h"] exI [of _ v]) (simp add: step)
  qed
qed

lemma putchar_returns:
  assumes "drains e (membase p) m"
  shows "\<exists>h. liteuart_putchar e ch p = Some (p\<lparr>ulog := ulog p @ h\<rparr>)
    \<and> uart_sent (membase p) h = [cpu_to_le32 e (ucast ch)] \<and> flow e (membase p) False h"
proof -
  obtain h v where w: "wait_tx e p = Some (p\<lparr>ulog := ulog p @ h @ [URead (membase p + OFF_TXFULL) v]\<rparr>)"
    "\<not> full e v" "uart_sent (membase p) h = []" "flow e (membase p) False h"
    using wait_tx_returns [OF assms] by blast
  let ?h = "h @ [URead (membase p + OFF_TXFULL) v, UWrite (membase p + OFF_RXTX) (cpu_to_le32 e (ucast ch))]"
  have "flow e (membase p) False ?h" using w by (intro flow_append) simp_all
  with w show ?thesis
    by (intro exI [of _ ?h]) (simp add: liteuart_putchar_def litex_write8_def write_litex_subregister_def)
qed

subsection \<open>The transmit ring\<close>

definition ring_ok :: "uart_env \<Rightarrow> liteuart_port \<Rightarrow> bool" where
  "ring_ok e p \<longleftrightarrow> page_bits e < 32 \<and> length (xmit_buf p) = 2 ^ page_bits e
     \<and> unat (xmit_head p) < 2 ^ page_bits e \<and> unat (xmit_tail p) < 2 ^ page_bits e"

definition queued :: "uart_env \<Rightarrow> liteuart_port \<Rightarrow> u8 list" where
  "queued e p = map (\<lambda>i. xmit_buf p ! ((unat (xmit_tail p) + i) mod 2 ^ page_bits e))
     [0..<unat (chars_pending e p)]"

lemma uint_and_mask_mod: "uint (w AND mask n) = uint (w :: 'a::len word) mod 2 ^ n"
  by (simp only: uint_nat unat_and_mask_mod zmod_int) simp

lemma uint_masked_diff:
  fixes h t :: u32
  assumes "n < 32"
  shows "uint ((h - t) AND mask n) = (uint h - uint t) mod 2 ^ n"
proof -
  have "(2::int) ^ n dvd 2 ^ 32" using assms by (intro le_imp_power_dvd) simp
  then have "(uint h - uint t) mod 2 ^ 32 mod 2 ^ n = (uint h - uint t) mod 2 ^ n"
    by (rule mod_mod_cancel)
  moreover have "uint (h - t) = (uint h - uint t) mod 2 ^ 32" by (simp add: uint_word_ariths)
  ultimately show ?thesis by (simp only: uint_and_mask_mod)
qed

lemma uint_masked_succ:
  fixes t :: u32
  assumes "n < 32"
  shows "uint ((t + 1) AND mask n) = (uint t + 1) mod 2 ^ n"
proof -
  have "(2::int) ^ n dvd 2 ^ 32" using assms by (intro le_imp_power_dvd) simp
  then have "(uint t + 1) mod 2 ^ 32 mod 2 ^ n = (uint t + 1) mod 2 ^ n" by (rule mod_mod_cancel)
  moreover have "uint (t + 1) = (uint t + 1) mod 2 ^ 32" by (simp add: uint_word_ariths)
  ultimately show ?thesis by (simp only: uint_and_mask_mod)
qed

lemma unat_masked_succ:
  fixes t :: u32
  assumes "n < 32"
  shows "unat ((t + 1) AND mask n) = (unat t + 1) mod 2 ^ n"
  using uint_masked_succ [OF assms, of t]
  by (simp only: uint_nat flip: of_nat_eq_iff [where ?'a = int])
     (simp only: zmod_int of_nat_add of_nat_1 of_nat_power of_nat_numeral)?

lemma pop_distance:
  fixes h t N :: int
  assumes "0 \<le> h" "h < N" "0 \<le> t" "t < N" "h \<noteq> t"
  shows "(h - (t + 1) mod N) mod N = (h - t) mod N - 1" and "0 < (h - t) mod N"
proof -
  have "\<not> N dvd h - t"
    using assms zdvd_imp_le [of N "h - t"] zdvd_imp_le [of N "t - h"]
    by (cases "t < h") (auto simp: dvd_diff_commute)
  then have "(h - t) mod N \<noteq> 0" by (simp add: dvd_eq_mod_eq_0)
  moreover have "0 \<le> (h - t) mod N" "(h - t) mod N < N" using assms by simp_all
  ultimately show pos: "0 < (h - t) mod N" by linarith
  have "(h - (t + 1) mod N) mod N = ((h - t) mod N - 1) mod N"
    by (simp add: mod_diff_right_eq mod_diff_left_eq algebra_simps)
  also have "\<dots> = (h - t) mod N - 1"
    using pos \<open>(h - t) mod N < N\<close> by (intro mod_pos_pos_trivial) linarith+
  finally show "(h - (t + 1) mod N) mod N = (h - t) mod N - 1" .
qed

lemma ring_ok_uint:
  assumes "ring_ok e p"
  shows "uint (xmit_head p) < 2 ^ page_bits e" "uint (xmit_tail p) < 2 ^ page_bits e"
  using assms by (simp_all only: ring_ok_def uint_nat of_nat_less_numeral_power_cancel_iff)

lemma chars_pending_pop:
  assumes "ring_ok e p" and "xmit_head p \<noteq> xmit_tail p"
  shows "unat (chars_pending e p) = Suc (unat (chars_pending e (snd (pop_xmit e p))))"
proof -
  have n: "page_bits e < 32" using assms(1) by (simp add: ring_ok_def)
  have ne: "uint (xmit_head p) \<noteq> uint (xmit_tail p)" using assms(2) by (simp add: word_uint_eq_iff)
  have c: "uint (chars_pending e p) = (uint (xmit_head p) - uint (xmit_tail p)) mod 2 ^ page_bits e"
    unfolding chars_pending_def by (rule uint_masked_diff [OF n])
  have "uint (chars_pending e (snd (pop_xmit e p)))
      = (uint (xmit_head p) - (uint (xmit_tail p) + 1) mod 2 ^ page_bits e) mod 2 ^ page_bits e"
    unfolding chars_pending_def pop_xmit_def
    by (simp add: uint_masked_diff [OF n] uint_masked_succ [OF n])
  then have "uint (chars_pending e p) = uint (chars_pending e (snd (pop_xmit e p))) + 1"
    using c pop_distance(1) [OF _ ring_ok_uint(1) [OF assms(1)] _ ring_ok_uint(2) [OF assms(1)] ne]
    by simp
  then show ?thesis by (simp only: uint_nat)
qed

lemma ring_ok_pop: "ring_ok e p \<Longrightarrow> ring_ok e (snd (pop_xmit e p))"
  by (simp add: ring_ok_def pop_xmit_def unat_and_mask_mod)

lemma queued_pop:
  assumes "ring_ok e p" and "xmit_head p \<noteq> xmit_tail p"
  shows "queued e p = fst (pop_xmit e p) # queued e (snd (pop_xmit e p))"
proof -
  have n: "page_bits e < 32" using assms(1) by (simp add: ring_ok_def)
  have tail: "unat (xmit_tail (snd (pop_xmit e p))) = (unat (xmit_tail p) + 1) mod 2 ^ page_bits e"
    by (simp add: pop_xmit_def unat_masked_succ [OF n])
  show ?thesis
    using assms(1) unfolding queued_def chars_pending_pop [OF assms]
    by (simp add: upt_conv_Cons map_Suc_upt [symmetric] tail mod_add_left_eq ring_ok_def del: upt_Suc map_Suc_upt)
       (simp add: pop_xmit_def)
qed

text \<open>The loop over the ring sends everything that is queued, in order and under flow control.\<close>

lemma transmit_loop_sends:
  assumes "drains e (membase p) m" and "ring_ok e p"
  shows "\<exists>h. transmit_loop e p = Some (p\<lparr>xmit_tail := xmit_head p,
      icount_tx := icount_tx p + of_nat (length (queued e p)), ulog := ulog p @ h\<rparr>)
    \<and> uart_sent (membase p) h = map (\<lambda>c. cpu_to_le32 e (ucast c)) (queued e p)
    \<and> flow e (membase p) False h"
  using assms
proof (induction "unat (chars_pending e p)" arbitrary: p rule: less_induct)
  case less
  show ?case
  proof (cases "xmit_head p = xmit_tail p")
    case True
    then have "queued e p = []" by (simp add: queued_def chars_pending_def)
    with True show ?thesis by (subst transmit_loop.simps) (auto intro!: exI [of _ "[]"])
  next
    case False
    let ?q = "snd (pop_xmit e p)" let ?ch = "fst (pop_xmit e p)"
    have q: "membase ?q = membase p" "xmit_head ?q = xmit_head p" "ulog ?q = ulog p"
      "icount_tx ?q = icount_tx p + 1" by (simp_all add: pop_xmit_def)
    obtain h where h: "liteuart_putchar e ?ch ?q = Some (?q\<lparr>ulog := ulog p @ h\<rparr>)"
      "uart_sent (membase p) h = [cpu_to_le32 e (ucast ?ch)]" "flow e (membase p) False h"
      using putchar_returns [of e ?q m ?ch] less.prems q by auto
    let ?r = "?q\<lparr>ulog := ulog p @ h\<rparr>"
    have r: "ring_ok e ?r" "queued e ?r = queued e ?q" "chars_pending e ?r = chars_pending e ?q"
      using ring_ok_pop [OF less.prems(2)] by (simp_all add: ring_ok_def queued_def chars_pending_def)
    have "unat (chars_pending e ?r) < unat (chars_pending e p)"
      using chars_pending_pop [OF less.prems(2) False] r(3) by simp
    from less.hyps [OF this] less.prems(1) r(1) q obtain k where
      k: "transmit_loop e ?r = Some (?r\<lparr>xmit_tail := xmit_head ?r,
          icount_tx := icount_tx ?r + of_nat (length (queued e ?r)), ulog := ulog ?r @ k\<rparr>)"
        "uart_sent (membase p) k = map (\<lambda>c. cpu_to_le32 e (ucast c)) (queued e ?r)"
        "flow e (membase p) False k"
      by auto
    have "transmit_loop e p = transmit_loop e ?r"
      using False h(1) by (subst transmit_loop.simps) (simp add: split_beta)
    with h k r q queued_pop [OF less.prems(2) False] show ?thesis
      by (intro exI [of _ "h @ k"])
         (auto simp: pop_xmit_def intro: flow_append)
  qed
qed

text \<open>
  \<open>liteuart_start_tx\<close> without an urgent character: the whole queue reaches the transmitter.
\<close>

lemma start_tx_sends:
  assumes "drains e (membase p) m" and "ring_ok e p" and "x_char p = 0"
  shows "\<exists>h. liteuart_start_tx e p = Some (p\<lparr>xmit_tail := xmit_head p,
      icount_tx := icount_tx p + of_nat (length (queued e p)), ulog := ulog p @ h @ [UWakeup]\<rparr>)
    \<and> uart_sent (membase p) h = map (\<lambda>c. cpu_to_le32 e (ucast c)) (queued e p)
    \<and> flow e (membase p) False h"
proof -
  obtain h where "transmit_loop e p = Some (p\<lparr>xmit_tail := xmit_head p,
      icount_tx := icount_tx p + of_nat (length (queued e p)), ulog := ulog p @ h\<rparr>)"
    "uart_sent (membase p) h = map (\<lambda>c. cpu_to_le32 e (ucast c)) (queued e p)"
    "flow e (membase p) False h"
    using transmit_loop_sends [OF assms(1,2)] by blast
  moreover have "liteuart_start_tx e p = Option.bind (transmit_loop e p)
      (\<lambda>p. Some (if unat (chars_pending e p) < WAKEUP_CHARS then p\<lparr>ulog := ulog p @ [UWakeup]\<rparr> else p))"
    using assms(3) by (cases "xmit_head p = xmit_tail p")
      (simp_all add: liteuart_start_tx_def transmit_loop.simps [of e p])
  ultimately show ?thesis
    by (intro exI [of _ h]) (simp add: chars_pending_def WAKEUP_CHARS_def)
qed

text \<open>An urgent character is written whatever TXFULL shows, and the queue waits for the next call.\<close>

lemma start_tx_urgent:
  assumes "x_char p \<noteq> 0"
  shows "\<exists>q h. liteuart_start_tx e p = Some q \<and> x_char q = 0 \<and> xmit_tail q = xmit_tail p
    \<and> icount_tx q = icount_tx p + 1 \<and> set h \<subseteq> {UWakeup}
    \<and> ulog q = ulog p @ UWrite (membase p + OFF_RXTX) (cpu_to_le32 e (ucast (x_char p))) # h"
  using assms
  by (auto simp: liteuart_start_tx_def litex_write8_def write_litex_subregister_def)

section \<open>The receiver\<close>

text \<open>
  A receive FIFO: RXEMPTY says whether it is empty, RXTX shows its first character and reading it
  takes the character out. \<open>f\<close> is what is in the FIFO after a log.
\<close>

definition rx_fifo :: "uart_env \<Rightarrow> u64 \<Rightarrow> (uart_event list \<Rightarrow> u8 list) \<Rightarrow> bool" where
  "rx_fifo e b f \<longleftrightarrow> (\<forall>h.
     ((ucast (le32_to_cpu e (uart_reg e h (b + OFF_RXEMPTY))) :: u8) = 0 \<longleftrightarrow> f h \<noteq> [])
     \<and> (f h \<noteq> [] \<longrightarrow> ucast (le32_to_cpu e (uart_reg e h (b + OFF_RXTX))) = hd (f h))
     \<and> (\<forall>x. f (h @ [x]) = (case x of URead a v \<Rightarrow> if a = b + OFF_RXTX then tl (f h) else f h | _ \<Rightarrow> f h)))"

text \<open>The characters offered to the SysRq filter, with its answer.\<close>

fun offered :: "uart_event list \<Rightarrow> (u8 \<times> bool) list" where
  "offered [] = []"
| "offered (USysrq ch taken # h) = (ch, taken) # offered h"
| "offered (_ # h) = offered h"

lemma offered_append [simp]: "offered (h @ h') = offered h @ offered h'"
  by (induction h rule: offered.induct) auto

lemma receive_char_log:
  "receive_char e 1 ch p = p\<lparr>icount_rx := icount_rx p + 1, ulog := ulog p @
     (let taken = sysrq_char e (ulog p) ch in
      USysrq ch taken # (if taken then [] else [UInsert 1 0 ch TTY_NORMAL]) @ [UPush])\<rparr>"
  by (simp add: receive_char_def Let_def)

lemma rx_fifo_other:
  assumes "rx_fifo e b f" and "\<forall>x \<in> set k. \<forall>a v. x \<noteq> URead a v"
  shows "f (h @ k) = f h"
  using assms(2)
proof (induction k rule: rev_induct)
  case (snoc x k)
  have "f (h @ k @ [x]) = f (h @ k)"
    using assms(1) [unfolded rx_fifo_def, rule_format, of "h @ k"] snoc.prems
    by (auto split: uart_event.splits)
  with snoc show ?case by simp
qed simp

lemma receive_loop_step:
  assumes "rx_fifo e (membase p) f" and "f (ulog p) \<noteq> []"
  shows "\<exists>k taken. receive_loop e p
      = receive_loop e (p\<lparr>icount_rx := icount_rx p + 1, ulog := ulog p @ k\<rparr>)
    \<and> f (ulog p @ k) = tl (f (ulog p)) \<and> offered k = [(hd (f (ulog p)), taken)]
    \<and> inserted k = (if taken then [] else [hd (f (ulog p))])"
proof -
  let ?b = "membase p"
  let ?e = "[URead (?b + OFF_RXEMPTY) (uart_reg e (ulog p) (?b + OFF_RXEMPTY))]"
  let ?r = "[URead (?b + OFF_RXTX) (uart_reg e (ulog p @ ?e) (?b + OFF_RXTX))]"
  let ?c = "hd (f (ulog p))"
  let ?t = "sysrq_char e (ulog p @ ?e @ ?r) ?c"
  let ?k = "USysrq ?c ?t # (if ?t then [] else [UInsert 1 0 ?c TTY_NORMAL]) @ [UPush]"
  note fifo = assms(1) [unfolded rx_fifo_def, rule_format]
  have fe: "f (ulog p @ ?e) = f (ulog p)" using fifo by (simp add: csr_defs)
  have fr: "f (ulog p @ ?e @ ?r) = tl (f (ulog p))"
    using fifo [of "ulog p @ ?e"] fe by simp
  have fq: "f (ulog p @ ?e @ ?r @ ?k) = tl (f (ulog p))"
    using fr rx_fifo_other [OF assms(1), of ?k "ulog p @ ?e @ ?r"] by auto
  have "receive_loop e p = receive_loop e (p\<lparr>icount_rx := icount_rx p + 1, ulog := ulog p @ ?e @ ?r @ ?k\<rparr>)"
    using fifo [of "ulog p"] fifo [of "ulog p @ ?e"] assms(2) fe
    by (subst receive_loop.simps)
       (simp add: litex_read8_def read_litex_subregister_def receive_char_log Let_def)
  with fq show ?thesis by (intro exI [of _ "?e @ ?r @ ?k"] exI [of _ ?t]) simp
qed

lemma receive_loop_drains:
  assumes "rx_fifo e (membase p) f"
  shows "\<exists>h. receive_loop e p = Some (p\<lparr>icount_rx := icount_rx p + of_nat (length (f (ulog p))),
      ulog := ulog p @ h\<rparr>)
    \<and> f (ulog p @ h) = [] \<and> map fst (offered h) = f (ulog p)
    \<and> inserted h = map fst (filter (\<lambda>x. \<not> snd x) (offered h))"
  using assms
proof (induction "f (ulog p)" arbitrary: p)
  case Nil
  let ?v = "uart_reg e (ulog p) (membase p + OFF_RXEMPTY)"
  have "(ucast (le32_to_cpu e ?v) :: u8) \<noteq> 0" and "f (ulog p @ [URead (membase p + OFF_RXEMPTY) ?v]) = []"
    using Nil by (auto simp: rx_fifo_def csr_defs)
  with Nil show ?case
    by (subst receive_loop.simps)
       (auto simp: litex_read8_def read_litex_subregister_def Let_def intro!: exI [of _ "[URead (membase p + OFF_RXEMPTY) ?v]"])
next
  case (Cons c cs)
  then obtain k taken where
    k: "receive_loop e p = receive_loop e (p\<lparr>icount_rx := icount_rx p + 1, ulog := ulog p @ k\<rparr>)"
      "f (ulog p @ k) = cs" "offered k = [(c, taken)]" "inserted k = (if taken then [] else [c])"
    using receive_loop_step [of e p f] by (metis list.sel(1,3) list.distinct(1))
  let ?q = "p\<lparr>icount_rx := icount_rx p + 1, ulog := ulog p @ k\<rparr>"
  from Cons.hyps(1) [of ?q] Cons.prems k(2) obtain h where
    h: "receive_loop e ?q = Some (?q\<lparr>icount_rx := icount_rx ?q + of_nat (length cs), ulog := ulog ?q @ h\<rparr>)"
      "f (ulog ?q @ h) = []" "map fst (offered h) = cs"
      "inserted h = map fst (filter (\<lambda>x. \<not> snd x) (offered h))" by auto
  then show ?case
    using k by (intro exI [of _ "k @ h"]) (simp add: Cons.hyps(2) [symmetric] add.assoc)
qed

lemma timer_receives:
  assumes "rx_fifo e (membase p) f"
  shows "\<exists>h. liteuart_timer e p = Some (p\<lparr>icount_rx := icount_rx p + of_nat (length (f (ulog p))),
      ulog := ulog p @ h, uart_timer := Some (jiffies e (ulog p @ h) + poll_timeout e (port_timeout p))\<rparr>)
    \<and> f (ulog p @ h) = [] \<and> map fst (offered h) = f (ulog p)
    \<and> inserted h = map fst (filter (\<lambda>x. \<not> snd x) (offered h))"
  using receive_loop_drains [OF assms] by (auto simp: liteuart_timer_def mod_timer_def)

end
