(* ===== verification/Liteuart_Probe.thy ===== *)
theory Liteuart_Probe
  imports Liteuart
begin

text \<open>
  Life of the virtual UARTs in \<open>liteuart.c\<close>: probe with its error exits, removal, module load and
  unload, and the two consoles. The id array of the driver maps an index to the address of a port,
  the memory maps the address to the port; the serial core's list of registered lines is the third
  part of the world. The answers of the kernel are the record \<open>uart_probe_env\<close>.
\<close>

section \<open>Resources\<close>

record resource =
  res_start :: u64
  res_flags :: u64

definition resource_type :: "resource \<Rightarrow> u64" where
  "resource_type r = res_flags r AND IORESOURCE_TYPE_BITS"

text \<open>The index is only decreased at resources of the right type.\<close>

fun local_platform_get_mem_or_io :: "resource list \<Rightarrow> u32 \<Rightarrow> resource option" where
  "local_platform_get_mem_or_io [] num = None"
| "local_platform_get_mem_or_io (r # rs) num =
     (if resource_type r AND (IORESOURCE_MEM OR IORESOURCE_IO) \<noteq> 0
      then (if num = 0 then Some r else local_platform_get_mem_or_io rs (num - 1))
      else local_platform_get_mem_or_io rs num)"

section \<open>Probe and removal\<close>

record uart_world =
  uart_ids :: "nat \<Rightarrow> u64 option"
  uart_heap :: "u64 \<Rightarrow> liteuart_port option"
  uart_lines :: "nat list"
  uart_driver :: bool
  uart_platform :: bool

record uart_probe_env =
  alias_id :: int
  kzalloc_ret :: u64
  xa_alloc :: "nat set \<Rightarrow> nat \<Rightarrow> nat \<Rightarrow> int + nat"
  resources :: "resource list"
  ioremap_ret :: "resource \<Rightarrow> int + u64"
  add_one_port :: "nat \<Rightarrow> int"

definition zero_port :: liteuart_port where
  "zero_port = \<lparr>membase = 0, port_iotype = 0, port_flags = 0, regshift = 0, fifosize = 0, iobase = 0,
     port_type = 0, port_line = 0, icount_rx = 0, icount_tx = 0, x_char = 0, xmit_buf = [],
     xmit_head = 0, xmit_tail = 0, port_timeout = 0, uart_timer = None, uart_id = 0, ulog = []\<rparr>"

definition xa_erase :: "nat \<Rightarrow> uart_world \<Rightarrow> uart_world" where
  "xa_erase i w = w\<lparr>uart_ids := (uart_ids w)(i := None)\<rparr>"

text \<open>Memory the device core allocated for a port goes away with the failed probe or the device.\<close>

definition devm_release :: "u64 \<Rightarrow> uart_world \<Rightarrow> uart_world" where
  "devm_release a w = w\<lparr>uart_heap := (uart_heap w)(a := None)\<rparr>"

definition map_registers :: "uart_probe_env \<Rightarrow> resource \<Rightarrow> int + u64" where
  "map_registers pe res =
     (if res_flags res AND IORESOURCE_REG \<noteq> 0 then Inr (res_start res) else ioremap_ret pe res)"

definition port_setup :: "nat \<Rightarrow> u64 \<Rightarrow> liteuart_port \<Rightarrow> liteuart_port" where
  "port_setup dev_id m p = p\<lparr>membase := m, port_iotype := UPIO_MEM, port_flags := UPF_BOOT_AUTOCONF,
     regshift := 2, fifosize := 16, iobase := 1, port_type := PORT_UNKNOWN, port_line := dev_id\<rparr>"

definition id_limit :: "uart_probe_env \<Rightarrow> nat \<times> nat" where
  "id_limit pe = (if alias_id pe < 0 then (0, CONFIG_SERIAL_LITEUART_MAX_PORTS)
     else (nat (alias_id pe), nat (alias_id pe)))"

text \<open>The result of a probe: the return value, the driver data of the device, and the world.\<close>

definition liteuart_probe :: "uart_probe_env \<Rightarrow> uart_world \<Rightarrow> int \<times> u64 option \<times> uart_world" where
  "liteuart_probe pe w =
     (let a = kzalloc_ret pe in
      if a = 0 then (- ENOMEM, None, w) else
      case xa_alloc pe (dom (uart_ids w)) (fst (id_limit pe)) (snd (id_limit pe)) of
        Inl ret \<Rightarrow> (ret, None, devm_release a w)
      | Inr dev_id \<Rightarrow>
          let w = w\<lparr>uart_ids := (uart_ids w)(dev_id \<mapsto> a),
                    uart_heap := (uart_heap w)(a \<mapsto> zero_port\<lparr>uart_id := of_nat dev_id\<rparr>)\<rparr>;
              err_erase_id = devm_release a (xa_erase dev_id w)
          in case local_platform_get_mem_or_io (resources pe) 0 of
               None \<Rightarrow> (- EINVAL, None, err_erase_id)
             | Some res \<Rightarrow>
                 case map_registers pe res of
                   Inl ret \<Rightarrow> (ret, None, err_erase_id)
                 | Inr m \<Rightarrow>
                     let ret = add_one_port pe dev_id in
                     if ret \<noteq> 0 then (ret, None, err_erase_id)
                     else (0, Some a, w\<lparr>
                       uart_heap := (uart_heap w)(a \<mapsto> port_setup dev_id m (zero_port\<lparr>uart_id := of_nat dev_id\<rparr>)),
                       uart_lines := dev_id # uart_lines w\<rparr>))"

definition liteuart_remove :: "u64 \<Rightarrow> uart_world \<Rightarrow> uart_world" where
  "liteuart_remove a w =
     (case uart_heap w a of
        None \<Rightarrow> w
      | Some p \<Rightarrow> devm_release a (xa_erase (unat (uart_id p))
                    (w\<lparr>uart_lines := removeAll (port_line p) (uart_lines w)\<rparr>)))"

section \<open>Consoles\<close>

fun put_chars :: "uart_env \<Rightarrow> u8 list \<Rightarrow> liteuart_port \<Rightarrow> liteuart_port option" where
  "put_chars e [] p = Some p"
| "put_chars e (c # cs) p = Option.bind (liteuart_putchar e c p) (put_chars e cs)"

definition uart_console_write :: "uart_env \<Rightarrow> u8 list \<Rightarrow> liteuart_port \<Rightarrow> liteuart_port option" where
  "uart_console_write e s p = put_chars e (console_chars e s) p"

text \<open>
  \<open>liteuart_console_write\<close> does not check the lookup: with no port of that index it takes the lock
  of a null pointer (\<open>Inl NullDeref\<close>). \<open>Inr None\<close> is a write that does not return.
\<close>

definition liteuart_console_write :: "uart_env \<Rightarrow> nat \<Rightarrow> u8 list \<Rightarrow> uart_world \<Rightarrow> kfault + uart_world option" where
  "liteuart_console_write e co_index s w =
     (case uart_ids w co_index of
        None \<Rightarrow> Inl NullDeref
      | Some a \<Rightarrow>
          case uart_heap w a of
            None \<Rightarrow> Inl UseAfterFree
          | Some p \<Rightarrow> Inr (map_option (\<lambda>p. w\<lparr>uart_heap := (uart_heap w)(a \<mapsto> p)\<rparr>) (uart_console_write e s p)))"

definition liteuart_console_setup :: "(nat \<times> nat \<times> char \<times> char \<Rightarrow> int) \<Rightarrow> (nat \<times> nat \<times> char \<times> char) option
    \<Rightarrow> nat \<Rightarrow> uart_world \<Rightarrow> int" where
  "liteuart_console_setup uart_set_options options co_index w =
     (case uart_ids w co_index of
        None \<Rightarrow> - ENODEV
      | Some a \<Rightarrow>
          case uart_heap w a of
            None \<Rightarrow> - ENODEV
          | Some p \<Rightarrow>
              if membase p = 0 then - ENODEV
              else uart_set_options (case options of None \<Rightarrow> (115200, 8, CHR ''n'', CHR ''n'') | Some x \<Rightarrow> x))"

definition early_liteuart_write :: "uart_env \<Rightarrow> u8 list \<Rightarrow> liteuart_port \<Rightarrow> liteuart_port option" where
  "early_liteuart_write e s p = uart_console_write e s p"

definition early_liteuart_setup :: "liteuart_port \<Rightarrow> int" where
  "early_liteuart_setup p = (if membase p = 0 then - ENODEV else 0)"

section \<open>Module\<close>

definition liteuart_init :: "int \<Rightarrow> int \<Rightarrow> uart_world \<Rightarrow> int \<times> uart_world" where
  "liteuart_init register_driver register_platform w =
     (if register_driver \<noteq> 0 then (register_driver, w) else
      let w = w\<lparr>uart_driver := True\<rparr> in
      if register_platform \<noteq> 0 then (register_platform, w\<lparr>uart_driver := False\<rparr>)
      else (0, w\<lparr>uart_platform := True\<rparr>))"

text \<open>Unregistering the platform driver unbinds its devices, given by their driver data.\<close>

definition liteuart_exit :: "u64 list \<Rightarrow> uart_world \<Rightarrow> uart_world" where
  "liteuart_exit bound w =
     (let w = (fold liteuart_remove bound w)\<lparr>uart_platform := False\<rparr> in w\<lparr>uart_driver := False\<rparr>)"

section \<open>The register window\<close>

text \<open>
  The test for a register resource asks for any of two bits, one of which every resource found here
  has, so the other branch, which would map a memory resource, is never taken.
\<close>

lemma found_is_mem_or_io:
  "local_platform_get_mem_or_io rs num = Some r \<Longrightarrow> res_flags r AND IORESOURCE_REG \<noteq> 0"
proof (induction rs num rule: local_platform_get_mem_or_io.induct)
  case (2 x rs num)
  have "res_flags x AND IORESOURCE_REG \<noteq> 0"
    if "resource_type x AND (IORESOURCE_MEM OR IORESOURCE_IO) \<noteq> 0"
  proof -
    have "IORESOURCE_TYPE_BITS AND (IORESOURCE_MEM OR IORESOURCE_IO) = IORESOURCE_REG"
      by (simp add: IORESOURCE_TYPE_BITS_def IORESOURCE_MEM_def IORESOURCE_IO_def IORESOURCE_REG_def)
    then show ?thesis using that by (simp add: resource_type_def and.assoc)
  qed
  with 2 show ?case by (auto split: if_splits)
qed simp

lemma map_registers_found:
  "local_platform_get_mem_or_io rs num = Some r \<Longrightarrow> map_registers pe r = Inr (res_start r)"
  by (simp add: map_registers_def found_is_mem_or_io)

lemma probe_ignores_ioremap:
  "liteuart_probe (pe\<lparr>ioremap_ret := g\<rparr>) w = liteuart_probe pe w"
  by (auto simp: liteuart_probe_def Let_def id_limit_def map_registers_found
      split: sum.splits option.splits)

section \<open>Ids and lines\<close>

text \<open>What the kernel promises: an id inside the limit and not in use, and fresh memory.\<close>

definition probe_env_ok :: "uart_probe_env \<Rightarrow> uart_world \<Rightarrow> bool" where
  "probe_env_ok pe w \<longleftrightarrow> uart_heap w (kzalloc_ret pe) = None \<and> alias_id pe < 2 ^ 31 \<and>
     (\<forall>used lo hi i. xa_alloc pe used lo hi = Inr i \<longrightarrow> lo \<le> i \<and> i \<le> hi \<and> i \<notin> used) \<and>
     (\<forall>used lo hi r. xa_alloc pe used lo hi = Inl r \<longrightarrow> r \<noteq> 0) \<and> (\<forall>r x. ioremap_ret pe r = Inl x \<longrightarrow> x \<noteq> 0)"

text \<open>Every id belongs to one live port that carries it, and the registered lines are the ids.\<close>

definition uart_wf :: "uart_world \<Rightarrow> bool" where
  "uart_wf w \<longleftrightarrow> set (uart_lines w) = dom (uart_ids w) \<and> distinct (uart_lines w)
     \<and> (\<forall>i a. uart_ids w i = Some a \<longrightarrow> i < 2 ^ 32 \<and>
          (\<exists>p. uart_heap w a = Some p \<and> uart_id p = of_nat i \<and> port_line p = i))
     \<and> dom (uart_heap w) = ran (uart_ids w)"

inductive uart_reach :: "uart_world \<Rightarrow> bool" where
  start: "uart_reach \<lparr>uart_ids = (\<lambda>_. None), uart_heap = (\<lambda>_. None), uart_lines = [],
            uart_driver = d, uart_platform = q\<rparr>"
| bind: "uart_reach w \<Longrightarrow> probe_env_ok pe w \<Longrightarrow> uart_reach (snd (snd (liteuart_probe pe w)))"
| unbind: "uart_reach w \<Longrightarrow> a \<in> ran (uart_ids w) \<Longrightarrow> uart_reach (liteuart_remove a w)"

text \<open>A probe that fails leaves the world as it was; one that succeeds adds one port.\<close>

lemma probe_fails_clean:
  assumes "probe_env_ok pe w" and "fst (liteuart_probe pe w) \<noteq> 0"
  shows "snd (snd (liteuart_probe pe w)) = w" "fst (snd (liteuart_probe pe w)) = None"
proof -
  have undo: "devm_release a (xa_erase i (w\<lparr>uart_ids := (uart_ids w)(i \<mapsto> a), uart_heap := (uart_heap w)(a \<mapsto> p)\<rparr>)) = w"
    if "i \<notin> dom (uart_ids w)" "uart_heap w a = None" for i a p
    using that by (simp add: devm_release_def xa_erase_def fun_upd_idem domIff)
  have "uart_heap w (kzalloc_ret pe) = None" using assms(1) by (simp add: probe_env_ok_def)
  moreover have "i \<notin> dom (uart_ids w)" if "xa_alloc pe (dom (uart_ids w)) lo hi = Inr i" for i lo hi
    using assms(1) that unfolding probe_env_ok_def by blast
  ultimately show "snd (snd (liteuart_probe pe w)) = w" "fst (snd (liteuart_probe pe w)) = None"
    using assms(2) undo
    by (auto simp: liteuart_probe_def Let_def devm_release_def fun_upd_idem split: sum.splits option.splits if_splits)
qed

definition bind_port :: "nat \<Rightarrow> u64 \<Rightarrow> liteuart_port \<Rightarrow> uart_world \<Rightarrow> uart_world" where
  "bind_port i a p w = w\<lparr>uart_ids := (uart_ids w)(i \<mapsto> a), uart_heap := (uart_heap w)(a \<mapsto> p),
     uart_lines := i # uart_lines w\<rparr>"

lemma probe_succeeds:
  assumes "fst (liteuart_probe pe w) = 0" and "probe_env_ok pe w"
  shows "\<exists>i res. xa_alloc pe (dom (uart_ids w)) (fst (id_limit pe)) (snd (id_limit pe)) = Inr i
    \<and> local_platform_get_mem_or_io (resources pe) 0 = Some res
    \<and> add_one_port pe i = 0
    \<and> liteuart_probe pe w = (0, Some (kzalloc_ret pe), bind_port i (kzalloc_ret pe)
        (port_setup i (res_start res) (zero_port\<lparr>uart_id := of_nat i\<rparr>)) w)"
  using assms
  by (auto simp: liteuart_probe_def Let_def map_registers_found probe_env_ok_def ENOMEM_def EINVAL_def
      bind_port_def split: sum.splits option.splits if_splits)

lemma id_limit_small: "probe_env_ok pe w \<Longrightarrow> i \<le> snd (id_limit pe) \<Longrightarrow> i < 2 ^ 32"
  by (auto simp: probe_env_ok_def id_limit_def CONFIG_SERIAL_LITEUART_MAX_PORTS_def split: if_splits)

lemma wf_port:
  assumes "uart_wf w" and "uart_ids w i = Some a"
  obtains p where "uart_heap w a = Some p" "uart_id p = of_nat i" "port_line p = i" "i < 2 ^ 32"
  using assms unfolding uart_wf_def by blast

lemma uart_wf_bind_port:
  assumes wf: "uart_wf w" and new: "i \<notin> dom (uart_ids w)" "i < 2 ^ 32" "uart_heap w a = None"
    and p: "uart_id p = of_nat i" "port_line p = i"
  shows "uart_wf (bind_port i a p w)"
proof -
  have "uart_ids w i = None" using new(1) by blast
  then have ran: "ran ((uart_ids w)(i \<mapsto> a)) = insert a (ran (uart_ids w))" by (rule ran_map_upd)
  have "j < 2 ^ 32 \<and> (\<exists>q. ((uart_heap w)(a \<mapsto> p)) b = Some q \<and> uart_id q = of_nat j \<and> port_line q = j)"
    if j: "((uart_ids w)(i \<mapsto> a)) j = Some b" for j b
  proof (cases "j = i")
    case True with j new p show ?thesis by simp
  next
    case False
    then obtain q where q: "j < 2 ^ 32" "uart_heap w b = Some q" "uart_id q = of_nat j" "port_line q = j"
      using wf_port [OF wf, of j b] j by auto
    then have "b \<noteq> a" using new(3) by auto
    with q show ?thesis by simp
  qed
  with wf new(1) show ?thesis by (simp add: uart_wf_def bind_port_def ran)
qed

lemma uart_wf_bind:
  assumes wf: "uart_wf w" and ok: "probe_env_ok pe w"
  shows "uart_wf (snd (snd (liteuart_probe pe w)))"
proof (cases "fst (liteuart_probe pe w) = 0")
  case False
  then show ?thesis using probe_fails_clean [OF ok] wf by simp
next
  case True
  from probe_succeeds [OF this ok] obtain i and res :: resource where
    i: "xa_alloc pe (dom (uart_ids w)) (fst (id_limit pe)) (snd (id_limit pe)) = Inr i"
    and r: "liteuart_probe pe w = (0, Some (kzalloc_ret pe), bind_port i (kzalloc_ret pe)
        (port_setup i (res_start res) (zero_port\<lparr>uart_id := of_nat i\<rparr>)) w)" by blast
  have "i \<notin> dom (uart_ids w)" "i < 2 ^ 32" "uart_heap w (kzalloc_ret pe) = None"
    using ok i id_limit_small [OF ok] unfolding probe_env_ok_def by blast+
  then show ?thesis unfolding r by (simp add: uart_wf_bind_port [OF wf] port_setup_def)
qed

lemma uart_ids_inj:
  assumes "uart_wf w" and "uart_ids w i = Some a" and "uart_ids w j = Some a"
  shows "i = j"
  using assms unfolding uart_wf_def by (metis option.inject)

lemma remove_erases:
  assumes wf: "uart_wf w" and i: "uart_ids w i = Some a"
  shows "liteuart_remove a w = w\<lparr>uart_ids := (uart_ids w)(i := None),
    uart_heap := (uart_heap w)(a := None), uart_lines := removeAll i (uart_lines w)\<rparr>"
proof -
  obtain p where "uart_heap w a = Some p" "uart_id p = of_nat i" "port_line p = i" "i < 2 ^ 32"
    using wf_port [OF wf i] by blast
  moreover have "unat (of_nat i :: u32) = i" using \<open>i < 2 ^ 32\<close> by (intro unat_of_nat_small) simp
  ultimately show ?thesis by (simp add: liteuart_remove_def devm_release_def xa_erase_def)
qed

lemma ran_remove:
  assumes wf: "uart_wf w" and a: "a \<in> ran (uart_ids w)"
  shows "ran (uart_ids (liteuart_remove a w)) = ran (uart_ids w) - {a}"
proof -
  obtain i where i: "uart_ids w i = Some a" using a by (auto simp: ran_def)
  have other: "j = i" if "uart_ids w j = Some a" for j using uart_ids_inj [OF wf that i] .
  have "ran ((uart_ids w)(i := None)) = ran (uart_ids w) - {a}"
  proof (intro equalityI subsetI)
    fix b assume "b \<in> ran ((uart_ids w)(i := None))"
    then obtain j where "j \<noteq> i" "uart_ids w j = Some b" by (auto simp: ran_def split: if_splits)
    then show "b \<in> ran (uart_ids w) - {a}" using other by (auto intro: ranI)
  next
    fix b assume "b \<in> ran (uart_ids w) - {a}"
    then obtain j where "uart_ids w j = Some b" "b \<noteq> a" by (auto simp: ran_def)
    then have "((uart_ids w)(i := None)) j = Some b" using i by auto
    then show "b \<in> ran ((uart_ids w)(i := None))" by (rule ranI)
  qed
  then show ?thesis by (simp add: remove_erases [OF wf i])
qed

lemma uart_wf_unbind:
  assumes wf: "uart_wf w" and a: "a \<in> ran (uart_ids w)"
  shows "uart_wf (liteuart_remove a w)"
proof -
  obtain i where i: "uart_ids w i = Some a" using a by (auto simp: ran_def)
  have other: "j = i" if "uart_ids w j = Some a" for j using uart_ids_inj [OF wf that i] .
  have ran: "ran ((uart_ids w)(i := None)) = ran (uart_ids w) - {a}"
    using ran_remove [OF wf a] by (simp add: remove_erases [OF wf i])
  have lines: "set (uart_lines w) = dom (uart_ids w)" "distinct (uart_lines w)"
    and heap: "dom (uart_heap w) = ran (uart_ids w)" using wf by (simp_all add: uart_wf_def)
  have ports: "j < 2 ^ 32 \<and> (\<exists>p. ((uart_heap w)(a := None)) b = Some p \<and> uart_id p = of_nat j \<and> port_line p = j)"
    if "((uart_ids w)(i := None)) j = Some b" for j b
  proof -
    have j: "uart_ids w j = Some b" "j \<noteq> i" using that by (auto split: if_splits)
    then have "b \<noteq> a" using other by blast
    then show ?thesis using wf j(1) unfolding uart_wf_def by auto
  qed
  have "set (removeAll i (uart_lines w)) = dom ((uart_ids w)(i := None))" using lines(1) by simp
  moreover have "dom ((uart_heap w)(a := None)) = ran ((uart_ids w)(i := None))" using heap ran by simp
  ultimately show ?thesis
    unfolding remove_erases [OF wf i] uart_wf_def
    using ports lines(2) by (simp add: distinct_removeAll)
qed

lemma uart_reach_wf: "uart_reach w \<Longrightarrow> uart_wf w"
proof (induction rule: uart_reach.induct)
  case (start d q) show ?case by (simp add: uart_wf_def)
qed (simp_all add: uart_wf_bind uart_wf_unbind)

text \<open>Unloading the module unbinds every device and leaves nothing behind.\<close>

lemma fold_remove:
  assumes "uart_wf w" and "distinct as" and "set as \<subseteq> ran (uart_ids w)"
  shows "uart_wf (fold liteuart_remove as w)
    \<and> ran (uart_ids (fold liteuart_remove as w)) = ran (uart_ids w) - set as"
  using assms
proof (induction as arbitrary: w)
  case (Cons a as)
  have "ran (uart_ids (liteuart_remove a w)) = ran (uart_ids w) - {a}"
    using ran_remove Cons.prems by simp
  moreover have "uart_wf (liteuart_remove a w)" using uart_wf_unbind Cons.prems by simp
  ultimately show ?case using Cons.IH [of "liteuart_remove a w"] Cons.prems by auto
qed simp

lemma exit_releases_all:
  assumes "uart_reach w" and "distinct bound" and "set bound = ran (uart_ids w)"
  shows "liteuart_exit bound w = \<lparr>uart_ids = (\<lambda>_. None), uart_heap = (\<lambda>_. None), uart_lines = [],
    uart_driver = False, uart_platform = False\<rparr>"
proof -
  have f: "uart_wf (fold liteuart_remove bound w)" "ran (uart_ids (fold liteuart_remove bound w)) = {}"
    using fold_remove [OF uart_reach_wf [OF assms(1)] assms(2)] assms(3) by auto
  then have "uart_ids (fold liteuart_remove bound w) = (\<lambda>_. None)" by (auto simp: ran_def fun_eq_iff intro: option.exhaust)
  with f show ?thesis by (auto simp: liteuart_exit_def Let_def uart_wf_def)
qed

section \<open>The seventeenth port\<close>

text \<open>
  The limit given to \<open>xa_alloc\<close> is inclusive, so with all lines of the serial driver in use it still
  hands out the id 16. The serial core refuses the line, and the probe fails with its error.
\<close>

lemma seventeenth_port:
  assumes "alias_id pe < 0" and "kzalloc_ret pe \<noteq> 0" and "probe_env_ok pe w"
    and "xa_alloc pe (dom (uart_ids w)) 0 16 = Inr 16"
    and "local_platform_get_mem_or_io (resources pe) 0 = Some r" and "add_one_port pe 16 = - EINVAL"
  shows "liteuart_probe pe w = (- EINVAL, None, w)"
proof -
  have "fst (liteuart_probe pe w) = - EINVAL"
    using assms by (simp add: liteuart_probe_def Let_def id_limit_def CONFIG_SERIAL_LITEUART_MAX_PORTS_def
        map_registers_found EINVAL_def)
  moreover from this have "fst (liteuart_probe pe w) \<noteq> 0" by (simp add: EINVAL_def)
  ultimately show ?thesis using probe_fails_clean [OF assms(3)] by (metis prod.collapse)
qed

section \<open>Console output\<close>

lemma put_chars_sends:
  assumes "drains e (membase p) m"
  shows "\<exists>h. put_chars e cs p = Some (p\<lparr>ulog := ulog p @ h\<rparr>)
    \<and> uart_sent (membase p) h = map (\<lambda>c. cpu_to_le32 e (ucast c)) cs \<and> flow e (membase p) False h"
  using assms
proof (induction cs arbitrary: p)
  case Nil show ?case by (auto intro!: exI [of _ "[]"])
next
  case (Cons c cs)
  obtain h where h: "liteuart_putchar e c p = Some (p\<lparr>ulog := ulog p @ h\<rparr>)"
    "uart_sent (membase p) h = [cpu_to_le32 e (ucast c)]" "flow e (membase p) False h"
    using putchar_returns [OF Cons.prems] by blast
  let ?q = "p\<lparr>ulog := ulog p @ h\<rparr>"
  obtain k where "put_chars e cs ?q = Some (?q\<lparr>ulog := ulog ?q @ k\<rparr>)"
    "uart_sent (membase p) k = map (\<lambda>c. cpu_to_le32 e (ucast c)) cs" "flow e (membase p) False k"
    using Cons.IH [of ?q] Cons.prems by auto
  with h show ?case by (intro exI [of _ "h @ k"]) (auto intro: flow_append)
qed

lemma console_write_sends:
  assumes "drains e (membase p) m" and "uart_ids w i = Some a" and "uart_heap w a = Some p"
  shows "\<exists>h. liteuart_console_write e i s w =
      Inr (Some (w\<lparr>uart_heap := (uart_heap w)(a \<mapsto> p\<lparr>ulog := ulog p @ h\<rparr>)\<rparr>))
    \<and> uart_sent (membase p) h = map (\<lambda>c. cpu_to_le32 e (ucast c)) (console_chars e s)
    \<and> flow e (membase p) False h"
  using put_chars_sends [OF assms(1), of "console_chars e s"] assms(2,3)
  by (auto simp: liteuart_console_write_def uart_console_write_def)

end
