(* ===== verification/Example_Host.thy ===== *)
theory Example_Host
  imports Soapy_Life Soapy_Rates Liteuart_Probe Example_Device
begin

text \<open>
  Concrete surroundings of the SoapySDR device and of the virtual UART, for the witnesses: a board
  whose registers keep what is written, an RF chip library that always succeeds, device nodes, and
  a UART whose transmitter needs one turn to make room and whose receiver holds two characters.
\<close>

section \<open>A board and its library\<close>

definition store_env :: kenv where
  "store_env = env0\<lparr>dev_read := (\<lambda>h a. reg_value a 0 h)\<rparr>"

definition store_lib :: lib_env where
  "store_lib = \<lparr>le_k = store_env, le_arg = \<lparr>from_ok = True, to_ok = True\<rparr>, open_ret = 3,
     mmap_ret = (\<lambda>o1. Some 0x40000000), calloc_ret = (\<lambda>n. 0x50000000), poll_wait = (\<lambda>s. s), poll_fails = False\<rparr>"

definition xtrx0 :: xtrx_env where
  "xtrx0 = \<lparr>xe_lib = store_lib, lms_create_ok = True,
     lms_do = (\<lambda>h c x. Done (\<lparr>lr_int = 0, lr_real = 0, lr_out = None\<rparr>, x)), base_dc_mode = False,
     base_dc_offset = 0, base_gain_range = (0, 0)\<rparr>"

lemma xtrx0_simps [simp]:
  "xe_lib xtrx0 = store_lib" "lms_create_ok xtrx0" "le_k store_lib = store_env" "open_ret store_lib = 3"
  "from_ok (le_arg store_lib)" "to_ok (le_arg store_lib)"
  "lms_do xtrx0 h c x = Done (\<lparr>lr_int = 0, lr_real = 0, lr_out = None\<rparr>, x)"
  by (simp_all add: xtrx0_def store_lib_def)

lemma xtrx0_facts:
  "stored xtrx0 (\<lambda>_. 0)" "lms_good xtrx0" "lms_answers xtrx0" "alloc_works store_env"
  using env0_alloc by (auto simp: stored_def lms_good_def lms_answers_def store_env_def intro: transacts.none)

lemma device0_ready: "chan_ready 0 device0" "ready xtrx0 (file0, device0)"
  by (simp_all add: chan_ready_def ready_def device0_chan file0_def)

lemma device0_mmio: "mmio device0 = []"
  by (simp add: device0_def init_chan_def upd_chan_def zero_device_def csr_defs)

definition object0 :: xtrx where
  "object0 = fresh_xtrx False mmap_dma_info"

section \<open>Device nodes\<close>

text \<open>One board that reads as zero everywhere, so its identification is empty, at the fourth node.\<close>

definition zero_lib :: lib_env where
  "zero_lib = store_lib\<lparr>le_k := env0\<rparr>"

definition node0 :: "string \<Rightarrow> fd option" where
  "node0 path = (if path = ''/dev/litepcie3'' then Some (file0, device0) else None)"

lemma zero_words:
  assumes "chan_ready (priv_chan f) s"
  shows "\<exists>t. read_words zero_lib as (f, s) = Done (replicate (length as) 0, (f, t))"
  using assms
proof (induction as arbitrary: s)
  case (Cons a as)
  let ?t = "snd (litepcie_readl env0 a s)"
  have r: "litepcie_readl_u zero_lib a (f, s) = Done (0, (f, ?t))"
    using lib_readl_writel(1) [of "(f, s)" zero_lib a] Cons.prems
    by (simp add: zero_lib_def litepcie_readl_def Let_def)
  have "chan_ready (priv_chan f) ?t" using Cons.prems by (simp add: chan_ready_def)
  from Cons.IH [OF this] show ?case by (auto simp: r)
qed simp

lemma zero_identification:
  "\<exists>t. getXTRXIdentification zero_lib (file0, device0) = Done (Some [], (file0, t))"
proof -
  let ?as = "map (\<lambda>i. CSR_IDENTIFIER_MEM_BASE + of_nat (4 * i)) [0..<256]"
  obtain t where "read_words zero_lib ?as (file0, device0) = Done (replicate (length ?as) 0, (file0, t))"
    using zero_words [of file0 device0 ?as] device0_ready(1) by (auto simp: file0_def)
  moreover have "(char_of (0 :: nat) :: char) = CHR 0x00" by code_simp
  ultimately show ?thesis by (simp add: getXTRXIdentification_def Let_def)
qed

lemma node_paths: "map node_path [0..<10] = [''/dev/litepcie0'', ''/dev/litepcie1'', ''/dev/litepcie2'',
  ''/dev/litepcie3'', ''/dev/litepcie4'', ''/dev/litepcie5'', ''/dev/litepcie6'', ''/dev/litepcie7'',
  ''/dev/litepcie8'', ''/dev/litepcie9'']"
  by code_simp

section \<open>A UART\<close>

definition taken :: "uart_event list \<Rightarrow> nat" where
  "taken h = length (filter (\<lambda>x. \<exists>v. x = URead 0x1000 v) h)"

definition fifo0 :: "uart_event list \<Rightarrow> u8 list" where
  "fifo0 h = drop (taken h) [104, 105]"

definition slow :: "uart_event list \<Rightarrow> bool" where
  "slow h \<longleftrightarrow> h = [] \<or> last h \<noteq> URelax"

definition uart0 :: uart_env where
  "uart0 = \<lparr>big_endian = False,
     uart_reg = (\<lambda>h a. if a = 0x1004 then (if slow h then 1 else 0)
       else if a = 0x1008 then (if fifo0 h = [] then 1 else 0)
       else if a = 0x1000 then (if fifo0 h = [] then 0 else ucast (hd (fifo0 h))) else 0),
     sysrq_char = (\<lambda>h c. c = 104), jiffies = (\<lambda>h. length h), poll_timeout = (\<lambda>t. 1), baud_rate = (\<lambda>a b. b),
     new_timeout = (\<lambda>c b. b), page_bits = 2, console_chars = (\<lambda>s. s)\<rparr>"

text \<open>A port with two characters in a ring of four, the second behind the end of the buffer.\<close>

definition port0 :: liteuart_port where
  "port0 = zero_port\<lparr>membase := 0x1000, xmit_buf := [66, 0, 0, 65], xmit_head := 1, xmit_tail := 3\<rparr>"

lemma taken_append [simp]: "taken (h @ [x]) = taken h + (if \<exists>v. x = URead 0x1000 v then 1 else 0)"
  by (simp add: taken_def)

lemma uart0_drains: "drains uart0 0x1000 (\<lambda>h. if slow h then 1 else 0)"
  by (simp add: drains_def full_def le32_to_cpu_def uart0_def OFF_TXFULL_def) (simp add: slow_def)

lemma uart0_fifo: "rx_fifo uart0 0x1000 fifo0"
proof -
  have "fifo0 (h @ [x]) = (case x of URead a v \<Rightarrow> if a = 0x1000 then tl (fifo0 h) else fifo0 h | _ \<Rightarrow> fifo0 h)" for h x
    by (cases x) (auto simp: fifo0_def drop_Suc tl_drop)
  moreover have "take_bit 32 (c :: u8) = c" for c by (rule bit_eqI) (simp add: bit_simps)
  ultimately show ?thesis
    unfolding rx_fifo_def csr_defs add_0_right by (simp add: uart0_def le32_to_cpu_def unsigned_ucast_eq)
qed

lemma port0_ring: "ring_ok uart0 port0" "queued uart0 port0 = [65, 66]" "x_char port0 = 0" "membase port0 = 0x1000"
proof -
  show "ring_ok uart0 port0" by (simp add: ring_ok_def uart0_def port0_def)
  have "unat (chars_pending uart0 port0) = 2" by (simp add: chars_pending_def uart0_def port0_def mask_eq_exp_minus_1)
  moreover have "[0..<2] = [0, 1 :: nat]" by (simp add: upt_rec)
  ultimately show "queued uart0 port0 = [65, 66]" by (simp add: queued_def) (simp add: uart0_def port0_def)
qed (simp_all add: port0_def zero_port_def)

text \<open>A kernel that hands out the lowest free id and one memory resource.\<close>

definition bind0 :: uart_probe_env where
  "bind0 = \<lparr>alias_id = -1, kzalloc_ret = 0x9000,
     xa_alloc = (\<lambda>used lo hi. if lo \<notin> used \<and> lo \<le> hi then Inr lo else if hi \<notin> used \<and> lo \<le> hi then Inr hi else Inl (- 16)),
     resources = [\<lparr>res_start = 0xf0000000, res_flags = IORESOURCE_MEM\<rparr>],
     ioremap_ret = (\<lambda>r. Inl (- 12)), add_one_port = (\<lambda>i. if i < 16 then 0 else - EINVAL)\<rparr>"

definition no_uarts :: uart_world where
  "no_uarts = \<lparr>uart_ids = (\<lambda>_. None), uart_heap = (\<lambda>_. None), uart_lines = [], uart_driver = True, uart_platform = True\<rparr>"

lemma bind0_ok: "uart_heap w 0x9000 = None \<Longrightarrow> probe_env_ok bind0 w"
  by (auto simp: probe_env_ok_def bind0_def split: if_splits)

end
