(* ===== verification/Csr_Registers.thy ===== *)
theory Csr_Registers
  imports Csr_Map
begin

text \<open>
  The whole register map of the FPGA, \<open>litepcie-kernel-module/csr.h\<close>: one table per block with its
  registers (offset from \<open>CSR_BASE\<close>, number of 32-bit words, fields) under their names in lower case
  without the prefix, and what makes the map consistent: registers do not overlap, stay inside the
  window of their block, and fields do not overlap inside a register.
\<close>

section \<open>Tables\<close>

text \<open>A field: its name, the offset of its lowest bit, its width.\<close>

type_synonym csr_field = "string \<times> nat \<times> nat"

record csr_reg =
  csr_name :: string
  csr_off :: nat
  csr_words :: nat
  csr_fields :: "csr_field list"

record csr_block =
  block_name :: string
  block_base :: nat
  block_regs :: "csr_reg list"

text \<open>A register of a table: name, offset, words, fields.\<close>

definition csr :: "string \<Rightarrow> nat \<Rightarrow> nat \<Rightarrow> csr_field list \<Rightarrow> csr_reg" where
  "csr n a w fs = \<lparr>csr_name = n, csr_off = a, csr_words = w, csr_fields = fs\<rparr>"

definition csr_uart :: csr_block where
  "csr_uart = \<lparr>block_name = ''uart'', block_base = 0x0, block_regs = [
     csr ''rxtx'' 0x0 1 [],
     csr ''txfull'' 0x4 1 [],
     csr ''rxempty'' 0x8 1 [],
     csr ''ev_status'' 0xc 1 [(''tx'', 0, 1), (''rx'', 1, 1)],
     csr ''ev_pending'' 0x10 1 [(''tx'', 0, 1), (''rx'', 1, 1)],
     csr ''ev_enable'' 0x14 1 [(''tx'', 0, 1), (''rx'', 1, 1)],
     csr ''txempty'' 0x18 1 [],
     csr ''rxfull'' 0x1c 1 [],
     csr ''xover_rxtx'' 0x20 1 [],
     csr ''xover_txfull'' 0x24 1 [],
     csr ''xover_rxempty'' 0x28 1 [],
     csr ''xover_ev_status'' 0x2c 1 [(''tx'', 0, 1), (''rx'', 1, 1)],
     csr ''xover_ev_pending'' 0x30 1 [(''tx'', 0, 1), (''rx'', 1, 1)],
     csr ''xover_ev_enable'' 0x34 1 [(''tx'', 0, 1), (''rx'', 1, 1)],
     csr ''xover_txempty'' 0x38 1 [],
     csr ''xover_rxfull'' 0x3c 1 []]\<rparr>"

definition csr_icap :: csr_block where
  "csr_icap = \<lparr>block_name = ''icap'', block_base = 0x800, block_regs = [
     csr ''addr'' 0x800 1 [],
     csr ''data'' 0x804 1 [],
     csr ''write'' 0x808 1 [],
     csr ''done'' 0x80c 1 [],
     csr ''read'' 0x810 1 []]\<rparr>"

definition csr_flash :: csr_block where
  "csr_flash = \<lparr>block_name = ''flash'', block_base = 0x1000, block_regs = [
     csr ''spi_control'' 0x1000 1 [(''start'', 0, 1), (''length'', 8, 8)],
     csr ''spi_status'' 0x1004 1 [(''done'', 0, 1), (''mode'', 1, 1)],
     csr ''spi_mosi'' 0x1008 2 [],
     csr ''spi_miso'' 0x1010 2 [],
     csr ''spi_cs'' 0x1018 1 [(''sel'', 0, 1), (''mode'', 16, 1)],
     csr ''spi_loopback'' 0x101c 1 [(''mode'', 0, 1)]]\<rparr>"

definition csr_xadc :: csr_block where
  "csr_xadc = \<lparr>block_name = ''xadc'', block_base = 0x1800, block_regs = [
     csr ''temperature'' 0x1800 1 [],
     csr ''vccint'' 0x1804 1 [],
     csr ''vccaux'' 0x1808 1 [],
     csr ''vccbram'' 0x180c 1 [],
     csr ''eoc'' 0x1810 1 [],
     csr ''eos'' 0x1814 1 []]\<rparr>"

definition csr_dna :: csr_block where
  "csr_dna = \<lparr>block_name = ''dna'', block_base = 0x2000, block_regs = [
     csr ''id'' 0x2000 2 []]\<rparr>"

definition csr_aux :: csr_block where
  "csr_aux = \<lparr>block_name = ''aux'', block_base = 0x2800, block_regs = [
     csr ''control'' 0x2800 1 [
       (''iovcc_sel'', 0, 1), (''en_smsigio'', 1, 1), (''option'', 2, 1), (''gpio13'', 3, 1)]]\<rparr>"

definition csr_ctrl :: csr_block where
  "csr_ctrl = \<lparr>block_name = ''ctrl'', block_base = 0x3000, block_regs = [
     csr ''reset'' 0x3000 1 [(''soc_rst'', 0, 1), (''cpu_rst'', 1, 1)],
     csr ''scratch'' 0x3004 1 [],
     csr ''bus_errors'' 0x3008 1 []]\<rparr>"

definition csr_flash_cs_n :: csr_block where
  "csr_flash_cs_n = \<lparr>block_name = ''flash_cs_n'', block_base = 0x3800, block_regs = [
     csr ''out'' 0x3800 1 []]\<rparr>"

definition csr_identifier_mem :: csr_block where
  "csr_identifier_mem = \<lparr>block_name = ''identifier_mem'', block_base = 0x4000, block_regs = []\<rparr>"

definition csr_leds :: csr_block where
  "csr_leds = \<lparr>block_name = ''leds'', block_base = 0x4800, block_regs = [
     csr ''out'' 0x4800 1 []]\<rparr>"

definition csr_pcie_phy :: csr_block where
  "csr_pcie_phy = \<lparr>block_name = ''pcie_phy'', block_base = 0x5000, block_regs = [
     csr ''phy_link_status'' 0x5000 1 [
       (''status'', 0, 1), (''rate'', 1, 1), (''width'', 2, 2), (''ltssm'', 4, 6)],
     csr ''phy_msi_enable'' 0x5004 1 [],
     csr ''phy_msix_enable'' 0x5008 1 [],
     csr ''phy_bus_master_enable'' 0x500c 1 [],
     csr ''phy_max_request_size'' 0x5010 1 [],
     csr ''phy_max_payload_size'' 0x5014 1 []]\<rparr>"

definition csr_pcie_msi :: csr_block where
  "csr_pcie_msi = \<lparr>block_name = ''pcie_msi'', block_base = 0x5800, block_regs = [
     csr ''enable'' 0x5800 1 [],
     csr ''clear'' 0x5804 1 [],
     csr ''vector'' 0x5808 1 []]\<rparr>"

definition csr_pcie_dma0 :: csr_block where
  "csr_pcie_dma0 = \<lparr>block_name = ''pcie_dma0'', block_base = 0x6000, block_regs = [
     csr ''writer_enable'' 0x6000 1 [],
     csr ''writer_table_value'' 0x6004 2 [
       (''address_lsb'', 0, 32), (''length'', 32, 24), (''irq_disable'', 56, 1), (''last_disable'', 57, 1)],
     csr ''writer_table_we'' 0x600c 1 [(''address_msb'', 0, 32)],
     csr ''writer_table_loop_prog_n'' 0x6010 1 [],
     csr ''writer_table_loop_status'' 0x6014 1 [(''index'', 0, 16), (''count'', 16, 16)],
     csr ''writer_table_level'' 0x6018 1 [],
     csr ''writer_table_reset'' 0x601c 1 [],
     csr ''reader_enable'' 0x6020 1 [],
     csr ''reader_table_value'' 0x6024 2 [
       (''address_lsb'', 0, 32), (''length'', 32, 24), (''irq_disable'', 56, 1), (''last_disable'', 57, 1)],
     csr ''reader_table_we'' 0x602c 1 [(''address_msb'', 0, 32)],
     csr ''reader_table_loop_prog_n'' 0x6030 1 [],
     csr ''reader_table_loop_status'' 0x6034 1 [(''index'', 0, 16), (''count'', 16, 16)],
     csr ''reader_table_level'' 0x6038 1 [],
     csr ''reader_table_reset'' 0x603c 1 [],
     csr ''loopback_enable'' 0x6040 1 [],
     csr ''synchronizer_bypass'' 0x6044 1 [],
     csr ''synchronizer_enable'' 0x6048 1 [(''mode'', 0, 2)],
     csr ''buffering_reader_fifo_control'' 0x604c 1 [
       (''depth'', 0, 24), (''scratch'', 24, 4), (''level_mode'', 31, 1)],
     csr ''buffering_reader_fifo_status'' 0x6050 1 [(''level'', 0, 24)],
     csr ''buffering_writer_fifo_control'' 0x6054 1 [
       (''depth'', 0, 24), (''scratch'', 24, 4), (''level_mode'', 31, 1)],
     csr ''buffering_writer_fifo_status'' 0x6058 1 [(''level'', 0, 24)]]\<rparr>"

definition csr_leds2 :: csr_block where
  "csr_leds2 = \<lparr>block_name = ''leds2'', block_base = 0x6800, block_regs = [
     csr ''out'' 0x6800 1 []]\<rparr>"

definition csr_pcie_endpoint :: csr_block where
  "csr_pcie_endpoint = \<lparr>block_name = ''pcie_endpoint'', block_base = 0x7000, block_regs = [
     csr ''phy_link_status'' 0x7000 1 [
       (''status'', 0, 1), (''rate'', 1, 1), (''width'', 2, 2), (''ltssm'', 4, 6)],
     csr ''phy_msi_enable'' 0x7004 1 [],
     csr ''phy_msix_enable'' 0x7008 1 [],
     csr ''phy_bus_master_enable'' 0x700c 1 [],
     csr ''phy_max_request_size'' 0x7010 1 [],
     csr ''phy_max_payload_size'' 0x7014 1 []]\<rparr>"

definition csr_timer0 :: csr_block where
  "csr_timer0 = \<lparr>block_name = ''timer0'', block_base = 0x7800, block_regs = [
     csr ''load'' 0x7800 1 [],
     csr ''reload'' 0x7804 1 [],
     csr ''en'' 0x7808 1 [],
     csr ''update_value'' 0x780c 1 [],
     csr ''value'' 0x7810 1 [],
     csr ''ev_status'' 0x7814 1 [(''zero'', 0, 1)],
     csr ''ev_pending'' 0x7818 1 [(''zero'', 0, 1)],
     csr ''ev_enable'' 0x781c 1 [(''zero'', 0, 1)]]\<rparr>"

definition csr_i2c0 :: csr_block where
  "csr_i2c0 = \<lparr>block_name = ''i2c0'', block_base = 0xa000, block_regs = [
     csr ''w'' 0xa000 1 [(''scl'', 0, 1), (''oe'', 1, 1), (''sda'', 2, 1)],
     csr ''r'' 0xa004 1 [(''sda'', 0, 1)]]\<rparr>"

definition csr_i2c1 :: csr_block where
  "csr_i2c1 = \<lparr>block_name = ''i2c1'', block_base = 0xa800, block_regs = [
     csr ''w'' 0xa800 1 [(''scl'', 0, 1), (''oe'', 1, 1), (''sda'', 2, 1)],
     csr ''r'' 0xa804 1 [(''sda'', 0, 1)]]\<rparr>"

definition csr_gps :: csr_block where
  "csr_gps = \<lparr>block_name = ''gps'', block_base = 0xb800, block_regs = [
     csr ''control'' 0xb800 1 [(''enable'', 0, 1)],
     csr ''uart_rxtx'' 0xb804 1 [],
     csr ''uart_txfull'' 0xb808 1 [],
     csr ''uart_rxempty'' 0xb80c 1 [],
     csr ''uart_ev_status'' 0xb810 1 [(''tx'', 0, 1), (''rx'', 1, 1)],
     csr ''uart_ev_pending'' 0xb814 1 [(''tx'', 0, 1), (''rx'', 1, 1)],
     csr ''uart_ev_enable'' 0xb818 1 [(''tx'', 0, 1), (''rx'', 1, 1)],
     csr ''uart_txempty'' 0xb81c 1 [],
     csr ''uart_rxfull'' 0xb820 1 []]\<rparr>"

definition csr_vctcxo :: csr_block where
  "csr_vctcxo = \<lparr>block_name = ''vctcxo'', block_base = 0xc000, block_regs = [
     csr ''control'' 0xc000 1 [(''sel'', 0, 1), (''en'', 1, 1)],
     csr ''cycles_latch'' 0xc004 1 [],
     csr ''cycles'' 0xc008 1 []]\<rparr>"

definition csr_rf_switches :: csr_block where
  "csr_rf_switches = \<lparr>block_name = ''rf_switches'', block_base = 0xc800, block_regs = [
     csr ''tx'' 0xc800 1 [],
     csr ''rx'' 0xc804 1 []]\<rparr>"

definition csr_lms7002m :: csr_block where
  "csr_lms7002m = \<lparr>block_name = ''lms7002m'', block_base = 0xd000, block_regs = [
     csr ''control'' 0xd000 1 [
       (''reset'', 0, 1), (''power_down'', 1, 1), (''tx_enable'', 8, 1), (''rx_enable'', 9, 1), (''tx_inhibit'', 10, 1), (''tx_rx_loopback_enable'', 16, 1)],
     csr ''status'' 0xd004 1 [
       (''rx_clk_active'', 0, 1), (''rx_frame_active'', 1, 1), (''rx_frame_aligned'', 2, 1)],
     csr ''delay'' 0xd008 1 [(''tx_delay'', 0, 5), (''rx_delay'', 8, 5)],
     csr ''spi_control'' 0xd00c 1 [(''start'', 0, 1), (''length'', 8, 8)],
     csr ''spi_status'' 0xd010 1 [(''done'', 0, 1), (''mode'', 1, 1)],
     csr ''spi_mosi'' 0xd014 1 [],
     csr ''spi_miso'' 0xd018 1 [],
     csr ''spi_cs'' 0xd01c 1 [(''sel'', 0, 1), (''mode'', 16, 1)],
     csr ''spi_loopback'' 0xd020 1 [(''mode'', 0, 1)],
     csr ''tx_pattern_control'' 0xd024 1 [(''enable'', 0, 1)],
     csr ''rx_pattern_control'' 0xd028 1 [(''enable'', 0, 1)],
     csr ''rx_pattern_errors'' 0xd02c 1 []]\<rparr>"

definition csr_xsync_spi :: csr_block where
  "csr_xsync_spi = \<lparr>block_name = ''xsync_spi'', block_base = 0xd800, block_regs = [
     csr ''control'' 0xd800 1 [(''start'', 0, 1), (''length'', 8, 8)],
     csr ''status'' 0xd804 1 [(''done'', 0, 1), (''mode'', 1, 1)],
     csr ''mosi'' 0xd808 1 [],
     csr ''miso'' 0xd80c 1 [],
     csr ''cs'' 0xd810 1 [(''sel'', 0, 1), (''mode'', 16, 1)],
     csr ''loopback'' 0xd814 1 [(''mode'', 0, 1)]]\<rparr>"

definition csr_synchro :: csr_block where
  "csr_synchro = \<lparr>block_name = ''synchro'', block_base = 0xe000, block_regs = [
     csr ''control'' 0xe000 1 [(''int_source'', 0, 4), (''out_source'', 4, 4)],
     csr ''status'' 0xe004 1 []]\<rparr>"

definition csr_map :: "csr_block list" where
  "csr_map = [
    csr_uart, csr_icap, csr_flash, csr_xadc, csr_dna, csr_aux, csr_ctrl, csr_flash_cs_n,
    csr_identifier_mem, csr_leds, csr_pcie_phy, csr_pcie_msi, csr_pcie_dma0, csr_leds2,
    csr_pcie_endpoint, csr_timer0, csr_i2c0, csr_i2c1, csr_gps, csr_vctcxo, csr_rf_switches,
    csr_lms7002m, csr_xsync_spi, csr_synchro]"

lemmas csr_tables = csr_map_def csr_def csr_uart_def csr_icap_def csr_flash_def csr_xadc_def
  csr_dna_def csr_aux_def csr_ctrl_def csr_flash_cs_n_def csr_identifier_mem_def csr_leds_def
  csr_pcie_phy_def csr_pcie_msi_def csr_pcie_dma0_def csr_leds2_def csr_pcie_endpoint_def
  csr_timer0_def csr_i2c0_def csr_i2c1_def csr_gps_def csr_vctcxo_def csr_rf_switches_def
  csr_lms7002m_def csr_xsync_spi_def csr_synchro_def

definition csr_all :: "csr_reg list" where
  "csr_all = concat (map block_regs csr_map)"

text \<open>The address of a register, by the names of its block and its own.\<close>

definition csr_addr :: "string \<Rightarrow> string \<Rightarrow> u32 option" where
  "csr_addr b r = Option.bind (find (\<lambda>B. block_name B = b) csr_map) (\<lambda>B.
     map_option (\<lambda>R. CSR_BASE + of_nat (csr_off R)) (find (\<lambda>R. csr_name R = r) (block_regs B)))"

definition csr_bits :: "string \<Rightarrow> string \<Rightarrow> string \<Rightarrow> (nat \<times> nat) option" where
  "csr_bits b r f = Option.bind (find (\<lambda>B. block_name B = b) csr_map) (\<lambda>B.
     Option.bind (find (\<lambda>R. csr_name R = r) (block_regs B)) (\<lambda>R. map_of (csr_fields R) f))"

section \<open>Lookup\<close>

lemma csr_block_names:
  "block_name csr_uart = ''uart''"
  "block_name csr_icap = ''icap''"
  "block_name csr_flash = ''flash''"
  "block_name csr_xadc = ''xadc''"
  "block_name csr_dna = ''dna''"
  "block_name csr_aux = ''aux''"
  "block_name csr_ctrl = ''ctrl''"
  "block_name csr_flash_cs_n = ''flash_cs_n''"
  "block_name csr_identifier_mem = ''identifier_mem''"
  "block_name csr_leds = ''leds''"
  "block_name csr_pcie_phy = ''pcie_phy''"
  "block_name csr_pcie_msi = ''pcie_msi''"
  "block_name csr_pcie_dma0 = ''pcie_dma0''"
  "block_name csr_leds2 = ''leds2''"
  "block_name csr_pcie_endpoint = ''pcie_endpoint''"
  "block_name csr_timer0 = ''timer0''"
  "block_name csr_i2c0 = ''i2c0''"
  "block_name csr_i2c1 = ''i2c1''"
  "block_name csr_gps = ''gps''"
  "block_name csr_vctcxo = ''vctcxo''"
  "block_name csr_rf_switches = ''rf_switches''"
  "block_name csr_lms7002m = ''lms7002m''"
  "block_name csr_xsync_spi = ''xsync_spi''"
  "block_name csr_synchro = ''synchro''"
  by (simp_all add: csr_tables)

lemma csr_addr_block:
  "csr_addr ''uart'' r = map_option (\<lambda>R. CSR_BASE + of_nat (csr_off R)) (find (\<lambda>R. csr_name R = r) (block_regs csr_uart))"
  "csr_addr ''icap'' r = map_option (\<lambda>R. CSR_BASE + of_nat (csr_off R)) (find (\<lambda>R. csr_name R = r) (block_regs csr_icap))"
  "csr_addr ''flash'' r = map_option (\<lambda>R. CSR_BASE + of_nat (csr_off R)) (find (\<lambda>R. csr_name R = r) (block_regs csr_flash))"
  "csr_addr ''xadc'' r = map_option (\<lambda>R. CSR_BASE + of_nat (csr_off R)) (find (\<lambda>R. csr_name R = r) (block_regs csr_xadc))"
  "csr_addr ''dna'' r = map_option (\<lambda>R. CSR_BASE + of_nat (csr_off R)) (find (\<lambda>R. csr_name R = r) (block_regs csr_dna))"
  "csr_addr ''aux'' r = map_option (\<lambda>R. CSR_BASE + of_nat (csr_off R)) (find (\<lambda>R. csr_name R = r) (block_regs csr_aux))"
  "csr_addr ''ctrl'' r = map_option (\<lambda>R. CSR_BASE + of_nat (csr_off R)) (find (\<lambda>R. csr_name R = r) (block_regs csr_ctrl))"
  "csr_addr ''flash_cs_n'' r = map_option (\<lambda>R. CSR_BASE + of_nat (csr_off R)) (find (\<lambda>R. csr_name R = r) (block_regs csr_flash_cs_n))"
  "csr_addr ''identifier_mem'' r = map_option (\<lambda>R. CSR_BASE + of_nat (csr_off R)) (find (\<lambda>R. csr_name R = r) (block_regs csr_identifier_mem))"
  "csr_addr ''leds'' r = map_option (\<lambda>R. CSR_BASE + of_nat (csr_off R)) (find (\<lambda>R. csr_name R = r) (block_regs csr_leds))"
  "csr_addr ''pcie_phy'' r = map_option (\<lambda>R. CSR_BASE + of_nat (csr_off R)) (find (\<lambda>R. csr_name R = r) (block_regs csr_pcie_phy))"
  "csr_addr ''pcie_msi'' r = map_option (\<lambda>R. CSR_BASE + of_nat (csr_off R)) (find (\<lambda>R. csr_name R = r) (block_regs csr_pcie_msi))"
  "csr_addr ''pcie_dma0'' r = map_option (\<lambda>R. CSR_BASE + of_nat (csr_off R)) (find (\<lambda>R. csr_name R = r) (block_regs csr_pcie_dma0))"
  "csr_addr ''leds2'' r = map_option (\<lambda>R. CSR_BASE + of_nat (csr_off R)) (find (\<lambda>R. csr_name R = r) (block_regs csr_leds2))"
  "csr_addr ''pcie_endpoint'' r = map_option (\<lambda>R. CSR_BASE + of_nat (csr_off R)) (find (\<lambda>R. csr_name R = r) (block_regs csr_pcie_endpoint))"
  "csr_addr ''timer0'' r = map_option (\<lambda>R. CSR_BASE + of_nat (csr_off R)) (find (\<lambda>R. csr_name R = r) (block_regs csr_timer0))"
  "csr_addr ''i2c0'' r = map_option (\<lambda>R. CSR_BASE + of_nat (csr_off R)) (find (\<lambda>R. csr_name R = r) (block_regs csr_i2c0))"
  "csr_addr ''i2c1'' r = map_option (\<lambda>R. CSR_BASE + of_nat (csr_off R)) (find (\<lambda>R. csr_name R = r) (block_regs csr_i2c1))"
  "csr_addr ''gps'' r = map_option (\<lambda>R. CSR_BASE + of_nat (csr_off R)) (find (\<lambda>R. csr_name R = r) (block_regs csr_gps))"
  "csr_addr ''vctcxo'' r = map_option (\<lambda>R. CSR_BASE + of_nat (csr_off R)) (find (\<lambda>R. csr_name R = r) (block_regs csr_vctcxo))"
  "csr_addr ''rf_switches'' r = map_option (\<lambda>R. CSR_BASE + of_nat (csr_off R)) (find (\<lambda>R. csr_name R = r) (block_regs csr_rf_switches))"
  "csr_addr ''lms7002m'' r = map_option (\<lambda>R. CSR_BASE + of_nat (csr_off R)) (find (\<lambda>R. csr_name R = r) (block_regs csr_lms7002m))"
  "csr_addr ''xsync_spi'' r = map_option (\<lambda>R. CSR_BASE + of_nat (csr_off R)) (find (\<lambda>R. csr_name R = r) (block_regs csr_xsync_spi))"
  "csr_addr ''synchro'' r = map_option (\<lambda>R. CSR_BASE + of_nat (csr_off R)) (find (\<lambda>R. csr_name R = r) (block_regs csr_synchro))"
  by (simp_all add: csr_addr_def csr_map_def csr_block_names)

lemma csr_bits_block:
  "csr_bits ''uart'' r f = Option.bind (find (\<lambda>R. csr_name R = r) (block_regs csr_uart)) (\<lambda>R. map_of (csr_fields R) f)"
  "csr_bits ''icap'' r f = Option.bind (find (\<lambda>R. csr_name R = r) (block_regs csr_icap)) (\<lambda>R. map_of (csr_fields R) f)"
  "csr_bits ''flash'' r f = Option.bind (find (\<lambda>R. csr_name R = r) (block_regs csr_flash)) (\<lambda>R. map_of (csr_fields R) f)"
  "csr_bits ''xadc'' r f = Option.bind (find (\<lambda>R. csr_name R = r) (block_regs csr_xadc)) (\<lambda>R. map_of (csr_fields R) f)"
  "csr_bits ''dna'' r f = Option.bind (find (\<lambda>R. csr_name R = r) (block_regs csr_dna)) (\<lambda>R. map_of (csr_fields R) f)"
  "csr_bits ''aux'' r f = Option.bind (find (\<lambda>R. csr_name R = r) (block_regs csr_aux)) (\<lambda>R. map_of (csr_fields R) f)"
  "csr_bits ''ctrl'' r f = Option.bind (find (\<lambda>R. csr_name R = r) (block_regs csr_ctrl)) (\<lambda>R. map_of (csr_fields R) f)"
  "csr_bits ''flash_cs_n'' r f = Option.bind (find (\<lambda>R. csr_name R = r) (block_regs csr_flash_cs_n)) (\<lambda>R. map_of (csr_fields R) f)"
  "csr_bits ''identifier_mem'' r f = Option.bind (find (\<lambda>R. csr_name R = r) (block_regs csr_identifier_mem)) (\<lambda>R. map_of (csr_fields R) f)"
  "csr_bits ''leds'' r f = Option.bind (find (\<lambda>R. csr_name R = r) (block_regs csr_leds)) (\<lambda>R. map_of (csr_fields R) f)"
  "csr_bits ''pcie_phy'' r f = Option.bind (find (\<lambda>R. csr_name R = r) (block_regs csr_pcie_phy)) (\<lambda>R. map_of (csr_fields R) f)"
  "csr_bits ''pcie_msi'' r f = Option.bind (find (\<lambda>R. csr_name R = r) (block_regs csr_pcie_msi)) (\<lambda>R. map_of (csr_fields R) f)"
  "csr_bits ''pcie_dma0'' r f = Option.bind (find (\<lambda>R. csr_name R = r) (block_regs csr_pcie_dma0)) (\<lambda>R. map_of (csr_fields R) f)"
  "csr_bits ''leds2'' r f = Option.bind (find (\<lambda>R. csr_name R = r) (block_regs csr_leds2)) (\<lambda>R. map_of (csr_fields R) f)"
  "csr_bits ''pcie_endpoint'' r f = Option.bind (find (\<lambda>R. csr_name R = r) (block_regs csr_pcie_endpoint)) (\<lambda>R. map_of (csr_fields R) f)"
  "csr_bits ''timer0'' r f = Option.bind (find (\<lambda>R. csr_name R = r) (block_regs csr_timer0)) (\<lambda>R. map_of (csr_fields R) f)"
  "csr_bits ''i2c0'' r f = Option.bind (find (\<lambda>R. csr_name R = r) (block_regs csr_i2c0)) (\<lambda>R. map_of (csr_fields R) f)"
  "csr_bits ''i2c1'' r f = Option.bind (find (\<lambda>R. csr_name R = r) (block_regs csr_i2c1)) (\<lambda>R. map_of (csr_fields R) f)"
  "csr_bits ''gps'' r f = Option.bind (find (\<lambda>R. csr_name R = r) (block_regs csr_gps)) (\<lambda>R. map_of (csr_fields R) f)"
  "csr_bits ''vctcxo'' r f = Option.bind (find (\<lambda>R. csr_name R = r) (block_regs csr_vctcxo)) (\<lambda>R. map_of (csr_fields R) f)"
  "csr_bits ''rf_switches'' r f = Option.bind (find (\<lambda>R. csr_name R = r) (block_regs csr_rf_switches)) (\<lambda>R. map_of (csr_fields R) f)"
  "csr_bits ''lms7002m'' r f = Option.bind (find (\<lambda>R. csr_name R = r) (block_regs csr_lms7002m)) (\<lambda>R. map_of (csr_fields R) f)"
  "csr_bits ''xsync_spi'' r f = Option.bind (find (\<lambda>R. csr_name R = r) (block_regs csr_xsync_spi)) (\<lambda>R. map_of (csr_fields R) f)"
  "csr_bits ''synchro'' r f = Option.bind (find (\<lambda>R. csr_name R = r) (block_regs csr_synchro)) (\<lambda>R. map_of (csr_fields R) f)"
  by (simp_all add: csr_bits_def csr_map_def csr_block_names)

section \<open>Consistency\<close>

text \<open>The byte offsets of the words of a register.\<close>

definition csr_cells :: "csr_reg \<Rightarrow> nat list" where
  "csr_cells R = map (\<lambda>i. csr_off R + 4 * i) [0..<csr_words R]"

definition field_bits :: "csr_field \<Rightarrow> nat list" where
  "field_bits f = [fst (snd f)..<fst (snd f) + snd (snd f)]"

fun ascending :: "nat list \<Rightarrow> bool" where
  "ascending (a # b # xs) \<longleftrightarrow> a < b \<and> ascending (b # xs)"
| "ascending _ \<longleftrightarrow> True"

lemma ascending_sorted: "ascending xs \<Longrightarrow> sorted_wrt (<) xs"
proof (induction xs rule: ascending.induct)
  case (1 a b xs)
  then have "sorted_wrt (<) (b # xs)" "a < b" by simp_all
  then show ?case by auto
qed auto

lemma ascending_distinct: "ascending xs \<Longrightarrow> distinct xs"
  using ascending_sorted strict_sorted_iff by blast

lemma csr_cells_ascending: "ascending (concat (map csr_cells csr_all))"
  by (simp add: csr_all_def csr_cells_def csr_tables upt_rec)

lemma csr_windows:
  "list_all (\<lambda>B. block_base B mod 0x800 = 0 \<and> block_base B + 0x800 \<le> 0x10000
     \<and> list_all (\<lambda>R. csr_off R mod 4 = 0 \<and> block_base B \<le> csr_off R
         \<and> csr_off R + 4 * csr_words R \<le> block_base B + 0x800) (block_regs B)) csr_map"
  by (simp add: csr_tables)

lemma csr_bases_ascending: "ascending (map block_base csr_map)"
  by (simp add: csr_tables)

lemma csr_fields_fit:
  "list_all (\<lambda>R. ascending (concat (map field_bits (csr_fields R)))
     \<and> list_all (\<lambda>f. fst (snd f) + snd (snd f) \<le> 32 * csr_words R) (csr_fields R)) csr_all"
  by (simp add: csr_all_def csr_tables field_bits_def upt_rec)

end
