(* ===== verification/Csr_Agree.thy ===== *)
theory Csr_Agree
  imports Csr_Registers Fw_Board Liteuart
begin

text \<open>
  The constants the models use are those of the register map, and the three places that repeat
  parts of the map under names of their own (the channel offsets of \<open>config.h\<close>, the registers of
  \<open>liteuart.c\<close>, the descriptor fields) are compared with it.
\<close>

definition used_registers :: "(string \<times> string \<times> u32) list" where
  "used_registers = [
     (''uart'', ''xover_rxtx'', CSR_UART_XOVER_RXTX_ADDR),
     (''uart'', ''xover_rxempty'', CSR_UART_XOVER_RXEMPTY_ADDR),
     (''icap'', ''addr'', CSR_ICAP_ADDR_ADDR),
     (''icap'', ''data'', CSR_ICAP_DATA_ADDR),
     (''icap'', ''write'', CSR_ICAP_WRITE_ADDR),
     (''flash'', ''spi_control'', CSR_FLASH_SPI_CONTROL_ADDR),
     (''flash'', ''spi_status'', CSR_FLASH_SPI_STATUS_ADDR),
     (''flash'', ''spi_mosi'', CSR_FLASH_SPI_MOSI_ADDR),
     (''flash'', ''spi_miso'', CSR_FLASH_SPI_MISO_ADDR),
     (''ctrl'', ''reset'', CSR_CTRL_RESET_ADDR),
     (''ctrl'', ''scratch'', CSR_CTRL_SCRATCH_ADDR),
     (''flash_cs_n'', ''out'', CSR_FLASH_CS_N_OUT_ADDR),
     (''pcie_msi'', ''enable'', CSR_PCIE_MSI_ENABLE_ADDR),
     (''pcie_msi'', ''clear'', CSR_PCIE_MSI_CLEAR_ADDR),
     (''pcie_msi'', ''vector'', CSR_PCIE_MSI_VECTOR_ADDR),
     (''pcie_dma0'', ''writer_enable'', CSR_PCIE_DMA0_WRITER_ENABLE_ADDR),
     (''pcie_dma0'', ''writer_table_value'', CSR_PCIE_DMA0_WRITER_TABLE_VALUE_ADDR),
     (''pcie_dma0'', ''writer_table_we'', CSR_PCIE_DMA0_WRITER_TABLE_WE_ADDR),
     (''pcie_dma0'', ''writer_table_loop_prog_n'', CSR_PCIE_DMA0_WRITER_TABLE_LOOP_PROG_N_ADDR),
     (''pcie_dma0'', ''writer_table_loop_status'', CSR_PCIE_DMA0_WRITER_TABLE_LOOP_STATUS_ADDR),
     (''pcie_dma0'', ''writer_table_level'', CSR_PCIE_DMA0_WRITER_TABLE_LEVEL_ADDR),
     (''pcie_dma0'', ''writer_table_reset'', CSR_PCIE_DMA0_WRITER_TABLE_RESET_ADDR),
     (''pcie_dma0'', ''reader_enable'', CSR_PCIE_DMA0_READER_ENABLE_ADDR),
     (''pcie_dma0'', ''reader_table_value'', CSR_PCIE_DMA0_READER_TABLE_VALUE_ADDR),
     (''pcie_dma0'', ''reader_table_we'', CSR_PCIE_DMA0_READER_TABLE_WE_ADDR),
     (''pcie_dma0'', ''reader_table_loop_prog_n'', CSR_PCIE_DMA0_READER_TABLE_LOOP_PROG_N_ADDR),
     (''pcie_dma0'', ''reader_table_loop_status'', CSR_PCIE_DMA0_READER_TABLE_LOOP_STATUS_ADDR),
     (''pcie_dma0'', ''reader_table_level'', CSR_PCIE_DMA0_READER_TABLE_LEVEL_ADDR),
     (''pcie_dma0'', ''reader_table_reset'', CSR_PCIE_DMA0_READER_TABLE_RESET_ADDR),
     (''pcie_dma0'', ''loopback_enable'', CSR_PCIE_DMA0_LOOPBACK_ENABLE_ADDR),
     (''pcie_dma0'', ''buffering_reader_fifo_control'', CSR_PCIE_DMA0_BUFFERING_READER_FIFO_CONTROL_ADDR),
     (''pcie_dma0'', ''buffering_writer_fifo_control'', CSR_PCIE_DMA0_BUFFERING_WRITER_FIFO_CONTROL_ADDR),
     (''lms7002m'', ''control'', CSR_LMS7002M_CONTROL_ADDR),
     (''lms7002m'', ''spi_control'', CSR_LMS7002M_SPI_CONTROL_ADDR),
     (''lms7002m'', ''spi_status'', CSR_LMS7002M_SPI_STATUS_ADDR),
     (''lms7002m'', ''spi_mosi'', CSR_LMS7002M_SPI_MOSI_ADDR),
     (''lms7002m'', ''spi_miso'', CSR_LMS7002M_SPI_MISO_ADDR),
     (''lms7002m'', ''tx_pattern_control'', CSR_LMS7002M_TX_PATTERN_CONTROL_ADDR),
     (''uart'', ''xover_txfull'', CSR_UART_XOVER_TXFULL_ADDR),
     (''uart'', ''xover_ev_status'', CSR_UART_XOVER_EV_STATUS_ADDR),
     (''uart'', ''xover_ev_pending'', CSR_UART_XOVER_EV_PENDING_ADDR),
     (''uart'', ''xover_ev_enable'', CSR_UART_XOVER_EV_ENABLE_ADDR),
     (''xadc'', ''temperature'', CSR_XADC_TEMPERATURE_ADDR),
     (''xadc'', ''vccint'', CSR_XADC_VCCINT_ADDR),
     (''xadc'', ''vccaux'', CSR_XADC_VCCAUX_ADDR),
     (''xadc'', ''vccbram'', CSR_XADC_VCCBRAM_ADDR),
     (''dna'', ''id'', CSR_DNA_ID_ADDR),
     (''vctcxo'', ''control'', CSR_VCTCXO_CONTROL_ADDR),
     (''rf_switches'', ''tx'', CSR_RF_SWITCHES_TX_ADDR),
     (''rf_switches'', ''rx'', CSR_RF_SWITCHES_RX_ADDR),
     (''lms7002m'', ''delay'', CSR_LMS7002M_DELAY_ADDR),
     (''lms7002m'', ''rx_pattern_control'', CSR_LMS7002M_RX_PATTERN_CONTROL_ADDR),
     (''lms7002m'', ''rx_pattern_errors'', CSR_LMS7002M_RX_PATTERN_ERRORS_ADDR),
     (''timer0'', ''load'', CSR_TIMER0_LOAD_ADDR),
     (''timer0'', ''reload'', CSR_TIMER0_RELOAD_ADDR),
     (''timer0'', ''en'', CSR_TIMER0_EN_ADDR),
     (''timer0'', ''update_value'', CSR_TIMER0_UPDATE_VALUE_ADDR),
     (''timer0'', ''value'', CSR_TIMER0_VALUE_ADDR),
     (''vctcxo'', ''cycles_latch'', CSR_VCTCXO_CYCLES_LATCH_ADDR),
     (''vctcxo'', ''cycles'', CSR_VCTCXO_CYCLES_ADDR),
     (''xsync_spi'', ''control'', CSR_XSYNC_SPI_CONTROL_ADDR),
     (''xsync_spi'', ''status'', CSR_XSYNC_SPI_STATUS_ADDR),
     (''xsync_spi'', ''mosi'', CSR_XSYNC_SPI_MOSI_ADDR),
     (''i2c0'', ''w'', CSR_I2C0_W_ADDR),
     (''i2c0'', ''r'', CSR_I2C0_R_ADDR),
     (''i2c1'', ''w'', CSR_I2C1_W_ADDR),
     (''i2c1'', ''r'', CSR_I2C1_R_ADDR)]"

definition used_fields :: "(string \<times> string \<times> string \<times> nat) list" where
  "used_fields = [
     (''lms7002m'', ''control'', ''reset'', CSR_LMS7002M_CONTROL_RESET_OFFSET),
     (''lms7002m'', ''control'', ''power_down'', CSR_LMS7002M_CONTROL_POWER_DOWN_OFFSET),
     (''lms7002m'', ''control'', ''tx_enable'', CSR_LMS7002M_CONTROL_TX_ENABLE_OFFSET),
     (''lms7002m'', ''control'', ''rx_enable'', CSR_LMS7002M_CONTROL_RX_ENABLE_OFFSET),
     (''lms7002m'', ''control'', ''tx_rx_loopback_enable'', CSR_LMS7002M_CONTROL_TX_RX_LOOPBACK_ENABLE_OFFSET),
     (''lms7002m'', ''tx_pattern_control'', ''enable'', CSR_LMS7002M_TX_PATTERN_CONTROL_ENABLE_OFFSET),
     (''vctcxo'', ''control'', ''sel'', CSR_VCTCXO_CONTROL_SEL_OFFSET),
     (''lms7002m'', ''delay'', ''tx_delay'', CSR_LMS7002M_DELAY_TX_DELAY_OFFSET),
     (''lms7002m'', ''delay'', ''rx_delay'', CSR_LMS7002M_DELAY_RX_DELAY_OFFSET),
     (''lms7002m'', ''rx_pattern_control'', ''enable'', CSR_LMS7002M_RX_PATTERN_CONTROL_ENABLE_OFFSET),
     (''i2c0'', ''w'', ''scl'', CSR_I2C0_W_SCL_OFFSET),
     (''i2c0'', ''w'', ''oe'', CSR_I2C0_W_OE_OFFSET),
     (''i2c0'', ''w'', ''sda'', CSR_I2C0_W_SDA_OFFSET),
     (''i2c1'', ''w'', ''scl'', CSR_I2C1_W_SCL_OFFSET),
     (''i2c1'', ''w'', ''oe'', CSR_I2C1_W_OE_OFFSET),
     (''i2c1'', ''w'', ''sda'', CSR_I2C1_W_SDA_OFFSET)]"

lemma used_registers_agree: "list_all (\<lambda>(b, r, a). csr_addr b r = Some a) used_registers"
  unfolding used_registers_def list.pred_inject prod.case csr_addr_block
  by (intro conjI; simp add: csr_tables csr_defs)

lemma used_fields_agree: "list_all (\<lambda>(b, r, f, n). map_option fst (csr_bits b r f) = Some n) used_fields"
  unfolding used_fields_def list.pred_inject prod.case csr_bits_block
  by (intro conjI; simp add: csr_tables csr_defs)

section \<open>Channel offsets\<close>

text \<open>The offsets of \<open>config.h\<close> with the names the register map has for them.\<close>

definition channel_offsets :: "(string \<times> u32) list" where
  "channel_offsets = [
     (''writer_enable'', PCIE_DMA_WRITER_ENABLE_OFFSET),
     (''writer_table_value'', PCIE_DMA_WRITER_TABLE_VALUE_OFFSET),
     (''writer_table_we'', PCIE_DMA_WRITER_TABLE_WE_OFFSET),
     (''writer_table_loop_prog_n'', PCIE_DMA_WRITER_TABLE_LOOP_PROG_N_OFFSET),
     (''writer_table_loop_status'', PCIE_DMA_WRITER_TABLE_LOOP_STATUS_OFFSET),
     (''writer_table_level'', PCIE_DMA_WRITER_TABLE_LEVEL_OFFSET),
     (''writer_table_reset'', PCIE_DMA_WRITER_TABLE_FLUSH_OFFSET),
     (''reader_enable'', PCIE_DMA_READER_ENABLE_OFFSET),
     (''reader_table_value'', PCIE_DMA_READER_TABLE_VALUE_OFFSET),
     (''reader_table_we'', PCIE_DMA_READER_TABLE_WE_OFFSET),
     (''reader_table_loop_prog_n'', PCIE_DMA_READER_TABLE_LOOP_PROG_N_OFFSET),
     (''reader_table_loop_status'', PCIE_DMA_READER_TABLE_LOOP_STATUS_OFFSET),
     (''reader_table_level'', PCIE_DMA_READER_TABLE_LEVEL_OFFSET),
     (''reader_table_reset'', PCIE_DMA_READER_TABLE_FLUSH_OFFSET),
     (''loopback_enable'', PCIE_DMA_LOOPBACK_ENABLE_OFFSET)]"

definition buffering_offsets :: "(string \<times> u32) list" where
  "buffering_offsets = [
     (''buffering_reader_fifo_control'', PCIE_DMA_BUFFERING_READER_FIFO_DEPTH_ADDR),
     (''buffering_reader_fifo_status'', PCIE_DMA_BUFFERING_READER_FIFO_LEVEL_ADDR),
     (''buffering_writer_fifo_control'', PCIE_DMA_BUFFERING_WRITER_FIFO_DEPTH_ADDR),
     (''buffering_writer_fifo_status'', PCIE_DMA_BUFFERING_WRITER_FIFO_LEVEL_ADDR)]"

lemma channel_offsets_agree:
  "list_all (\<lambda>(r, n). csr_addr ''pcie_dma0'' r = Some (CSR_PCIE_DMA0_BASE + n)) channel_offsets"
  by (simp add: channel_offsets_def csr_addr_block csr_tables csr_defs)

text \<open>The four buffering offsets are behind: two registers were inserted before them in the map.\<close>

lemma buffering_offsets_stale:
  "list_all (\<lambda>(r, n). csr_addr ''pcie_dma0'' r = Some (CSR_PCIE_DMA0_BASE + n + 8)) buffering_offsets"
  "csr_addr ''pcie_dma0'' ''synchronizer_bypass'' =
     Some (CSR_PCIE_DMA0_BASE + PCIE_DMA_BUFFERING_READER_FIFO_DEPTH_ADDR)"
  "csr_addr ''pcie_dma0'' ''synchronizer_enable'' =
     Some (CSR_PCIE_DMA0_BASE + PCIE_DMA_BUFFERING_READER_FIFO_LEVEL_ADDR)"
  by (simp_all add: buffering_offsets_def csr_addr_block csr_tables csr_defs)

section \<open>The window of the virtual UART\<close>

definition uart_offsets :: "(string \<times> u64) list" where
  "uart_offsets = [(''xover_rxtx'', OFF_RXTX), (''xover_txfull'', OFF_TXFULL), (''xover_rxempty'', OFF_RXEMPTY),
     (''xover_ev_status'', OFF_EV_STATUS), (''xover_ev_pending'', OFF_EV_PENDING), (''xover_ev_enable'', OFF_EV_ENABLE)]"

lemma uart_offsets_agree:
  "list_all (\<lambda>(r, n). map_option bar_offset (csr_addr ''uart'' r) = Some (bar_offset CSR_UART_XOVER_RXTX_ADDR + n))
     uart_offsets"
  by (simp add: uart_offsets_def csr_addr_block csr_tables csr_defs bar_offset_def)

end
