(* ===== verification/Lib_Session.thy ===== *)
theory Lib_Session
  imports Lib_Dma
begin

text \<open>
  Sessions of a process with the library: from \<open>litepcie_dma_init\<close> over rounds of
  \<open>litepcie_dma_process\<close> to \<open>litepcie_dma_cleanup\<close>, with mapped buffers. In a session the
  library calls return, the rings and the pool of buffers stay what the initialisation made them,
  and the clean-up gives everything back.
\<close>

section \<open>Surroundings\<close>

text \<open>While the process waits in \<open>poll\<close>, the driver only handles interrupts.\<close>

definition session_env :: "lib_env \<Rightarrow> bool" where
  "session_env le \<longleftrightarrow> from_ok (le_arg le) \<and> to_ok (le_arg le)
     \<and> (\<exists>qs. poll_wait le = fold litepcie_interrupt qs)"

definition in_session :: "u64 list \<times> (u64 list \<times> u64 list) list \<times> nat \<Rightarrow> litepcie_chan_priv \<Rightarrow> kstate \<Rightarrow> bool" where
  "in_session M f s \<longleftrightarrow> chan_ready (priv_chan f) s \<and> ring_memory s = M"

text \<open>What the library never changes in the control structure.\<close>

definition mode_of :: "litepcie_dma_ctrl \<Rightarrow> u8 \<times> u8 \<times> u8" where
  "mode_of d = (use_reader d, use_writer d, zero_copy d)"

lemma polling_keeps:
  assumes "session_env le" "in_session M f s"
  shows "in_session M f (poll_wait le s)"
proof -
  have "chan_ready c (fold litepcie_interrupt qs s)" if "chan_ready c s" for c qs s
    using that by (induction qs arbitrary: s) (simp_all add: usable.keeps_interrupt)
  moreover have "ring_memory (fold litepcie_interrupt qs s) = M" if "ring_memory s = M" for qs s
    using that by (induction qs arbitrary: s) (simp_all add: rings.keeps_interrupt)
  ultimately show ?thesis using assms by (auto simp: session_env_def in_session_def)
qed

text \<open>A request that neither allocates nor locks.\<close>

lemma request_keeps:
  assumes "in_session M f s" "\<forall>m. cmd \<noteq> IOCTL_LOCK m" "cmd \<noteq> IOCTL_DMA_INIT"
    and "checked_ioctl le cmd (f, s) = Done (r, g, t)"
  shows "g = f" "in_session M f t"
proof -
  obtain v where i: "litepcie_ioctl (le_k le) (le_arg le) cmd f s = Ret (v, r, g) t"
    using assms(4) by (auto simp: checked_ioctl_def split: kresult.splits if_splits)
  show "g = f" using ioctl_file(2) [OF i] assms(2) by blast
  show "in_session M f t"
    using assms usable.keeps_ioctl [OF i] rings.keeps_core_ioctl [OF i] by (simp add: in_session_def)
qed

section \<open>The requests of the library\<close>

lemma engine_requests:
  assumes "session_env le" "in_session M f s"
  shows "\<exists>r t. checked_ioctl le (IOCTL_DMA_WRITER m) (f, s) = Done (r, f, t) \<and> in_session M f t"
    and "\<exists>r t. checked_ioctl le (IOCTL_DMA_READER m) (f, s) = Done (r, f, t) \<and> in_session M f t"
proof -
  have dev: "litepcie_dev (chan s ! priv_chan f)" using assms(2) by (simp add: in_session_def chan_ready_def)
  obtain r g t where w: "checked_ioctl le (IOCTL_DMA_WRITER m) (f, s) = Done (r, g, t)"
    using assms(1) dev by (fastforce simp: checked_ioctl_def litepcie_ioctl_def session_env_def ioctl_dma_writer_def
        reply_def Let_def)
  then show "\<exists>r t. checked_ioctl le (IOCTL_DMA_WRITER m) (f, s) = Done (r, f, t) \<and> in_session M f t"
    using request_keeps [OF assms(2) _ _ w] by auto
  obtain r g t where r: "checked_ioctl le (IOCTL_DMA_READER m) (f, s) = Done (r, g, t)"
    using assms(1) dev by (fastforce simp: checked_ioctl_def litepcie_ioctl_def session_env_def ioctl_dma_reader_def
        reply_def Let_def split_beta rd.start_eq rd.stop_eq)
  then show "\<exists>r t. checked_ioctl le (IOCTL_DMA_READER m) (f, s) = Done (r, f, t) \<and> in_session M f t"
    using request_keeps [OF assms(2) _ _ r] by auto
qed

lemma engine_calls:
  assumes "session_env le" "in_session M f s"
  shows "\<exists>c t. litepcie_dma_writer le b (f, s) = Done (c, f, t) \<and> in_session M f t"
    and "\<exists>c t. litepcie_dma_reader le b (f, s) = Done (c, f, t) \<and> in_session M f t"
  using engine_requests [OF assms, of "\<lparr>enable = b, hw_count = 0, sw_count = 0\<rparr>"]
  by (auto simp: litepcie_dma_writer_def litepcie_dma_reader_def)

lemma update_requests:
  assumes "session_env le" "in_session M f s"
  shows "\<exists>r t. checked_ioctl le (IOCTL_MMAP_DMA_WRITER_UPDATE n) (f, s) = Done (r, f, t) \<and> in_session M f t"
    and "\<exists>r t. checked_ioctl le (IOCTL_MMAP_DMA_READER_UPDATE n) (f, s) = Done (r, f, t) \<and> in_session M f t"
proof -
  let ?w = "IOCTL_MMAP_DMA_WRITER_UPDATE n" and ?r = "IOCTL_MMAP_DMA_READER_UPDATE n"
  obtain r g t where w: "checked_ioctl le ?w (f, s) = Done (r, g, t)"
    using assms(1) by (fastforce simp: checked_ioctl_def litepcie_ioctl_def session_env_def Let_def)
  obtain r' g' t' where r: "checked_ioctl le ?r (f, s) = Done (r', g', t')"
    using assms(1) by (fastforce simp: checked_ioctl_def litepcie_ioctl_def session_env_def Let_def)
  show "\<exists>r t. checked_ioctl le ?w (f, s) = Done (r, f, t) \<and> in_session M f t"
    using w request_keeps [OF assms(2) _ _ w] by auto
  show "\<exists>r t. checked_ioctl le ?r (f, s) = Done (r, f, t) \<and> in_session M f t"
    using r request_keeps [OF assms(2) _ _ r] by auto
qed

section \<open>A round\<close>

lemma process_directions:
  assumes "session_env le" "in_session M f s" "zero_copy d \<noteq> 0"
  shows "\<exists>d' t. process_read le d (f, s) = Done (d', f, t) \<and> mode_of d' = mode_of d \<and> in_session M f t"
    and "\<exists>d' t. process_write le d (f, s) = Done (d', f, t) \<and> mode_of d' = mode_of d \<and> in_session M f t"
proof -
  let ?dr = "d\<lparr>buffers_available_read := u32_of_s64 (c_writer_hw_count d - c_writer_sw_count d),
    usr_read_buf_offset := ring_offset (c_writer_sw_count d)\<rparr>"
  let ?dw = "d\<lparr>buffers_available_write := u32_of_s64 (of_nat (DMA_BUFFER_COUNT div 2)
      - (c_reader_sw_count d - c_reader_hw_count d)), usr_write_buf_offset := ring_offset (c_reader_sw_count d)\<rparr>"
  show "\<exists>d' t. process_read le d (f, s) = Done (d', f, t) \<and> mode_of d' = mode_of d \<and> in_session M f t"
    using assms update_requests(1) [OF assms(1,2), of "c_writer_sw_count ?dr + ucast (buffers_available_read ?dr)"]
    by (auto simp: process_read_def mode_of_def Let_def)
  show "\<exists>d' t. process_write le d (f, s) = Done (d', f, t) \<and> mode_of d' = mode_of d \<and> in_session M f t"
    using assms update_requests(2) [OF assms(1,2), of "c_reader_sw_count ?dw + ucast (buffers_available_write ?dw)"]
    by (auto simp: process_write_def mode_of_def Let_def)
qed

text \<open>A round of processing with mapped buffers returns.\<close>

lemma process_returns:
  assumes "session_env le" "in_session M f s" "zero_copy d \<noteq> 0"
  shows "\<exists>d' t. litepcie_dma_process le d (f, s) = Done (d', f, t) \<and> mode_of d' = mode_of d \<and> in_session M f t"
proof -
  obtain d1 s1 where 1: "(if use_writer d \<noteq> 0 then
      lbind (litepcie_dma_writer le 1 (f, s)) (\<lambda>((hw, sw), fd).
        Done (d\<lparr>c_writer_hw_count := hw, c_writer_sw_count := sw\<rparr>, fd)) else Done (d, f, s)) = Done (d1, f, s1)"
    "mode_of d1 = mode_of d" "in_session M f s1"
    using engine_calls(1) [OF assms(1,2), of 1] assms(2) by (cases "use_writer d = 0") (auto simp: mode_of_def)
  obtain d2 s2 where 2: "(if use_reader d1 \<noteq> 0 then
      lbind (litepcie_dma_reader le 1 (f, s1)) (\<lambda>((hw, sw), fd).
        Done (d1\<lparr>c_reader_hw_count := hw, c_reader_sw_count := sw\<rparr>, fd)) else Done (d1, f, s1)) = Done (d2, f, s2)"
    "mode_of d2 = mode_of d1" "in_session M f s2"
    using engine_calls(2) [OF assms(1) 1(3), of 1] 1(3) by (cases "use_reader d1 = 0") (auto simp: mode_of_def)
  have "\<exists>r d3. poll_call le d2 (f, s2) = (r, d3, f, poll_wait le s2) \<and> mode_of d3 = mode_of d2"
    by (simp add: poll_call_def mode_of_def Let_def)
  then obtain r d3 s3 where 3: "poll_call le d2 (f, s2) = (r, d3, f, s3)" "mode_of d3 = mode_of d2" "in_session M f s3"
    using polling_keeps [OF assms(1) 2(3)] by blast
  have z: "zero_copy d3 \<noteq> 0" using 1(2) 2(2) 3(2) assms(3) by (simp add: mode_of_def)
  obtain d4 s4 where 4: "process_read le d3 (f, s3) = Done (d4, f, s4)" "mode_of d4 = mode_of d3" "in_session M f s4"
    using process_directions(1) [OF assms(1) 3(3) z] by blast
  obtain d5 s5 where 5: "process_write le d4 (f, s4) = Done (d5, f, s5)" "mode_of d5 = mode_of d4" "in_session M f s5"
    using process_directions(2) [OF assms(1) 4(3), of d4] z 4(2) by (auto simp: mode_of_def)
  show ?thesis
    using 1 2 3 4 5 by (cases "r = 0") (auto simp: litepcie_dma_process_def)
qed

section \<open>Initialisation\<close>

text \<open>What the initialisation needs: a node that opens, memory, mappings and a free reader.\<close>

definition init_env :: "lib_env \<Rightarrow> nat \<Rightarrow> kstate \<Rightarrow> bool" where
  "init_env le ci s \<longleftrightarrow> session_env le \<and> 0 \<le> open_ret le \<and> alloc_works (le_k le)
     \<and> (\<forall>o1. mmap_ret le o1 \<noteq> None) \<and> kinv s \<and> chan_ready ci s \<and> reader_lock (dma_of ci s) = 0"

text \<open>A file holds locks of the directions it uses at most.\<close>

definition owns_only :: "u8 \<Rightarrow> u8 \<Rightarrow> litepcie_chan_priv \<Rightarrow> bool" where
  "owns_only rdr wtr f \<longleftrightarrow> (reader f \<longrightarrow> rdr \<noteq> 0) \<and> (writer f \<longrightarrow> wtr \<noteq> 0)"

lemma lock_keeps:
  assumes "in_session M f s" "checked_ioctl le (IOCTL_LOCK m) (f, s) = Done (r, g, t)"
  shows "priv_chan g = priv_chan f" "in_session M g t"
proof -
  obtain v where i: "litepcie_ioctl (le_k le) (le_arg le) (IOCTL_LOCK m) f s = Ret (v, r, g) t"
    using assms(2) by (auto simp: checked_ioctl_def split: kresult.splits if_splits)
  show "priv_chan g = priv_chan f" by (rule ioctl_file(1) [OF i])
  then show "in_session M g t"
    using assms(1) usable.keeps_lock_ioctl [OF i] rings.keeps_lock_ioctl [OF i] by (simp add: in_session_def)
qed

lemma kinv_device_ok: "kinv s \<Longrightarrow> device_ok s"
  by (simp add: kinv_def device_ok_def chan_inv_def)

text \<open>Opening the node: the file of the channel, and nothing but counters changes.\<close>

lemma open_returns:
  assumes "kinv s" "chan_ready ci s"
  shows "\<exists>t. litepcie_open True ci s = (0, Some \<lparr>priv_chan = ci, reader = False, writer = False\<rparr>, t)
    \<and> kinv t \<and> chan_ready ci t \<and> live t = live s \<and> reader_lock (dma_of ci t) = reader_lock (dma_of ci s)"
proof -
  obtain r f t where o1: "litepcie_open True ci s = (r, f, t)" by (metis prod_cases3)
  moreover have "reader_lock (dma_of ci t) = reader_lock (dma_of ci s)" "live t = live s" "r = 0"
    "f = Some \<lparr>priv_chan = ci, reader = False, writer = False\<rparr>"
    using o1 assms(2) by (auto simp: litepcie_open_def Let_def chan_ready_def clear_reader_counts_def clear_writer_counts_def
        split: if_splits)
  ultimately show ?thesis
    using kinv.keeps_open [OF o1 assms(1)] usable.keeps_open [OF o1 assms(2)] by simp
qed

lemma allocation_returns:
  assumes "session_env le" "alloc_works (le_k le)" "kinv s" "chan_ready (priv_chan f) s"
  shows "\<exists>t. checked_ioctl le IOCTL_DMA_INIT (f, s) = Done (NoReply, f, t) \<and> in_session (ring_memory t) f t
    \<and> channels t \<le> length (chan t) \<and> mset (live t) = mset (live s) + mset (all_buffers t) \<and> 0 \<notin> set (all_buffers t)
    \<and> lock_words t = lock_words s"
proof -
  obtain r t where i: "litepcie_dma_init_cpu (le_k le) True s = (r, t)" by fastforce
  note I = init_cpu_all_buffers [OF kinv_device_ok [OF assms(3)] assms(2) i]
  have c: "chan_ready (priv_chan f) t"
    using usable.keeps_init [OF assms(4), of "le_k le" True] by (simp add: i)
  have l: "lock_words t = lock_words s"
    using lock_words.keeps_init [of s "lock_words s" "le_k le" True] by (simp add: i)
  have "checked_ioctl le IOCTL_DMA_INIT (f, s) = Done (NoReply, f, t)"
    using assms(1,4) i I(1) by (simp add: checked_ioctl_def litepcie_ioctl_def session_env_def chan_ready_def)
  then show ?thesis
    using I(2,3,5) c l assms(2) by (auto simp: in_session_def device_ok_def)
qed

lemma lock_word_at:
  assumes "lock_words t = lock_words s" "ci < length (chan s)"
  shows "reader_lock (dma_of ci t) = reader_lock (dma_of ci s)"
proof -
  have "length (chan t) = length (chan s)" using arg_cong [OF assms(1), of length] by (simp add: lock_words_def)
  then show ?thesis using arg_cong [OF assms(1), of "\<lambda>l. fst (l ! ci)"] assms(2) by (simp add: lock_words_def)
qed

lemma request_returns:
  assumes "session_env le" "in_session M f s" "reader_lock (dma_of (priv_chan f) s) = 0"
    and "owns_only rdr wtr f"
  shows "\<exists>st g t. litepcie_request_dma le rdr wtr (f, s) = Done (st, g, t) \<and> st \<noteq> 0
    \<and> priv_chan g = priv_chan f \<and> in_session M g t \<and> owns_only rdr wtr g"
proof -
  have ci: "priv_chan f < length (chan s)" using assms(2) by (simp add: in_session_def chan_ready_def)
  have "rlock s (priv_chan f) = 0" using rlock_self [OF ci] assms(3) by simp
  then obtain st g t where r: "litepcie_request_dma le rdr wtr (f, s) = Done (st, g, t)" "st \<noteq> 0"
    using request_dma_status [of "(f, s)" le rdr wtr] ci assms(1) by (auto simp: session_env_def)
  moreover from this(1) obtain m where m: "checked_ioctl le (IOCTL_LOCK \<lparr>
         dma_reader_request = (if rdr > 0 then 1 else 0), dma_writer_request = (if wtr > 0 then 1 else 0),
         dma_reader_release = 0, dma_writer_release = 0,
         dma_reader_status = 0, dma_writer_status = 0\<rparr>) (f, s) = Done (m, g, t)"
    unfolding litepcie_request_dma_def by (auto simp: lbind_Done_iff)
  moreover have "owns_only rdr wtr g"
    using m assms(4) by (auto simp: checked_ioctl_def litepcie_ioctl_def ioctl_lock_def lock_reader_def lock_writer_def
        reply_def Let_def owns_only_def word_neq_0_conv split: if_splits)
  ultimately show ?thesis using lock_keeps [OF assms(2) m] by blast
qed

lemma mapping_returns:
  assumes "session_env le" "in_session M f s" "\<forall>o1. mmap_ret le o1 \<noteq> None" "zero_copy d \<noteq> 0"
  shows "\<exists>d'. get_buffers le d (f, s) = Done (0, d', f, s) \<and> mode_of d' = mode_of d"
proof -
  have i: "checked_ioctl le IOCTL_MMAP_DMA_INFO (f, s) = Done (InfoReply mmap_dma_info, f, s)"
    using assms(1) by (simp add: checked_ioctl_def litepcie_ioctl_def reply_def session_env_def)
  show ?thesis using assms(3,4) by (simp add: get_buffers_def i Let_def mode_of_def)
qed

lemma loopback_returns:
  assumes "session_env le" "in_session M f s"
  shows "\<exists>t. litepcie_dma_set_loopback le b (f, s) = Done (f, t) \<and> in_session M f t"
proof -
  obtain r g t where c: "checked_ioctl le (IOCTL_DMA b) (f, s) = Done (r, g, t)"
    using assms by (fastforce simp: checked_ioctl_def litepcie_ioctl_def session_env_def ioctl_dma_def in_session_def
        chan_ready_def Let_def)
  then show ?thesis using request_keeps [OF assms(2) _ _ c] by (auto simp: litepcie_dma_set_loopback_def)
qed

text \<open>A session of buffers that are all in the pool, with \<open>L\<close> beside them.\<close>

definition session_memory :: "u64 multiset \<Rightarrow> kstate \<Rightarrow> bool" where
  "session_memory L u \<longleftrightarrow> channels u \<le> length (chan u) \<and> mset (live u) = L + mset (all_buffers u)
     \<and> 0 \<notin> set (all_buffers u)"

text \<open>The control structure \<open>litepcie_dma_init\<close> works with once its fields are set.\<close>

lemma init_prepared:
  "\<exists>c. mode_of c = (use_reader d, use_writer d, zc) \<and> loopback c = loopback d \<and> fds_fd c = open_ret le
    \<and> litepcie_dma_init le zc ci d s =
      (if fds_fd c < 0 then Done (- 1, c, None, s) else
       case litepcie_open True ci s of (r, fo, s) \<Rightarrow>
       lbind (checked_ioctl le IOCTL_DMA_INIT (the fo, s)) (\<lambda>(m, fd).
       lbind (litepcie_request_dma le (use_reader c) (use_writer c) fd) (\<lambda>(status, fd).
         if status = 0 then Done (- 1, c, Some (fst fd), snd fd) else
         lbind (litepcie_dma_set_loopback le (loopback c) fd) (\<lambda>fd.
         lbind (get_buffers le c fd) (\<lambda>(ret, d, fd).
           Done (ret, d, Some (fst fd), snd fd))))))"
proof -
  let ?c = "let d = d\<lparr>c_reader_hw_count := 0, c_reader_sw_count := 0,
                c_writer_hw_count := 0, c_writer_sw_count := 0, zero_copy := zc\<rparr>;
          d = (if use_reader d \<noteq> 0 then d\<lparr>fds_events := fds_events d OR POLLOUT\<rparr> else d);
          d = (if use_writer d \<noteq> 0 then d\<lparr>fds_events := fds_events d OR POLLIN\<rparr> else d)
      in d\<lparr>fds_fd := open_ret le\<rparr>"
  show ?thesis
  proof (intro exI [of _ ?c] conjI)
    show "mode_of ?c = (use_reader d, use_writer d, zc)" "loopback ?c = loopback d" "fds_fd ?c = open_ret le"
      by (simp_all add: Let_def mode_of_def)
  qed (unfold litepcie_dma_init_def Let_def, rule refl)
qed

lemma init_returns:
  assumes "init_env le ci s" "zc \<noteq> 0"
  shows "\<exists>d' f t. litepcie_dma_init le zc ci d s = Done (0, d', Some f, t)
    \<and> mode_of d' = (use_reader d, use_writer d, zc) \<and> priv_chan f = ci
    \<and> owns_only (use_reader d) (use_writer d) f
    \<and> (\<exists>u. in_session (ring_memory u) f t \<and> session_memory (mset (live s)) u)"
proof -
  let ?f = "\<lparr>priv_chan = ci, reader = False, writer = False\<rparr>"
  have e: "session_env le" "0 \<le> open_ret le" "alloc_works (le_k le)" "\<forall>o1. mmap_ret le o1 \<noteq> None"
    "kinv s" "chan_ready ci s" "reader_lock (dma_of ci s) = 0"
    using assms(1) by (simp_all add: init_env_def)
  obtain s1 where 1: "litepcie_open True ci s = (0, Some ?f, s1)" "kinv s1" "chan_ready ci s1" "live s1 = live s"
    "reader_lock (dma_of ci s1) = 0"
    using open_returns [OF e(5,6)] e(7) by auto
  obtain u where 2: "checked_ioctl le IOCTL_DMA_INIT (?f, s1) = Done (NoReply, ?f, u)" "in_session (ring_memory u) ?f u"
    "channels u \<le> length (chan u)" "mset (live u) = mset (live s1) + mset (all_buffers u)" "0 \<notin> set (all_buffers u)"
    "lock_words u = lock_words s1"
    using allocation_returns [OF e(1,3) 1(2), of ?f] 1(3) by auto
  have "reader_lock (dma_of ci u) = 0"
    using lock_word_at [OF 2(6)] 1(3,5) by (simp add: chan_ready_def)
  then have l: "reader_lock (dma_of (priv_chan ?f) u) = 0" by simp
  obtain c where c: "mode_of c = (use_reader d, use_writer d, zc)" "fds_fd c = open_ret le"
    "litepcie_dma_init le zc ci d s =
      (if fds_fd c < 0 then Done (- 1, c, None, s) else
       case litepcie_open True ci s of (r, fo, s) \<Rightarrow>
       lbind (checked_ioctl le IOCTL_DMA_INIT (the fo, s)) (\<lambda>(m, fd).
       lbind (litepcie_request_dma le (use_reader c) (use_writer c) fd) (\<lambda>(status, fd).
         if status = 0 then Done (- 1, c, Some (fst fd), snd fd) else
         lbind (litepcie_dma_set_loopback le (loopback c) fd) (\<lambda>fd.
         lbind (get_buffers le c fd) (\<lambda>(ret, d, fd). Done (ret, d, Some (fst fd), snd fd))))))"
    using init_prepared [of d zc le ci s] by blast
  obtain st g t3 where 3: "litepcie_request_dma le (use_reader c) (use_writer c) (?f, u) = Done (st, g, t3)" "st \<noteq> 0"
    "priv_chan g = ci" "in_session (ring_memory u) g t3" "owns_only (use_reader c) (use_writer c) g"
    using request_returns [OF e(1) 2(2) l, of "use_reader c" "use_writer c"] by (auto simp: owns_only_def)
  obtain t4 where 4: "litepcie_dma_set_loopback le (loopback c) (g, t3) = Done (g, t4)" "in_session (ring_memory u) g t4"
    using loopback_returns [OF e(1) 3(4)] by blast
  have "zero_copy c \<noteq> 0" using c(1) assms(2) by (simp add: mode_of_def)
  then obtain c' where 5: "get_buffers le c (g, t4) = Done (0, c', g, t4)" "mode_of c' = mode_of c"
    using mapping_returns [OF e(1) 4(2) e(4)] by blast
  have "litepcie_dma_init le zc ci d s = Done (0, c', Some g, t4)"
    unfolding c(3) using c(2) e(2) 1(1) 2(1) 3(1,2) 4(1) 5(1) by simp
  then show ?thesis using 2(3-5) 3(3,5) 4(2) 5(2) c(1) 1(4) by (auto simp: mode_of_def session_memory_def)
qed

section \<open>Clean-up\<close>

lemma engines_off:
  assumes "session_env le" "in_session M f s"
  shows "\<exists>c t. litepcie_dma_reader le 0 (f, s) = Done (c, f, t) \<and> in_session M f t
      \<and> reader_enable (dma_of (priv_chan f) t) = 0"
    and "\<exists>c t. litepcie_dma_writer le 0 (f, s) = Done (c, f, t) \<and> in_session M f t
      \<and> writer_enable (dma_of (priv_chan f) t) = 0
      \<and> reader_enable (dma_of (priv_chan f) t) = reader_enable (dma_of (priv_chan f) s)"
proof -
  let ?m = "\<lparr>enable = 0 :: u8, hw_count = 0, sw_count = 0\<rparr>"
  have u: "from_ok (le_arg le)" "to_ok (le_arg le)" and c: "chan_ready (priv_chan f) s"
    using assms by (simp_all add: session_env_def in_session_def)
  have ioctl: "\<exists>v. litepcie_ioctl (le_k le) (le_arg le) cmd f s = Ret (v, r, f) t"
    if "checked_ioctl le cmd (f, s) = Done (r, f, t)" for cmd r t
    using that by (auto simp: checked_ioctl_def split: kresult.splits if_splits)
  obtain r t where rd: "checked_ioctl le (IOCTL_DMA_READER ?m) (f, s) = Done (r, f, t)" "in_session M f t"
    using engine_requests(2) [OF assms] by blast
  have "reader_enable (dma_of (priv_chan f) t) = 0"
  proof (cases "reader_enable (dma_of (priv_chan f) s) = 0")
    case True
    then show ?thesis
      using reader_already_on [OF u True] rd(1) by (auto simp: litepcie_dma_reader_def)
  next
    case False
    obtain v where "litepcie_ioctl (le_k le) (le_arg le) (IOCTL_DMA_READER ?m) f s = Ret (v, r, f) t"
      using ioctl [OF rd(1)] by blast
    from ioctl_reader_stop(2) [OF c _ False u refl this] show ?thesis by simp
  qed
  then show "\<exists>c t. litepcie_dma_reader le 0 (f, s) = Done (c, f, t) \<and> in_session M f t
      \<and> reader_enable (dma_of (priv_chan f) t) = 0"
    using rd by (auto simp: litepcie_dma_reader_def)
  obtain r t where wr: "checked_ioctl le (IOCTL_DMA_WRITER ?m) (f, s) = Done (r, f, t)" "in_session M f t"
    using engine_requests(1) [OF assms] by blast
  have "writer_enable (dma_of (priv_chan f) t) = 0
    \<and> reader_enable (dma_of (priv_chan f) t) = reader_enable (dma_of (priv_chan f) s)"
  proof (cases "writer_enable (dma_of (priv_chan f) s) = 0")
    case True
    then show ?thesis
      using writer_already_on [OF u True] wr(1) by (auto simp: litepcie_dma_writer_def)
  next
    case False
    obtain v where "litepcie_ioctl (le_k le) (le_arg le) (IOCTL_DMA_WRITER ?m) f s = Ret (v, r, f) t"
      using ioctl [OF wr(1)] by blast
    from ioctl_writer_stop(2) [OF c _ False u refl this] show ?thesis by (simp add: clear_writer_counts_def)
  qed
  then show "\<exists>c t. litepcie_dma_writer le 0 (f, s) = Done (c, f, t) \<and> in_session M f t
      \<and> writer_enable (dma_of (priv_chan f) t) = 0
      \<and> reader_enable (dma_of (priv_chan f) t) = reader_enable (dma_of (priv_chan f) s)"
    using wr by (auto simp: litepcie_dma_writer_def)
qed

text \<open>The directions in use are off and free.\<close>

definition idle_for :: "u8 \<Rightarrow> u8 \<Rightarrow> nat \<Rightarrow> kstate \<Rightarrow> bool" where
  "idle_for rdr wtr ci s \<longleftrightarrow>
     (rdr \<noteq> 0 \<longrightarrow> reader_enable (dma_of ci s) = 0 \<and> reader_lock (dma_of ci s) = 0)
     \<and> (wtr \<noteq> 0 \<longrightarrow> writer_enable (dma_of ci s) = 0 \<and> writer_lock (dma_of ci s) = 0)"

lemma locks_released:
  assumes "session_env le" "in_session M f s" "owns_only rdr wtr f"
    and "rdr \<noteq> 0 \<Longrightarrow> reader_enable (dma_of (priv_chan f) s) = 0"
    and "wtr \<noteq> 0 \<Longrightarrow> writer_enable (dma_of (priv_chan f) s) = 0"
  shows "\<exists>g t. litepcie_release_dma le rdr wtr (f, s) = Done (g, t) \<and> in_session M g t
    \<and> g = f\<lparr>reader := False, writer := False\<rparr> \<and> idle_for rdr wtr (priv_chan f) t"
proof -
  have ci: "priv_chan f < length (chan s)" using assms(2) by (simp add: in_session_def chan_ready_def)
  have pos: "rdr > 0 \<longleftrightarrow> rdr \<noteq> 0" "wtr > 0 \<longleftrightarrow> wtr \<noteq> 0" by (simp_all add: word_neq_0_conv)
  let ?m = "\<lparr>dma_reader_request = 0, dma_writer_request = 0, dma_reader_release = (if rdr > 0 then 1 else 0),
    dma_writer_release = (if wtr > 0 then 1 else 0), dma_reader_status = 0, dma_writer_status = 0\<rparr>"
  let ?s1 = "if rdr \<noteq> 0 then upd_dma (priv_chan f) (\<lambda>d. d\<lparr>reader_lock := 0\<rparr>) s else s"
  let ?s2 = "if wtr \<noteq> 0 then upd_dma (priv_chan f) (\<lambda>d. d\<lparr>writer_lock := 0\<rparr>) ?s1 else ?s1"
  obtain r where c: "checked_ioctl le (IOCTL_LOCK ?m) (f, s) = Done (r, f\<lparr>reader := False, writer := False\<rparr>, ?s2)"
    using assms(1,3) by (cases "rdr = 0"; cases "wtr = 0") (auto simp: checked_ioctl_def litepcie_ioctl_def session_env_def
        ioctl_lock_def lock_reader_def lock_writer_def reply_def Let_def pos owns_only_def)
  have "idle_for rdr wtr (priv_chan f) ?s2" using ci assms(4,5) by (auto simp: idle_for_def)
  then show ?thesis
    using lock_keeps(2) [OF assms(2) c] c by (simp add: litepcie_release_dma_def)
qed

lemma deinit_idle:
  assumes "litepcie_dma_deinit_cpu s = Ret r t" "idle_for rdr wtr ci s"
  shows "idle_for rdr wtr ci t"
  using assms by (auto simp: deinit_cpu_free_list kbind_Ret_iff idle_for_def dest!: free_list_frame)

lemma release_returns:
  assumes "in_session (ring_memory u) f s" "\<not> reader f" "\<not> writer f" "session_memory L u"
    and "idle_for rdr wtr (priv_chan f) s"
  shows "\<exists>t. litepcie_release e f s = Ret 0 t \<and> mset (live t) = L \<and> idle_for rdr wtr (priv_chan f) t"
proof -
  have u: "channels u \<le> length (chan u)" "mset (live u) = L + mset (all_buffers u)" "0 \<notin> set (all_buffers u)"
    using assms(4) by (simp_all add: session_memory_def)
  have m: "live s = live u" "all_buffers s = all_buffers u"
    using ring_memory_buffers [of s u] assms(1) u(1) by (simp_all add: in_session_def)
  have nz: "filter (\<lambda>p. p \<noteq> 0) (all_buffers s) = all_buffers s"
    using u(3) m(2) by (auto simp: filter_id_conv)
  obtain l where l: "free_list (all_buffers s) s = Ret () (s\<lparr>live := l\<rparr>)"
    "mset l = mset (live s) - mset (all_buffers s)"
    using free_list_ok [of "all_buffers s" s, unfolded nz] m u(2) by auto
  then have d: "litepcie_dma_deinit_cpu s = Ret 0 (s\<lparr>live := l\<rparr>)" by (simp add: deinit_cpu_free_list)
  have "idle_for rdr wtr (priv_chan f) (s\<lparr>live := l\<rparr>)" by (rule deinit_idle [OF d assms(5)])
  moreover have "litepcie_release e f s = Ret 0 (s\<lparr>live := l\<rparr>)"
    using assms(1-3) d by (simp add: litepcie_release_def in_session_def chan_ready_def Let_def)
  ultimately show ?thesis using l(2) m u(2) by simp
qed

lemma cleanup_returns:
  assumes "session_env le" "in_session (ring_memory u) f s" "owns_only (use_reader d) (use_writer d) f"
    and "session_memory L u"
  shows "\<exists>d' t. litepcie_dma_cleanup le d (f, s) = Done (d', t) \<and> mset (live t) = L
    \<and> idle_for (use_reader d) (use_writer d) (priv_chan f) t"
proof -
  obtain d1 s1 where 1: "(if use_reader d \<noteq> 0 then lbind (litepcie_dma_reader le 0 (f, s)) (\<lambda>((hw, sw), fd).
        Done (d\<lparr>c_reader_hw_count := hw, c_reader_sw_count := sw\<rparr>, fd)) else Done (d, f, s)) = Done (d1, f, s1)"
    "mode_of d1 = mode_of d" "in_session (ring_memory u) f s1"
    "use_reader d \<noteq> 0 \<Longrightarrow> reader_enable (dma_of (priv_chan f) s1) = 0"
    using engines_off(1) [OF assms(1,2)] assms(2) by (cases "use_reader d = 0") (auto simp: mode_of_def)
  obtain d2 s2 where 2: "(if use_writer d1 \<noteq> 0 then lbind (litepcie_dma_writer le 0 (f, s1)) (\<lambda>((hw, sw), fd).
        Done (d1\<lparr>c_writer_hw_count := hw, c_writer_sw_count := sw\<rparr>, fd)) else Done (d1, f, s1)) = Done (d2, f, s2)"
    "mode_of d2 = mode_of d1" "in_session (ring_memory u) f s2"
    "use_writer d1 \<noteq> 0 \<Longrightarrow> writer_enable (dma_of (priv_chan f) s2) = 0"
    "reader_enable (dma_of (priv_chan f) s2) = reader_enable (dma_of (priv_chan f) s1)"
    using engines_off(2) [OF assms(1) 1(3)] 1(3) by (cases "use_writer d1 = 0") (auto simp: mode_of_def)
  have m: "use_reader d2 = use_reader d" "use_writer d2 = use_writer d" "use_writer d1 = use_writer d"
    using 1(2) 2(2) by (simp_all add: mode_of_def)
  obtain g s3 where 3: "litepcie_release_dma le (use_reader d2) (use_writer d2) (f, s2) = Done (g, s3)"
    "in_session (ring_memory u) g s3" "g = f\<lparr>reader := False, writer := False\<rparr>"
    "idle_for (use_reader d) (use_writer d) (priv_chan f) s3"
    using locks_released [OF assms(1) 2(3) assms(3)] 1(4) 2(4,5) m by auto
  obtain t where 4: "litepcie_release (le_k le) g s3 = Ret 0 t" "mset (live t) = L"
    "idle_for (use_reader d) (use_writer d) (priv_chan f) t"
    using release_returns [OF 3(2) _ _ assms(4), of "use_reader d" "use_writer d" "le_k le"] 3(3,4) by auto
  have "litepcie_dma_cleanup le d (f, s) = Done (d2, t)"
    unfolding litepcie_dma_cleanup_def 1(1) lbind_simps prod.case 2(1) 3(1) fst_conv snd_conv 4(1) by simp
  then show ?thesis using 4 by blast
qed

section \<open>Programs over a session\<close>

text \<open>A static or local control structure of a program with the given directions, everything else zero.\<close>

definition zero_ctrl :: "u8 \<Rightarrow> u8 \<Rightarrow> litepcie_dma_ctrl" where
  "zero_ctrl rdr wtr = \<lparr>use_reader = rdr, use_writer = wtr, loopback = 0, zero_copy = 0, fds_fd = 0,
     fds_events = 0, fds_revents = 0, buf_rd = 0, buf_wr = 0,
     c_reader_hw_count = 0, c_reader_sw_count = 0, c_writer_hw_count = 0, c_writer_sw_count = 0,
     buffers_available_read = 0, buffers_available_write = 0,
     usr_read_buf_offset = 0, usr_write_buf_offset = 0,
     mmap_info = \<lparr>dma_tx_buf_offset = 0, dma_tx_buf_size = 0, dma_tx_buf_count = 0,
                  dma_rx_buf_offset = 0, dma_rx_buf_size = 0, dma_rx_buf_count = 0\<rparr>\<rparr>"

text \<open>
  The utilities share one shape: initialise, then rounds of processing and of a body that takes
  the buffers, until Control-C or the body ends the loop, then clean up. A round meets whether the
  program may go on (\<open>keep_running\<close>), the surroundings of the library calls, what the buffers
  contain (\<open>memory k a\<close>: the \<open>k\<close>-th buffer of the round, at address \<open>a\<close>) and the two readings of
  the clock for the statistics.
\<close>

record 'w round_env =
  go_on :: bool
  round_lib :: lib_env
  memory :: "nat \<Rightarrow> u64 \<Rightarrow> 'w list"
  now :: u64
  now' :: u64

text \<open>
  How a run ends: \<open>exit(1)\<close>, a step C leaves undefined, still running after the given rounds, or
  returned after the clean-up.
\<close>

datatype 's run_end =
    Exited kstate
  | Undefined
  | Running 's fd
  | Finished 's kstate

definition run_cleanup :: "lib_env \<Rightarrow> (litepcie_dma_ctrl \<Rightarrow> 's) \<Rightarrow> litepcie_dma_ctrl \<Rightarrow> fd \<Rightarrow> 's run_end lib_result" where
  "run_cleanup le result d fd =
     lbind (litepcie_dma_cleanup le d fd) (\<lambda>(d, s). Done (Finished (result d) s))"

definition end_state :: "('s \<Rightarrow> bool) \<Rightarrow> 's run_end \<Rightarrow> bool" where
  "end_state P r \<longleftrightarrow> (case r of Exited s \<Rightarrow> False | Undefined \<Rightarrow> False | Running t fd \<Rightarrow> P t | Finished t s \<Rightarrow> P t)"

text \<open>
  The interface: a loop of this shape whose body keeps an invariant \<open>ok\<close> in the rounds called
  \<open>fair\<close>. Such a loop never runs into the undefined, keeps the invariant, and with mapped buffers
  returns as soon as a round stops it, with everything given back.
\<close>

locale session_run =
  fixes ctl :: "'s \<Rightarrow> litepcie_dma_ctrl" and set_ctl :: "litepcie_dma_ctrl \<Rightarrow> 's \<Rightarrow> 's"
    and stops :: "'e \<Rightarrow> 's \<Rightarrow> bool" and lib :: "'e \<Rightarrow> lib_env"
    and body :: "'e \<Rightarrow> 's \<Rightarrow> ('s \<times> bool) option"
    and loop :: "'e list \<Rightarrow> 's \<Rightarrow> fd \<Rightarrow> 's run_end lib_result"
    and ok :: "'s \<Rightarrow> bool" and fair :: "'e \<Rightarrow> bool"
  assumes loop_Nil: "loop [] t fd = Done (Running t fd)"
    and loop_Cons: "loop (e # es) t fd =
      (if stops e t then run_cleanup (lib e) (\<lambda>d. set_ctl d t) (ctl t) fd
       else lbind (litepcie_dma_process (lib e) (ctl t) fd) (\<lambda>(d, fd).
         case body e (set_ctl d t) of
           None \<Rightarrow> Done Undefined
         | Some (t, go) \<Rightarrow> if go then loop es t fd else run_cleanup (lib e) (\<lambda>d. set_ctl d t) (ctl t) fd))"
    and ctl_set: "ctl (set_ctl d t) = d"
    and ok_set: "ok t \<Longrightarrow> ok (set_ctl d t)"
    and body_ok: "fair e \<Longrightarrow> ok t \<Longrightarrow>
      \<exists>t' go. body e t = Some (t', go) \<and> ok t' \<and> mode_of (ctl t') = mode_of (ctl t)"
begin

lemma keeps_ok:
  assumes "\<forall>e \<in> set es. fair e" "ok t" "loop es t fd = Done r"
  shows "end_state ok r"
  using assms
proof (induction es arbitrary: t fd)
  case Nil
  then show ?case by (auto simp: loop_Nil end_state_def)
next
  case (Cons e es)
  have fin: "end_state ok r" if "run_cleanup (lib e) (\<lambda>d. set_ctl d t') c fd' = Done r" "ok t'" for t' c fd'
    using that by (auto simp: run_cleanup_def lbind_Done_iff end_state_def ok_set)
  show ?case
  proof (cases "stops e t")
    case True
    then show ?thesis using Cons.prems fin by (simp add: loop_Cons)
  next
    case False
    then obtain c fd' where p: "litepcie_dma_process (lib e) (ctl t) fd = Done (c, fd')"
      using Cons.prems(3) by (auto simp: loop_Cons lbind_Done_iff)
    obtain t' go where b: "body e (set_ctl c t) = Some (t', go)" "ok t'"
      using body_ok [of e "set_ctl c t"] ok_set [of t c] Cons.prems(1,2) by auto
    show ?thesis
      using Cons.IH [of t' fd'] Cons.prems(1,3) False p b fin
      by (cases go) (auto simp: loop_Cons)
  qed
qed

text \<open>A run of fair rounds of which one stops it returns, whatever the rounds after it.\<close>

lemma returns_ok:
  assumes "\<forall>e \<in> set es. fair e \<and> session_env (lib e)" "\<exists>e \<in> set es. \<forall>t. stops e t"
    and "ok t" "mode_of (ctl t) = (x, y, z)" "z \<noteq> 0" "in_session (ring_memory u) f s"
    and "session_memory L u" "owns_only x y f"
  shows "\<exists>t' s'. loop es t (f, s) = Done (Finished t' s') \<and> ok t' \<and> mset (live s') = L
    \<and> idle_for x y (priv_chan f) s'"
  using assms(1-4,6)
proof (induction es arbitrary: t s)
  case (Cons e es)
  have env: "session_env (lib e)" "fair e" using Cons.prems(1) by simp_all
  have fin: "\<exists>t'' s'. run_cleanup (lib e) (\<lambda>d. set_ctl d t') (ctl t') (f, s1) = Done (Finished t'' s') \<and> ok t''
      \<and> mset (live s') = L \<and> idle_for x y (priv_chan f) s'"
    if mode: "mode_of (ctl t') = (x, y, z)" and ok: "ok t'" and sess: "in_session (ring_memory u) f s1" for t' s1
  proof -
    have m: "use_reader (ctl t') = x" "use_writer (ctl t') = y" using mode by (simp_all add: mode_of_def)
    then have own: "owns_only (use_reader (ctl t')) (use_writer (ctl t')) f" using assms(8) by simp
    obtain c s' where "litepcie_dma_cleanup (lib e) (ctl t') (f, s1) = Done (c, s')" "mset (live s') = L"
      "idle_for x y (priv_chan f) s'"
      using cleanup_returns [OF env(1) sess own assms(7)] m by auto
    then show ?thesis using ok_set [OF ok, of c] by (simp add: run_cleanup_def)
  qed
  show ?case
  proof (cases "stops e t")
    case True
    then show ?thesis using fin [OF Cons.prems(4,3,5)] by (simp add: loop_Cons)
  next
    case False
    have "zero_copy (ctl t) \<noteq> 0" using Cons.prems(4) assms(5) by (simp add: mode_of_def)
    then obtain c s1 where p: "litepcie_dma_process (lib e) (ctl t) (f, s) = Done (c, f, s1)"
      "mode_of c = mode_of (ctl t)" "in_session (ring_memory u) f s1"
      using process_returns [OF env(1) Cons.prems(5)] by blast
    obtain t' go where b: "body e (set_ctl c t) = Some (t', go)" "ok t'" "mode_of (ctl t') = mode_of c"
      using body_ok [OF env(2) ok_set [OF Cons.prems(3), of c]] by (auto simp: ctl_set)
    have t': "mode_of (ctl t') = (x, y, z)" using b(3) p(2) Cons.prems(4) by simp
    show ?thesis
    proof (cases go)
      case True
      have "\<exists>e \<in> set es. \<forall>t. stops e t" using Cons.prems(2) False by auto
      from Cons.IH [OF _ this b(2) t' p(3)] Cons.prems(1) True False p(1) b(1)
      show ?thesis by (simp add: loop_Cons)
    next
      case go: False
      then show ?thesis using fin [OF t' b(2) p(3)] False p(1) b(1) by (simp add: loop_Cons)
    qed
  qed
qed simp

text \<open>With the initialisation in front, as the programs call it.\<close>

lemma program_keeps:
  assumes "\<forall>e \<in> set es. fair e" "\<And>c. ok (start c)"
    and "lbind (litepcie_dma_init le zc ci d s) (\<lambda>(r, d, f, s).
      if r \<noteq> 0 then Done (Exited s) else loop es (start d) (the f, s)) = Done r"
  shows "end_state ok r \<or> (\<exists>s'. r = Exited s')"
  using assms(3) keeps_ok [OF assms(1,2)] by (fastforce simp: lbind_Done_iff split: if_splits)

lemma program_returns:
  assumes "\<forall>e \<in> set es. fair e \<and> session_env (lib e)" "\<exists>e \<in> set es. \<forall>t. stops e t"
    and "\<And>c. ok (start c) \<and> ctl (start c) = c" "init_env le ci s" "zc \<noteq> 0"
  shows "\<exists>t' s'. lbind (litepcie_dma_init le zc ci d s) (\<lambda>(r, d, f, s).
      if r \<noteq> 0 then Done (Exited s) else loop es (start d) (the f, s)) = Done (Finished t' s')
    \<and> ok t' \<and> mset (live s') = mset (live s) \<and> idle_for (use_reader d) (use_writer d) ci s'"
proof -
  obtain c f s1 u where i: "litepcie_dma_init le zc ci d s = Done (0, c, Some f, s1)"
    "mode_of c = (use_reader d, use_writer d, zc)" "priv_chan f = ci" "in_session (ring_memory u) f s1"
    "session_memory (mset (live s)) u" "owns_only (use_reader d) (use_writer d) f"
    using init_returns [OF assms(4,5), of d] by auto
  have m: "mode_of (ctl (start c)) = (use_reader d, use_writer d, zc)" using i(2) assms(3) by simp
  have "ok (start c)" using assms(3) by simp
  from returns_ok [OF assms(1,2) this m assms(5) i(4-6)] show ?thesis using i(1,3) by auto
qed

end

end
