(* ===== verification/Util_Test.thy ===== *)
theory Util_Test
  imports
    Lib_Session
    Util_Pn
begin

text \<open>
  \<open>dma_test\<close> of \<open>litepcie_util.c\<close> as a whole: initialisation, the loop over rounds of
  processing, sending, checking and statistics, and the clean-up. A round meets an environment:
  whether the user has pressed Control-C, what the library calls meet, what the buffers contain
  when they are checked, and the two readings of the clock. Printed statistics, filled and cleared
  buffers are the events of the run.
\<close>

section \<open>The state of the test\<close>

datatype test_event =
    Filled u64 "u32 list"
  | Cleared u64
  | Stats u64 u64 u64 u64 u32

record dma_test =
  ctl :: litepcie_dma_ctrl
  seed_wr :: u32
  rx :: dma_test_state
  lines :: nat
  reader_sw_count_last :: u64
  last_time :: u64
  events :: "test_event list"

section \<open>One round\<close>

text \<open>None: the data mask of the width is undefined.\<close>

function tx_loop :: "int \<Rightarrow> dma_test \<Rightarrow> dma_test option" where
  "tx_loop w t =
     (case litepcie_dma_next_write_buffer (ctl t) of
        (None, d) \<Rightarrow> Some (t\<lparr>ctl := d\<rparr>)
      | (Some a, d) \<Rightarrow>
          (case write_pn_data PN_WORDS (seed_wr t) w of
             None \<Rightarrow> None
           | Some (ws, s) \<Rightarrow> tx_loop w (t\<lparr>ctl := d, seed_wr := s, events := events t @ [Filled a ws]\<rparr>)))"
  by pat_completeness auto
termination
  by (relation "measure (\<lambda>(w, t). unat (buffers_available_write (ctl t)))")
    (auto simp: litepcie_dma_next_write_buffer_def measure_unat split: if_splits)

text \<open>False: the exit \<open>goto end\<close> after a delay was not found.\<close>

function rx_loop :: "int \<Rightarrow> (nat \<Rightarrow> u64 \<Rightarrow> u32 list) \<Rightarrow> nat \<Rightarrow> dma_test \<Rightarrow> (dma_test \<times> bool) option" where
  "rx_loop w mem k t =
     (case litepcie_dma_next_read_buffer (ctl t) of
        (None, d) \<Rightarrow> Some (t\<lparr>ctl := d\<rparr>, True)
      | (Some a, d) \<Rightarrow>
          if slt (c_writer_hw_count d) (of_nat (128 * DMA_BUFFER_COUNT)) then Some (t\<lparr>ctl := d\<rparr>, True)
          else
            (case get_data_mask w of
               None \<Rightarrow> None
             | Some m \<Rightarrow>
                 (case rx_buffer (mem k a) m (rx t) of (r, ok) \<Rightarrow>
                    if ok then rx_loop w mem (Suc k) (t\<lparr>ctl := d, rx := r,
                      events := (if run (rx t) then events t @ [Cleared a] else events t)\<rparr>)
                    else Some (t\<lparr>ctl := d, rx := r\<rparr>, False))))"
  by pat_completeness auto
termination
  by (relation "measure (\<lambda>(w, mem, k, t). unat (buffers_available_read (ctl t)))")
    (auto simp: litepcie_dma_next_read_buffer_def measure_unat split: if_splits)

declare tx_loop.simps [simp del] rx_loop.simps [simp del]

text \<open>
  The line printed every 200 ms: buffers since the last line, milliseconds, the two software counts
  and the errors.
\<close>

definition statistics :: "u64 \<Rightarrow> u64 \<Rightarrow> dma_test \<Rightarrow> dma_test" where
  "statistics t1 t2 t =
     (let duration = t1 - last_time t in
      if run (rx t) \<and> sgt duration 200 then
        t\<lparr>lines := lines t + 1,
          events := events t @ [Stats (c_reader_sw_count (ctl t) - reader_sw_count_last t) duration
            (c_reader_sw_count (ctl t)) (c_writer_sw_count (ctl t)) (test_errors (rx t))],
          rx := (rx t)\<lparr>test_errors := 0\<rparr>,
          last_time := t2,
          reader_sw_count_last := c_reader_sw_count (ctl t)\<rparr>
      else t)"

definition test_data :: "int \<Rightarrow> u32 round_env \<Rightarrow> dma_test \<Rightarrow> (dma_test \<times> bool) option" where
  "test_data w e t =
     Option.bind (tx_loop w t) (\<lambda>t.
     map_option (\<lambda>(t, ok). (if ok then statistics (now e) (now' e) t else t, ok))
       (rx_loop w (memory e) 0 t))"

section \<open>The test\<close>

fun test_loop :: "int \<Rightarrow> u32 round_env list \<Rightarrow> dma_test \<Rightarrow> fd \<Rightarrow> dma_test run_end lib_result" where
  "test_loop w [] t fd = Done (Running t fd)"
| "test_loop w (e # es) t fd =
     (if \<not> go_on e then run_cleanup (round_lib e) (\<lambda>d. t\<lparr>ctl := d\<rparr>) (ctl t) fd
      else lbind (litepcie_dma_process (round_lib e) (ctl t) fd) (\<lambda>(d, fd).
        case test_data w e (t\<lparr>ctl := d\<rparr>) of
          None \<Rightarrow> Done Undefined
        | Some (t, ok) \<Rightarrow> if ok then test_loop w es t fd else run_cleanup (round_lib e) (\<lambda>d. t\<lparr>ctl := d\<rparr>) (ctl t) fd))"

text \<open>The static control structure: both directions.\<close>

definition test_ctrl :: litepcie_dma_ctrl where
  "test_ctrl = zero_ctrl 1 1"

definition test_start :: "int \<Rightarrow> u64 \<Rightarrow> litepcie_dma_ctrl \<Rightarrow> dma_test" where
  "test_start auto_rx_delay t0 d =
     \<lparr>ctl = d, seed_wr = 0, rx = \<lparr>seed_rd = 0, test_errors = 0, run = (auto_rx_delay = 0)\<rparr>,
      lines = 0, reader_sw_count_last = 0, last_time = t0, events = []\<rparr>"

definition dma_test ::
    "u8 \<Rightarrow> u8 \<Rightarrow> int \<Rightarrow> int \<Rightarrow> lib_env \<Rightarrow> u64 \<Rightarrow> u32 round_env list \<Rightarrow> nat \<Rightarrow> kstate \<Rightarrow> dma_test run_end lib_result" where
  "dma_test zc external_loopback data_width auto_rx_delay le t0 es ci s =
     (let d = test_ctrl\<lparr>loopback := (if external_loopback \<noteq> 0 then 0 else 1)\<rparr> in
      if data_width > 32 \<or> data_width < 1 then Done (Exited s)
      else lbind (litepcie_dma_init le zc ci d s) (\<lambda>(r, d, f, s).
        if r \<noteq> 0 then Done (Exited s)
        else test_loop data_width es (test_start auto_rx_delay t0 d) (the f, s)))"

section \<open>The data of a buffer\<close>

text \<open>What a buffer is filled with when the seed is 0.\<close>

definition pn_block :: "u32 \<Rightarrow> u32 list" where
  "pn_block m = map (\<lambda>k. seed_to_data (of_nat k) AND m) [0..<PN_WORDS]"

lemma PN_WORDS_eq: "PN_WORDS = 16384"
  by (simp add: PN_WORDS_def csr_defs)

lemma length_pn_block [simp]: "length (pn_block m) = PN_WORDS"
  by (simp add: pn_block_def)

lemma nth_pn_rotate:
  "k < PN_WORDS \<Longrightarrow> rotate d (pn_block m) ! k = seed_to_data (of_nat ((d + k) mod PN_WORDS)) AND m"
  by (simp add: nth_rotate add.commute) (simp add: pn_block_def PN_WORDS_eq)

text \<open>The period of the seed is the number of words of a buffer: a seed comes back to itself.\<close>

lemma write_pn_period:
  assumes "d < PN_WORDS"
  shows "write_pn_loop PN_WORDS m (of_nat d) = (rotate d (pn_block m), of_nat d)"
proof -
  have d: "unat (of_nat d :: u32) = d" "d < 16384"
    using assms by (simp_all add: PN_WORDS_eq unat_of_nat_small)
  note S = write_pn_loop_spec [of "of_nat d" PN_WORDS m, unfolded d(1), OF d(2)]
  have "fst (write_pn_loop PN_WORDS m (of_nat d)) = rotate d (pn_block m)"
    using S by (intro nth_equalityI) (simp_all add: nth_pn_rotate PN_WORDS_eq)
  moreover have "unat (snd (write_pn_loop PN_WORDS m (of_nat d))) = d"
    using S d(2) by (simp add: PN_WORDS_eq)
  ultimately show ?thesis by (metis prod.collapse word_of_natI)
qed

text \<open>The low 14 bits of the generator are a permutation of the seeds of a period.\<close>

lemma power_14: "(2 :: nat) ^ 14 = 16384"
  by simp

lemma seed_to_data_inj:
  assumes "a < PN_WORDS" "b < PN_WORDS"
    and "take_bit 14 (seed_to_data (of_nat a)) = take_bit 14 (seed_to_data (of_nat b))"
  shows "a = b"
proof -
  have u: "unat (take_bit 14 (seed_to_data (of_nat n))) = (n * 69069 + 1) mod 16384" if "n < PN_WORDS" for n
  proof -
    have "unat (seed_to_data (of_nat n)) = n * 69069 + 1"
    proof -
      have "n * 69069 + 1 < 2 ^ LENGTH(32)" using that by (simp add: PN_WORDS_eq)
      moreover have "seed_to_data (of_nat n) = of_nat (n * 69069 + 1)" by (simp add: seed_to_data_def)
      ultimately show ?thesis by (simp only: unat_of_nat_small)
    qed
    then show ?thesis unfolding unat_take_bit_mod power_14 by (rule arg_cong [where f = "\<lambda>x. x mod 16384"])
  qed
  have eq: "(a * 69069 + 1) mod 16384 = (b * 69069 + 1) mod (16384 :: nat)"
    unfolding u [OF assms(1), symmetric] u [OF assms(2), symmetric] assms(3) by (rule refl)
  have "(int a * 69069 + 1) mod 16384 = (int b * 69069 + 1) mod 16384"
    using arg_cong [OF eq, of int] unfolding of_nat_mod of_nat_add of_nat_mult of_nat_numeral of_nat_1 .
  then have "16384 dvd (int a * 69069 + 1) - (int b * 69069 + 1)"
    unfolding mod_eq_dvd_iff .
  moreover have "(int a * 69069 + 1) - (int b * 69069 + 1) = (int a - int b) * 69069"
    by (simp add: algebra_simps)
  ultimately have "16384 dvd (int a - int b) * 69069" by metis
  moreover have "coprime (16384 :: int) 69069" by (simp add: coprime_iff_gcd_eq_1 gcd_non_0_int)
  ultimately have "16384 dvd int a - int b" using coprime_dvd_mult_left_iff by blast
  then show ?thesis using assms(1,2) zdvd_not_zless [of "\<bar>int a - int b\<bar>" 16384]
    by (cases "a = b") (auto simp: PN_WORDS_eq)
qed

text \<open>A buffer that is shifted by another number of words differs in every word.\<close>

lemma check_shifted:
  assumes "d < PN_WORDS" "e < PN_WORDS" "\<forall>k < 14. bit m k"
  shows "check_pn_loop (rotate d (pn_block m)) m (of_nat e) =
    (if e = d then 0 else PN_WORDS, of_nat e)"
proof -
  have seed: "snd (check_pn_loop (rotate d (pn_block m)) m (of_nat e)) = of_nat e"
    by (simp add: check_pn_seed write_pn_period assms(2))
  have errs: "fst (check_pn_loop (rotate d (pn_block m)) m (of_nat e)) =
      length (filter (\<lambda>(x, y). x \<noteq> y) (zip (rotate d (pn_block m)) (rotate e (pn_block m))))"
    by (simp add: check_pn_errors write_pn_period assms(2))
  have low: "take_bit 14 (x AND m) = take_bit 14 (x :: u32)" for x
    using assms(3) by (auto intro!: bit_word_eqI simp: bit_simps)
  have diff: "x \<noteq> y" if ed: "e \<noteq> d" and xy: "(x, y) \<in> set (zip (rotate d (pn_block m)) (rotate e (pn_block m)))" for x y
  proof
    assume "x = y"
    obtain k where k: "k < PN_WORDS" "x = rotate d (pn_block m) ! k" "y = rotate e (pn_block m) ! k"
      using xy by (auto simp: set_zip)
    have "(d + k) mod PN_WORDS = (e + k) mod PN_WORDS"
    proof (rule seed_to_data_inj)
      show "take_bit 14 (seed_to_data (of_nat ((d + k) mod PN_WORDS))) =
          take_bit 14 (seed_to_data (of_nat ((e + k) mod PN_WORDS)))"
        using \<open>x = y\<close> k low by (metis nth_pn_rotate)
    qed (simp_all add: PN_WORDS_eq)
    then have "d = e"
      using assms(1,2) mod_close [of "d + k" PN_WORDS "e + k"] by simp
    then show False using ed by simp
  qed
  show ?thesis
  proof (cases "e = d")
    case True
    have "check_pn_loop (rotate d (pn_block m)) m (of_nat d) = (0, of_nat d)"
      using check_write_pn [of PN_WORDS m "of_nat d"] by (simp add: write_pn_period assms(1))
    then show ?thesis using True by simp
  next
    case False
    then have "filter (\<lambda>(x, y). x \<noteq> y) (zip (rotate d (pn_block m)) (rotate e (pn_block m))) =
        zip (rotate d (pn_block m)) (rotate e (pn_block m))"
      using diff by (auto simp only: filter_id_conv)
    then show ?thesis using seed errs False by (simp add: prod_eq_iff)
  qed
qed

section \<open>A loopback of whole buffers\<close>

text \<open>The calibration finds the shift of the loopback, and nothing smaller passes for it.\<close>

lemma find_delay_exact:
  assumes "d < PN_WORDS" "\<forall>k < 14. bit m k" "delay \<le> d" "d < delay + n" "delay + n \<le> PN_WORDS"
  shows "find_delay (rotate d (pn_block m)) m delay n t = \<lparr>seed_rd = of_nat d, test_errors = 0, run = True\<rparr>"
  using assms(3-5)
proof (induction n arbitrary: delay t)
  case (Suc n)
  then have "delay < PN_WORDS" by simp
  from check_shifted [OF assms(1) this assms(2)] show ?case
    using Suc by (cases "delay = d") (simp_all add: Let_def PN_WORDS_eq)
qed simp

text \<open>What holds between the buffers of a run on a loopback that shifts by \<open>d\<close> words.\<close>

definition event_ok :: "u32 \<Rightarrow> test_event \<Rightarrow> bool" where
  "event_ok m ev \<longleftrightarrow> (case ev of Filled a ws \<Rightarrow> ws = pn_block m | Cleared a \<Rightarrow> True
     | Stats n ms r w errs \<Rightarrow> errs = 0)"

definition rx_ok :: "u32 \<Rightarrow> nat \<Rightarrow> dma_test_state \<Rightarrow> bool" where
  "rx_ok m d r \<longleftrightarrow> test_errors r = 0 \<and> (if run r then seed_rd r = of_nat d else \<forall>k < 14. bit m k)"

definition test_ok :: "u32 \<Rightarrow> nat \<Rightarrow> dma_test \<Rightarrow> bool" where
  "test_ok m d t \<longleftrightarrow> seed_wr t = 0 \<and> rx_ok m d (rx t) \<and> list_all (event_ok m) (events t)"

definition loops_back :: "u32 \<Rightarrow> nat \<Rightarrow> u32 round_env \<Rightarrow> bool" where
  "loops_back m d e \<longleftrightarrow> (\<forall>k a. memory e k a = rotate d (pn_block m))"

lemma rx_buffer_shifted:
  assumes "d < PN_WORDS" "rx_ok m d r"
  shows "rx_buffer (rotate d (pn_block m)) m r = (\<lparr>seed_rd = of_nat d, test_errors = 0, run = True\<rparr>, True)"
proof (cases "run r")
  case True
  have "check_pn_loop (rotate d (pn_block m)) m (of_nat d) = (0, of_nat d)"
    using check_write_pn [of PN_WORDS m "of_nat d"] by (simp add: write_pn_period assms(1))
  then show ?thesis using True assms(2) by (simp add: rx_buffer_def rx_ok_def)
next
  case False
  then have "find_delay (rotate d (pn_block m)) m 0 PN_WORDS r = \<lparr>seed_rd = of_nat d, test_errors = 0, run = True\<rparr>"
    using assms by (intro find_delay_exact) (simp_all add: rx_ok_def)
  then show ?thesis using False by (simp add: rx_buffer_def)
qed

lemma tx_loop_ok:
  assumes "get_data_mask w = Some m" "test_ok m d t"
  shows "\<exists>t'. tx_loop w t = Some t' \<and> test_ok m d t'
    \<and> mode_of (ctl t') = mode_of (ctl t)"
  using assms
proof (induction w t rule: tx_loop.induct)
  case (1 w t)
  show ?case
  proof (cases "litepcie_dma_next_write_buffer (ctl t)")
    case (Pair o1 c)
    have c: "mode_of c = mode_of (ctl t)"
      using Pair by (auto simp: litepcie_dma_next_write_buffer_def mode_of_def split: if_splits)
    show ?thesis
    proof (cases o1)
      case None
      then show ?thesis using Pair "1.prems" c by (simp add: tx_loop.simps [of w t] test_ok_def)
    next
      case (Some a)
      let ?t = "t\<lparr>ctl := c, seed_wr := 0, events := events t @ [Filled a (pn_block m)]\<rparr>"
      have w: "write_pn_data PN_WORDS (seed_wr t) w = Some (pn_block m, 0)"
        using "1.prems" write_pn_period [of 0 m] by (simp add: write_pn_data_def test_ok_def PN_WORDS_eq)
      have "test_ok m d ?t" using "1.prems"(2) by (simp add: test_ok_def event_ok_def)
      then obtain t' where "tx_loop w ?t = Some t'" "test_ok m d t'"
        "mode_of (ctl t') = mode_of c"
        using "1.IH" [OF Pair [symmetric, unfolded Some] refl w refl "1.prems"(1)] by auto
      then show ?thesis using Pair Some w c by (auto simp: tx_loop.simps [of w t])
    qed
  qed
qed

lemma rx_loop_ok:
  assumes "get_data_mask w = Some m" "d < PN_WORDS" "\<forall>k a. mem k a = rotate d (pn_block m)" "test_ok m d t"
  shows "\<exists>t'. rx_loop w mem k t = Some (t', True) \<and> test_ok m d t'
    \<and> mode_of (ctl t') = mode_of (ctl t)"
  using assms
proof (induction w mem k t rule: rx_loop.induct)
  case (1 w mem k t)
  show ?case
  proof (cases "litepcie_dma_next_read_buffer (ctl t)")
    case (Pair o1 c)
    have c: "mode_of c = mode_of (ctl t)"
      using Pair by (auto simp: litepcie_dma_next_read_buffer_def mode_of_def split: if_splits)
    have c_ok: "test_ok m d (t\<lparr>ctl := c\<rparr>)" using "1.prems"(4) by (simp add: test_ok_def)
    show ?thesis
    proof (cases o1)
      case None
      then show ?thesis using Pair c c_ok by (simp add: rx_loop.simps [of w mem k t])
    next
      case (Some a)
      show ?thesis
      proof (cases "slt (c_writer_hw_count c) (of_nat (128 * DMA_BUFFER_COUNT))")
        case True
        then show ?thesis using Pair Some c c_ok by (simp add: rx_loop.simps [of w mem k t])
      next
        case False
        let ?r = "\<lparr>seed_rd = of_nat d, test_errors = 0, run = True\<rparr>"
        let ?t = "t\<lparr>ctl := c, rx := ?r,
          events := (if run (rx t) then events t @ [Cleared a] else events t)\<rparr>"
        have r: "rx_buffer (mem k a) m (rx t) = (?r, True)"
          using "1.prems" by (simp add: rx_buffer_shifted test_ok_def)
        have "test_ok m d ?t" using "1.prems"(4) by (simp add: test_ok_def event_ok_def rx_ok_def)
        then obtain t' where "rx_loop w mem (Suc k) ?t = Some (t', True)" "test_ok m d t'"
          "mode_of (ctl t') = mode_of c"
          using "1.IH" [OF Pair [symmetric, unfolded Some] refl False "1.prems"(1) r [symmetric] TrueI "1.prems"(1-3)] by auto
        then show ?thesis using Pair Some c False "1.prems"(1) r by (auto simp: rx_loop.simps [of w mem k t])
      qed
    qed
  qed
qed

lemma statistics_ok: "test_ok m d t \<Longrightarrow> test_ok m d (statistics t1 t2 t)" "ctl (statistics t1 t2 t) = ctl t"
  by (simp_all add: statistics_def Let_def test_ok_def rx_ok_def event_ok_def)

lemma test_data_ok:
  assumes "get_data_mask w = Some m" "d < PN_WORDS" "loops_back m d e" "test_ok m d t"
  shows "\<exists>t'. test_data w e t = Some (t', True) \<and> test_ok m d t' \<and> mode_of (ctl t') = mode_of (ctl t)"
proof -
  obtain t1 where 1: "tx_loop w t = Some t1" "test_ok m d t1" "mode_of (ctl t1) = mode_of (ctl t)"
    using tx_loop_ok [OF assms(1,4)] by blast
  have "\<forall>k a. memory e k a = rotate d (pn_block m)" using assms(3) by (simp add: loops_back_def)
  then obtain t2 where 2: "rx_loop w (memory e) 0 t1 = Some (t2, True)" "test_ok m d t2"
    "mode_of (ctl t2) = mode_of (ctl t1)"
    using rx_loop_ok [OF assms(1,2) _ 1(2)] by blast
  show ?thesis using 1 2 by (simp add: test_data_def statistics_ok)
qed

interpretation test: session_run ctl "\<lambda>c t. t\<lparr>ctl := c\<rparr>" "\<lambda>e t. \<not> go_on e" round_lib "test_data w" "test_loop w"
    "test_ok m d" "\<lambda>e. loops_back m d e \<and> get_data_mask w = Some m \<and> d < PN_WORDS" for w m d
proof unfold_locales
  fix e t assume "loops_back m d e \<and> get_data_mask w = Some m \<and> d < PN_WORDS" "test_ok m d t"
  then show "\<exists>t' go. test_data w e t = Some (t', go) \<and> test_ok m d t' \<and> mode_of (ctl t') = mode_of (ctl t)"
    using test_data_ok by blast
qed (simp_all add: test_ok_def)

section \<open>The whole test\<close>

lemma test_start_ok:
  assumes "if auto_rx_delay = 0 then d = 0 else \<forall>k < 14. bit m k"
  shows "test_ok m d (test_start auto_rx_delay t0 c)"
  using assms by (auto simp: test_ok_def rx_ok_def test_start_def)

lemma dma_test_clean:
  assumes "get_data_mask w = Some m" "1 \<le> w" "w \<le> 32" "d < PN_WORDS" "\<forall>e \<in> set es. loops_back m d e"
    and "if auto_rx_delay = 0 then d = 0 else \<forall>k < 14. bit m k"
    and "dma_test zc ext w auto_rx_delay le t0 es ci s = Done r"
  shows "end_state (test_ok m d) r \<or> (\<exists>s'. r = Exited s')"
proof (rule test.program_keeps [OF _ test_start_ok [OF assms(6)]])
  show "\<forall>e \<in> set es. loops_back m d e \<and> get_data_mask w = Some m \<and> d < PN_WORDS" using assms(1,4,5) by simp
qed (use assms(2,3,7) in \<open>simp add: dma_test_def Let_def\<close>)

lemma dma_test_returns:
  assumes "get_data_mask w = Some m" "1 \<le> w" "w \<le> 32" "d < PN_WORDS"
    and "\<forall>e \<in> set es. loops_back m d e \<and> session_env (round_lib e)" "\<exists>e \<in> set es. \<not> go_on e"
    and "if auto_rx_delay = 0 then d = 0 else \<forall>k < 14. bit m k"
    and "init_env le ci s" "zc \<noteq> 0"
  shows "\<exists>t s'. dma_test zc ext w auto_rx_delay le t0 es ci s = Done (Finished t s') \<and> test_ok m d t
    \<and> mset (live s') = mset (live s) \<and> idle_for 1 1 ci s'"
proof -
  have "\<forall>e \<in> set es. (loops_back m d e \<and> get_data_mask w = Some m \<and> d < PN_WORDS) \<and> session_env (round_lib e)"
    using assms(1,4,5) by simp
  from test.program_returns [OF this _ _ assms(8,9), of "test_start auto_rx_delay t0"
      "test_ctrl\<lparr>loopback := (if ext \<noteq> 0 then 0 else 1)\<rparr>"]
  show ?thesis
    using test_start_ok [OF assms(7), of t0] assms(2,3,6) by (simp add: dma_test_def Let_def test_start_def test_ctrl_def zero_ctrl_def)
qed

text \<open>The widths whose mask keeps the low 14 bits, as the calibration needs.\<close>

lemma calibration_widths:
  assumes "w \<in> {1, 2, 4, 8, 14, 15, 16}"
  shows "\<exists>m. get_data_mask w = Some m \<and> (\<forall>k < 14. bit m k)"
proof -
  have w: "1 \<le> nat w" "nat w \<le> 16" "int (nat w) = w" using assms by auto
  obtain m p where m: "get_next_pow2 w = Some p" "get_data_mask w = Some m" "\<forall>k < 32. bit m k \<longleftrightarrow> k mod p < nat w"
    using get_data_mask_bits [OF w(1,2)] w(3) by auto
  have "p = nat w \<or> (p = 16 \<and> 14 \<le> nat w)"
    using assms m(1) by (auto simp: get_next_pow2_def next_pow2_loop.simps)
  then have "\<forall>k < 14. k mod p < nat w" using w(1) by auto
  then show ?thesis using m by auto
qed

end
