(* ===== verification/Util_Record.thy ===== *)
theory Util_Record
  imports
    Lib_Session
    Util_Apps
begin

text \<open>
  The commands of \<open>litepcie_test.c\<close> as whole programs over the library: \<open>init\<close>, \<open>record\<close> and
  \<open>play\<close> with their loops, the stop by size or by the number of loops, the statistics and the
  clean-up. The data paths are those of \<^theory_text>\<open>Util_Apps\<close>.
\<close>

section \<open>Init\<close>

text \<open>The rate given on the command line is not used.\<close>

definition litepcie_init :: "lib_env \<Rightarrow> string \<Rightarrow> nat \<Rightarrow> kstate \<Rightarrow> unit run_end lib_result" where
  "litepcie_init le rate ci s =
     lbind (litepcie_dma_init le 0 ci (zero_ctrl 0 0) s) (\<lambda>(r, d, f, s).
       if r = 0 then run_cleanup le (\<lambda>_. ()) d (the f, s) else Done (Finished () s))"

section \<open>Record\<close>

text \<open>
  \<open>seen\<close> is the contents of the buffers taken so far; a printed line has the buffers since the
  last line, the milliseconds, the software count and the megabytes.
\<close>

record record_run =
  rr_ctl :: litepcie_dma_ctrl
  rr_file :: rec_state
  seen :: "u8 list list"
  rr_lines :: nat
  rr_last_time :: u64
  writer_sw_count_last :: u64
  rr_out :: "(u64 \<times> u64 \<times> u64 \<times> int) list"

text \<open>Without a file name nothing is written and the total length stays what it is.\<close>

definition record_step :: "(nat \<Rightarrow> nat) \<Rightarrow> bool \<Rightarrow> u32 \<Rightarrow> u8 list \<Rightarrow> rec_state \<Rightarrow> rec_state" where
  "record_step fw named sz buf f =
     (if named then record_buffer fw sz buf f
      else if sz > 0 \<and> total_len f \<ge> ucast sz then f\<lparr>keep_running := False\<rparr> else f)"

function record_take ::
    "(nat \<Rightarrow> nat) \<Rightarrow> bool \<Rightarrow> u32 \<Rightarrow> (nat \<Rightarrow> u64 \<Rightarrow> u8 list) \<Rightarrow> nat \<Rightarrow> record_run \<Rightarrow> record_run" where
  "record_take fw named sz mem k r =
     (case litepcie_dma_next_read_buffer (rr_ctl r) of
        (None, d) \<Rightarrow> r\<lparr>rr_ctl := d\<rparr>
      | (Some a, d) \<Rightarrow> record_take fw named sz mem (Suc k)
          (r\<lparr>rr_ctl := d, seen := seen r @ [mem k a], rr_file := record_step fw named sz (mem k a) (rr_file r)\<rparr>))"
  by pat_completeness auto
termination
  by (relation "measure (\<lambda>(fw, named, sz, mem, k, r). unat (buffers_available_read (rr_ctl r)))")
    (auto simp: litepcie_dma_next_read_buffer_def measure_unat split: if_splits)

declare record_take.simps [simp del]

definition megabytes :: "u64 \<Rightarrow> int" where
  "megabytes n = (let b = sint (n * of_nat DMA_BUFFER_SIZE) in sgn b * (\<bar>b\<bar> div 1024 div 1024))"

definition record_stats :: "u32 \<Rightarrow> u64 \<Rightarrow> u64 \<Rightarrow> record_run \<Rightarrow> record_run" where
  "record_stats sz t1 t2 r =
     (let duration = t1 - rr_last_time r; n = c_writer_sw_count (rr_ctl r) in
      if sgt duration 200 then
        r\<lparr>rr_lines := rr_lines r + 1,
          rr_out := rr_out r @ [(n - writer_sw_count_last r, duration, n, if sz > 0 then megabytes n else 0)],
          rr_last_time := t2, writer_sw_count_last := n\<rparr>
      else r)"

definition record_body :: "(nat \<Rightarrow> nat) \<Rightarrow> bool \<Rightarrow> u32 \<Rightarrow> u8 round_env \<Rightarrow> record_run \<Rightarrow> record_run" where
  "record_body fw named sz e r = record_stats sz (now e) (now' e) (record_take fw named sz (memory e) 0 r)"

fun record_loop ::
    "(nat \<Rightarrow> nat) \<Rightarrow> bool \<Rightarrow> u32 \<Rightarrow> u8 round_env list \<Rightarrow> record_run \<Rightarrow> fd \<Rightarrow> record_run run_end lib_result" where
  "record_loop fw named sz [] r fd = Done (Running r fd)"
| "record_loop fw named sz (e # es) r fd =
     (if \<not> (go_on e \<and> keep_running (rr_file r)) then
        run_cleanup (round_lib e) (\<lambda>d. r\<lparr>rr_ctl := d\<rparr>) (rr_ctl r) fd
      else lbind (litepcie_dma_process (round_lib e) (rr_ctl r) fd) (\<lambda>(d, fd).
        record_loop fw named sz es (record_body fw named sz e (r\<lparr>rr_ctl := d\<rparr>)) fd))"

definition record_start :: "u64 \<Rightarrow> litepcie_dma_ctrl \<Rightarrow> record_run" where
  "record_start t0 d = \<lparr>rr_ctl = d, rr_file = \<lparr>rec_file = [], total_len = 0, keep_running = True\<rparr>, seen = [],
     rr_lines = 0, rr_last_time = t0, writer_sw_count_last = 0, rr_out = []\<rparr>"

text \<open>\<open>fo\<close>: whether the file, if one is named, could be opened for writing.\<close>

definition record_command ::
    "(nat \<Rightarrow> nat) \<Rightarrow> bool \<Rightarrow> bool \<Rightarrow> u32 \<Rightarrow> u8 \<Rightarrow> lib_env \<Rightarrow> u64 \<Rightarrow> u8 round_env list \<Rightarrow> nat \<Rightarrow> kstate \<Rightarrow> record_run run_end lib_result" where
  "record_command fw fo named sz zc le t0 es ci s =
     (if named \<and> \<not> fo then Done (Exited s)
      else lbind (litepcie_dma_init le zc ci (zero_ctrl 0 1) s) (\<lambda>(r, d, f, s).
        if r \<noteq> 0 then Done (Exited s)
        else record_loop fw named sz es (record_start t0 d) (the f, s)))"

section \<open>Play\<close>

text \<open>\<open>sent\<close> is what the buffers handed to the board contain, with their addresses.\<close>

record play_run =
  pr_ctl :: litepcie_dma_ctrl
  pr_file :: play_state
  sent :: "(u64 \<times> u8 list) list"
  sw_underflows :: u64
  pr_lines :: nat
  pr_last_time :: u64
  pr_count_last :: u64
  pr_out :: "(u64 \<times> u64 \<times> u64 \<times> int \<times> u32 \<times> u64) list"

definition count_underflows :: "litepcie_dma_ctrl \<Rightarrow> u64 \<Rightarrow> u64" where
  "count_underflows d n =
     (if slt (c_reader_sw_count d - c_reader_hw_count d) 0 then n + (c_reader_hw_count d - c_reader_sw_count d) else n)"

function play_fill :: "u8 list \<Rightarrow> u32 \<Rightarrow> (nat \<Rightarrow> u64 \<Rightarrow> u8 list) \<Rightarrow> nat \<Rightarrow> play_run \<Rightarrow> play_run" where
  "play_fill file loops mem k p =
     (case litepcie_dma_next_write_buffer (pr_ctl p) of
        (None, d) \<Rightarrow> p\<lparr>pr_ctl := d\<rparr>
      | (Some a, d) \<Rightarrow>
          (case play_buffer file loops (mem k a) (pr_file p) of (b, q) \<Rightarrow>
             play_fill file loops mem (Suc k)
               (p\<lparr>pr_ctl := d, sw_underflows := count_underflows d (sw_underflows p),
                  pr_file := q, sent := sent p @ [(a, b)]\<rparr>)))"
  by pat_completeness auto
termination
  by (relation "measure (\<lambda>(file, loops, mem, k, p). unat (buffers_available_write (pr_ctl p)))")
    (auto simp: litepcie_dma_next_write_buffer_def measure_unat split: if_splits)

declare play_fill.simps [simp del]

text \<open>The count kept for the next line is the hardware count.\<close>

definition play_stats :: "u64 \<Rightarrow> u64 \<Rightarrow> play_run \<Rightarrow> play_run" where
  "play_stats t1 t2 p =
     (let duration = t1 - pr_last_time p; n = c_reader_sw_count (pr_ctl p) in
      if sgt duration 200 then
        p\<lparr>pr_lines := pr_lines p + 1,
          pr_out := pr_out p @ [(n - pr_count_last p, duration, n, megabytes n, current_loop (pr_file p), sw_underflows p)],
          pr_last_time := t2, pr_count_last := c_reader_hw_count (pr_ctl p), sw_underflows := 0\<rparr>
      else p)"

definition play_body :: "u8 list \<Rightarrow> u32 \<Rightarrow> u8 round_env \<Rightarrow> play_run \<Rightarrow> play_run" where
  "play_body file loops e p = play_stats (now e) (now' e) (play_fill file loops (memory e) 0 p)"

fun play_loop :: "u8 list \<Rightarrow> u32 \<Rightarrow> u8 round_env list \<Rightarrow> play_run \<Rightarrow> fd \<Rightarrow> play_run run_end lib_result" where
  "play_loop file loops [] p fd = Done (Running p fd)"
| "play_loop file loops (e # es) p fd =
     (if \<not> (go_on e \<and> playing (pr_file p)) then
        run_cleanup (round_lib e) (\<lambda>d. p\<lparr>pr_ctl := d\<rparr>) (pr_ctl p) fd
      else lbind (litepcie_dma_process (round_lib e) (pr_ctl p) fd) (\<lambda>(d, fd).
        play_loop file loops es (play_body file loops e (p\<lparr>pr_ctl := d\<rparr>)) fd))"

definition play_start :: "u64 \<Rightarrow> litepcie_dma_ctrl \<Rightarrow> play_run" where
  "play_start t0 d = \<lparr>pr_ctl = d, pr_file = \<lparr>pos = 0, current_loop = 0, playing = True\<rparr>, sent = [],
     sw_underflows = 0, pr_lines = 0, pr_last_time = t0, pr_count_last = 0, pr_out = []\<rparr>"

text \<open>None: the file could not be opened.\<close>

definition play_command ::
    "u8 list option \<Rightarrow> u32 \<Rightarrow> u8 \<Rightarrow> lib_env \<Rightarrow> u64 \<Rightarrow> u8 round_env list \<Rightarrow> nat \<Rightarrow> kstate \<Rightarrow> play_run run_end lib_result" where
  "play_command file loops zc le t0 es ci s =
     (case file of None \<Rightarrow> Done (Exited s)
      | Some bs \<Rightarrow> lbind (litepcie_dma_init le zc ci (zero_ctrl 1 0) s) (\<lambda>(r, d, f, s).
          if r \<noteq> 0 then Done (Exited s)
          else play_loop bs loops es (play_start t0 d) (the f, s)))"

section \<open>Lemmas: record\<close>

definition full_buffers :: "u8 round_env \<Rightarrow> bool" where
  "full_buffers e \<longleftrightarrow> (\<forall>k a. length (memory e k a) = DMA_BUFFER_SIZE)"

definition rec0 :: rec_state where
  "rec0 = \<lparr>rec_file = [], total_len = 0, keep_running = True\<rparr>"

text \<open>The file is what the data path makes of the buffers seen.\<close>

definition record_ok :: "(nat \<Rightarrow> nat) \<Rightarrow> u32 \<Rightarrow> record_run \<Rightarrow> bool" where
  "record_ok fw sz r \<longleftrightarrow> rr_file r = litepcie_record fw sz (seen r) rec0
     \<and> (\<forall>b \<in> set (seen r). length b = DMA_BUFFER_SIZE)"

lemma record_take_ok:
  assumes "record_ok fw sz r" "\<forall>k a. length (mem k a) = DMA_BUFFER_SIZE"
  shows "record_ok fw sz (record_take fw True sz mem k r)
    \<and> mode_of (rr_ctl (record_take fw True sz mem k r)) = mode_of (rr_ctl r)"
  using assms
proof (induction fw "True" sz mem k r rule: record_take.induct)
  case (1 fw sz mem k r)
  obtain o1 c where n: "litepcie_dma_next_read_buffer (rr_ctl r) = (o1, c)" by fastforce
  have m: "mode_of c = mode_of (rr_ctl r)"
    using n by (auto simp: litepcie_dma_next_read_buffer_def mode_of_def split: if_splits)
  show ?case
  proof (cases o1)
    case None
    then show ?thesis using n m "1.prems" by (simp add: record_take.simps [of fw True] record_ok_def)
  next
    case (Some a)
    let ?r = "r\<lparr>rr_ctl := c, seen := seen r @ [mem k a], rr_file := record_step fw True sz (mem k a) (rr_file r)\<rparr>"
    have "record_ok fw sz ?r"
      using "1.prems" by (auto simp: record_ok_def record_step_def litepcie_record_def)
    then show ?thesis
      using "1.hyps" [OF n [symmetric, unfolded Some] refl] "1.prems"(2) n m Some
      by (simp add: record_take.simps [of fw True sz mem k r])
  qed
qed

interpretation recording: session_run rr_ctl "\<lambda>d r. r\<lparr>rr_ctl := d\<rparr>"
    "\<lambda>e r. \<not> (go_on e \<and> keep_running (rr_file r))" round_lib "\<lambda>e r. Some (record_body fw True sz e r, True)"
    "record_loop fw True sz" "record_ok fw sz" full_buffers for fw sz
proof unfold_locales
  fix e r assume "full_buffers e" "record_ok fw sz r"
  then show "\<exists>r' go. Some (record_body fw True sz e r, True) = Some (r', go) \<and> record_ok fw sz r'
      \<and> mode_of (rr_ctl r') = mode_of (rr_ctl r)"
    using record_take_ok [of fw sz r "memory e" 0]
    by (simp add: record_body_def record_stats_def record_ok_def full_buffers_def Let_def) (rule exI [of _ True], rule TrueI)
qed (simp_all add: record_ok_def)

text \<open>What the file holds after any run.\<close>

lemma record_ok_file:
  assumes "record_ok fw sz r" "\<And>n. fw n = n" "0 < unat sz"
  shows "rec_file (rr_file r) = take (unat sz) (concat (seen r))"
    and "keep_running (rr_file r) \<longleftrightarrow> length (concat (seen r)) < unat sz"
  using record_stream [OF assms(2,3), of "seen r" rec0] assms(1,3) by (simp_all add: record_ok_def rec0_def)

section \<open>Lemmas: play\<close>

definition play0 :: play_state where
  "play0 = \<lparr>pos = 0, current_loop = 0, playing = True\<rparr>"

definition play_ok :: "u8 list \<Rightarrow> u32 \<Rightarrow> play_run \<Rightarrow> bool" where
  "play_ok file loops p \<longleftrightarrow> (\<exists>olds. (map snd (sent p), pr_file p) = litepcie_play file loops olds play0
     \<and> (\<forall>b \<in> set olds. length b = DMA_BUFFER_SIZE))"

lemma play_append:
  "litepcie_play f loops (xs @ [b]) p =
     (case litepcie_play f loops xs p of (bs, q) \<Rightarrow> case play_buffer f loops b q of (b', q') \<Rightarrow> (bs @ [b'], q'))"
  by (induction xs arbitrary: p) (simp_all add: split_beta)

lemma play_fill_ok:
  assumes "play_ok file loops p" "\<forall>k a. length (mem k a) = DMA_BUFFER_SIZE"
  shows "play_ok file loops (play_fill file loops mem k p)
    \<and> mode_of (pr_ctl (play_fill file loops mem k p)) = mode_of (pr_ctl p)"
  using assms
proof (induction "file" loops mem k p rule: play_fill.induct)
  case (1 "file" loops mem k p)
  obtain o1 c where n: "litepcie_dma_next_write_buffer (pr_ctl p) = (o1, c)" by fastforce
  have m: "mode_of c = mode_of (pr_ctl p)"
    using n by (auto simp: litepcie_dma_next_write_buffer_def mode_of_def split: if_splits)
  show ?case
  proof (cases o1)
    case None
    then show ?thesis using n m "1.prems" by (simp add: play_fill.simps [of "file"] play_ok_def)
  next
    case (Some a)
    obtain b q where b: "play_buffer file loops (mem k a) (pr_file p) = (b, q)" by fastforce
    let ?p = "p\<lparr>pr_ctl := c, sw_underflows := count_underflows c (sw_underflows p), pr_file := q, sent := sent p @ [(a, b)]\<rparr>"
    obtain olds where o: "(map snd (sent p), pr_file p) = litepcie_play file loops olds play0"
      "\<forall>b \<in> set olds. length b = DMA_BUFFER_SIZE"
      using "1.prems"(1) by (auto simp: play_ok_def)
    have "litepcie_play file loops (olds @ [mem k a]) play0 = (map snd (sent ?p), pr_file ?p)"
      using b by (simp add: play_append o(1) [symmetric])
    then have "play_ok file loops ?p"
      using o(2) "1.prems"(2) unfolding play_ok_def by (intro exI [of _ "olds @ [mem k a]"]) auto
    then show ?thesis
      using "1.IH" [OF n [symmetric, unfolded Some] refl b [symmetric]] "1.prems"(2) n m Some b
      by (simp add: play_fill.simps [of "file" loops mem k p])
  qed
qed

interpretation playing: session_run pr_ctl "\<lambda>d p. p\<lparr>pr_ctl := d\<rparr>"
    "\<lambda>e p. \<not> (go_on e \<and> playing (pr_file p))" round_lib "\<lambda>e p. Some (play_body bs loops e p, True)"
    "play_loop bs loops" "play_ok bs loops" full_buffers for bs loops
proof unfold_locales
  fix e p assume "full_buffers e" "play_ok bs loops p"
  then show "\<exists>p' go. Some (play_body bs loops e p, True) = Some (p', go) \<and> play_ok bs loops p'
      \<and> mode_of (pr_ctl p') = mode_of (pr_ctl p)"
    using play_fill_ok [of bs loops p "memory e" 0]
    by (simp add: play_body_def play_stats_def play_ok_def full_buffers_def Let_def) (rule exI [of _ True], rule TrueI)
qed (simp_all add: play_ok_def)

lemma play_length: "length (fst (litepcie_play f loops olds p)) = length olds"
  by (induction olds arbitrary: p) (simp_all add: split_beta)

lemma play_ok_sent:
  assumes "play_ok file loops p" "DMA_BUFFER_SIZE \<le> length file"
  shows "concat (map snd (sent p)) = cyclic file 0 (length (sent p) * DMA_BUFFER_SIZE)"
proof -
  obtain olds where o: "(map snd (sent p), pr_file p) = litepcie_play file loops olds play0"
    "\<forall>b \<in> set olds. length b = DMA_BUFFER_SIZE"
    using assms(1) by (auto simp: play_ok_def)
  have s: "map snd (sent p) = fst (litepcie_play file loops olds play0)" using o(1) [symmetric] by simp
  have "length (sent p) = length olds" using arg_cong [OF s, of length] by (simp add: play_length)
  then show ?thesis using play_stream [OF assms(2) _ o(2), of play0 loops] by (simp add: s play0_def)
qed

section \<open>The commands\<close>

lemma record_command_returns:
  assumes "\<And>n. fw n = n" "0 < unat sz" "\<forall>e \<in> set es. full_buffers e \<and> session_env (round_lib e)"
    and "\<exists>e \<in> set es. \<not> go_on e" "init_env le ci s" "zc \<noteq> 0"
  shows "\<exists>r s'. record_command fw True True sz zc le t0 es ci s = Done (Finished r s')
    \<and> rec_file (rr_file r) = take (unat sz) (concat (seen r))
    \<and> mset (live s') = mset (live s) \<and> idle_for 0 1 ci s'"
proof -
  have "record_ok fw sz (record_start t0 c) \<and> rr_ctl (record_start t0 c) = c" for c
    by (simp add: record_ok_def record_start_def rec0_def litepcie_record_def)
  from recording.program_returns [OF assms(3) _ this assms(5,6), of "zero_ctrl 0 1"] assms(4)
  obtain r s' where "record_command fw True True sz zc le t0 es ci s = Done (Finished r s')" "record_ok fw sz r"
    "mset (live s') = mset (live s)" "idle_for 0 1 ci s'"
    by (auto simp: record_command_def zero_ctrl_def)
  then show ?thesis using record_ok_file(1) [OF _ assms(1,2)] by blast
qed

lemma play_command_returns:
  assumes "DMA_BUFFER_SIZE \<le> length file" "\<forall>e \<in> set es. full_buffers e \<and> session_env (round_lib e)"
    and "\<exists>e \<in> set es. \<not> go_on e" "init_env le ci s" "zc \<noteq> 0"
  shows "\<exists>p s'. play_command (Some file) loops zc le t0 es ci s = Done (Finished p s')
    \<and> concat (map snd (sent p)) = cyclic file 0 (length (sent p) * DMA_BUFFER_SIZE)
    \<and> mset (live s') = mset (live s) \<and> idle_for 1 0 ci s'"
proof -
  have "play_ok file loops (play_start t0 c) \<and> pr_ctl (play_start t0 c) = c" for c
    by (auto simp: play_ok_def play_start_def play0_def intro!: exI [of _ "[]"])
  from playing.program_returns [OF assms(2) _ this assms(4,5), of "zero_ctrl 1 0"] assms(3)
  obtain p s' where "play_command (Some file) loops zc le t0 es ci s = Done (Finished p s')" "play_ok file loops p"
    "mset (live s') = mset (live s)" "idle_for 1 0 ci s'"
    by (auto simp: play_command_def zero_ctrl_def)
  then show ?thesis using play_ok_sent [OF _ assms(1)] by blast
qed

end
