(* ===== verification/Util_Main.thy ===== *)
theory Util_Main
  imports
    Util_Apps
    Soapy_Text
begin

text \<open>
  The command line of \<open>litepcie_util\<close> and \<open>litepcie_test\<close> and the commands of \<open>litepcie_util.c\<close>
  that only read registers or wrap the flash functions. What \<open>getopt\<close> returns is an argument: the
  option letters with their arguments, and the words left over. \<open>atoi\<close> and \<open>strtoul\<close> of the C
  library are defined on strings.
\<close>

section \<open>Numbers of the C library\<close>

text \<open>None: the value is no \<open>int\<close>, which \<open>atoi\<close> leaves undefined.\<close>

definition atoi :: "string \<Rightarrow> int option" where
  "atoi s =
     (case split_sign (dropWhile is_space s) of (neg, r) \<Rightarrow>
        let n = int (digits_value 0 (takeWhile is_digit r)); v = (if neg then - n else n)
        in if v < - (2 ^ 31) \<or> 2 ^ 31 \<le> v then None else Some v)"

definition digit_of :: "char \<Rightarrow> nat" where
  "digit_of c =
     (let n = of_char c :: nat in
      if 48 \<le> n \<and> n \<le> 57 then n - 48
      else if 97 \<le> n \<and> n \<le> 122 then n - 87
      else if 65 \<le> n \<and> n \<le> 90 then n - 55
      else 36)"

definition base_value :: "nat \<Rightarrow> string \<Rightarrow> nat" where
  "base_value b s = fold (\<lambda>c v. v * b + digit_of c) s 0"

text \<open>The base a number announces when \<open>strtoul\<close> is called with base 0, and its digits.\<close>

definition split_base :: "string \<Rightarrow> nat \<times> string" where
  "split_base s =
     (case s of
        a # b # c # cs \<Rightarrow>
          if a = CHR ''0'' \<and> (b = CHR ''x'' \<or> b = CHR ''X'') \<and> digit_of c < 16 then (16, c # cs)
          else if a = CHR ''0'' then (8, s) else (10, s)
      | a # cs \<Rightarrow> if a = CHR ''0'' then (8, s) else (10, s)
      | [] \<Rightarrow> (10, s))"

definition strtoul :: "string \<Rightarrow> u64" where
  "strtoul s =
     (case split_sign (dropWhile is_space s) of (neg, r) \<Rightarrow>
      case split_base r of (b, ds) \<Rightarrow>
        let v = base_value b (takeWhile (\<lambda>c. digit_of c < b) ds)
        in if 2 ^ 64 \<le> v then - 1 else if neg then - of_nat v else of_nat v)"

section \<open>The command line of \<open>litepcie_util\<close>\<close>

record util_options =
  litepcie_device_num :: int
  litepcie_data_width :: int
  device_zero_copy :: u8
  device_external_loopback :: u8
  litepcie_auto_rx_delay :: int

text \<open>What the program does with its command line: the three ways not to run a command come first.\<close>

datatype 'a parsed = Help | Bad_option | Int_undefined | Parsed 'a

datatype util_command =
    Info
  | Scratch_test
  | Uart_test
  | Gps_test
  | Flash_write string u32
  | Flash_read string u32 u32
  | Flash_reload
  | Dma_test u8 u8 int int
  | Lms_reset
  | Lms_dump
  | Lms_set_tx_pattern u8
  | Lms_set_tx_rx_loopback u8

definition util_defaults :: util_options where
  "util_defaults = \<lparr>litepcie_device_num = 0, litepcie_data_width = 16, device_zero_copy = 0,
     device_external_loopback = 0, litepcie_auto_rx_delay = 0\<rparr>"

fun util_getopt :: "(char \<times> string) list \<Rightarrow> util_options \<Rightarrow> util_options parsed" where
  "util_getopt [] u = Parsed u"
| "util_getopt ((c, optarg) # os) u =
     (if c = CHR ''h'' then Help
      else if c = CHR ''c'' then
        (case atoi optarg of None \<Rightarrow> Int_undefined | Some n \<Rightarrow> util_getopt os (u\<lparr>litepcie_device_num := n\<rparr>))
      else if c = CHR ''w'' then
        (case atoi optarg of None \<Rightarrow> Int_undefined | Some n \<Rightarrow> util_getopt os (u\<lparr>litepcie_data_width := n\<rparr>))
      else if c = CHR ''z'' then util_getopt os (u\<lparr>device_zero_copy := 1\<rparr>)
      else if c = CHR ''e'' then util_getopt os (u\<lparr>device_external_loopback := 1\<rparr>)
      else if c = CHR ''a'' then util_getopt os (u\<lparr>litepcie_auto_rx_delay := 1\<rparr>)
      else Bad_option)"

text \<open>A number that may be missing at the end of the line.\<close>

definition optional_u32 :: "string list \<Rightarrow> u32" where
  "optional_u32 args = (case args of [] \<Rightarrow> 0 | a # as \<Rightarrow> ucast (strtoul a))"

definition util_dispatch :: "util_options \<Rightarrow> string \<Rightarrow> string list \<Rightarrow> util_command parsed" where
  "util_dispatch u cmd args =
     (if cmd = ''info'' then Parsed Info
      else if cmd = ''scratch_test'' then Parsed Scratch_test
      else if cmd = ''uart_test'' then Parsed Uart_test
      else if cmd = ''gps_test'' then Parsed Gps_test
      else if cmd = ''flash_write'' then
        (case args of filename # r \<Rightarrow> Parsed (Flash_write filename (optional_u32 r)) | _ \<Rightarrow> Help)
      else if cmd = ''flash_read'' then
        (case args of
           filename # n # r \<Rightarrow> Parsed (Flash_read filename (ucast (strtoul n)) (optional_u32 r))
         | _ \<Rightarrow> Help)
      else if cmd = ''flash_reload'' then Parsed Flash_reload
      else if cmd = ''dma_test'' then
        Parsed (Dma_test (device_zero_copy u) (device_external_loopback u)
                  (litepcie_data_width u) (litepcie_auto_rx_delay u))
      else if cmd = ''lms_reset'' then Parsed Lms_reset
      else if cmd = ''lms_dump'' then Parsed Lms_dump
      else if cmd = ''lms_set_tx_pattern'' then
        (case args of a # r \<Rightarrow> Parsed (Lms_set_tx_pattern (ucast (strtoul a))) | _ \<Rightarrow> Help)
      else if cmd = ''lms_set_tx_rx_loopback'' then
        (case args of a # r \<Rightarrow> Parsed (Lms_set_tx_rx_loopback (ucast (strtoul a))) | _ \<Rightarrow> Help)
      else Help)"

definition device_path :: "int \<Rightarrow> string" where
  "device_path n = ''/dev/litepcie'' @ to_string n"

definition util_main :: "(char \<times> string) list \<Rightarrow> string list \<Rightarrow> (string \<times> util_command) parsed" where
  "util_main opts args =
     (case util_getopt opts util_defaults of
        Help \<Rightarrow> Help
      | Bad_option \<Rightarrow> Bad_option
      | Int_undefined \<Rightarrow> Int_undefined
      | Parsed u \<Rightarrow>
          (case args of
             [] \<Rightarrow> Help
           | cmd # as \<Rightarrow>
               (case util_dispatch u cmd as of
                  Parsed c \<Rightarrow> Parsed (device_path (litepcie_device_num u), c)
                | _ \<Rightarrow> Help)))"

section \<open>The command line of \<open>litepcie_test\<close>\<close>

datatype test_command =
    Init string
  | Record "string option" u32 u8
  | Play string u32 u8

fun test_getopt :: "(char \<times> string) list \<Rightarrow> int \<times> u8 \<Rightarrow> (int \<times> u8) parsed" where
  "test_getopt [] u = Parsed u"
| "test_getopt ((c, optarg) # os) (n, z) =
     (if c = CHR ''h'' then Help
      else if c = CHR ''c'' then
        (case atoi optarg of None \<Rightarrow> Int_undefined | Some n \<Rightarrow> test_getopt os (n, z))
      else if c = CHR ''z'' then test_getopt os (n, 1)
      else Bad_option)"

definition test_dispatch :: "u8 \<Rightarrow> string \<Rightarrow> string list \<Rightarrow> test_command parsed" where
  "test_dispatch z cmd args =
     (if cmd = ''init'' then (case args of rate # r \<Rightarrow> Parsed (Init rate) | _ \<Rightarrow> Help)
      else if cmd = ''record'' then
        (case args of
           [] \<Rightarrow> Parsed (Record None 0 z)
         | filename # n # r \<Rightarrow> Parsed (Record (Some filename) (ucast (strtoul n)) z)
         | _ \<Rightarrow> Help)
      else if cmd = ''play'' then
        (case args of
           [] \<Rightarrow> Help
         | filename # r \<Rightarrow> Parsed (Play filename (case r of [] \<Rightarrow> 1 | n # _ \<Rightarrow> ucast (strtoul n)) z))
      else Help)"

definition test_main :: "(char \<times> string) list \<Rightarrow> string list \<Rightarrow> (string \<times> test_command) parsed" where
  "test_main opts args =
     (case test_getopt opts (0, 0) of
        Help \<Rightarrow> Help
      | Bad_option \<Rightarrow> Bad_option
      | Int_undefined \<Rightarrow> Int_undefined
      | Parsed (n, z) \<Rightarrow>
          (case args of
             [] \<Rightarrow> Help
           | cmd # as \<Rightarrow>
               (case test_dispatch z cmd as of
                  Parsed c \<Rightarrow> Parsed (device_path n, c)
                | _ \<Rightarrow> Help)))"

section \<open>Commands that read registers\<close>

fun read_bytes_at :: "'c spi_port \<Rightarrow> u32 list \<Rightarrow> 'c \<Rightarrow> (u8 list \<times> 'c) option" where
  "read_bytes_at P [] c = Some ([], c)"
| "read_bytes_at P (a # as) c =
     Option.bind (p_read P a c) (\<lambda>(v, c).
     Option.bind (read_bytes_at P as c) (\<lambda>(bs, c). Some (ucast v # bs, c)))"

fun read_words_at :: "'c spi_port \<Rightarrow> u32 list \<Rightarrow> 'c \<Rightarrow> (u32 list \<times> 'c) option" where
  "read_words_at P [] c = Some ([], c)"
| "read_words_at P (a # as) c =
     Option.bind (p_read P a c) (\<lambda>(v, c).
     Option.bind (read_words_at P as c) (\<lambda>(vs, c). Some (v # vs, c)))"

text \<open>
  The identifier, the two words of the DNA, and the raw values of the temperature and of the three
  voltages, from which the printed numbers are computed.
\<close>

definition info :: "'c spi_port \<Rightarrow> 'c \<Rightarrow> ((u8 list \<times> u32 list) \<times> 'c) option" where
  "info P c =
     Option.bind (read_bytes_at P (map (\<lambda>i. CSR_IDENTIFIER_MEM_BASE + 4 * of_nat i) [0..<256]) c) (\<lambda>(ident, c).
     Option.bind (read_words_at P [CSR_DNA_ID_ADDR + 4 * 0, CSR_DNA_ID_ADDR + 4 * 1,
         CSR_XADC_TEMPERATURE_ADDR, CSR_XADC_VCCINT_ADDR, CSR_XADC_VCCAUX_ADDR, CSR_XADC_VCCBRAM_ADDR] c) (\<lambda>(vs, c).
       Some ((ident, vs), c)))"

text \<open>
  The two commands that print characters for ever, for the given number of turns: the characters
  printed so far. The UART command resets the CPU first.
\<close>

fun uart_turns :: "'c spi_port \<Rightarrow> nat \<Rightarrow> 'c \<Rightarrow> (u8 list \<times> 'c) option" where
  "uart_turns P 0 c = Some ([], c)"
| "uart_turns P (Suc n) c =
     Option.bind (p_read P CSR_UART_XOVER_RXEMPTY_ADDR c) (\<lambda>(v, c).
       if v AND 1 = 0 then
         Option.bind (p_read P CSR_UART_XOVER_RXTX_ADDR c) (\<lambda>(x, c).
         Option.bind (uart_turns P n c) (\<lambda>(bs, c). Some (ucast (x AND 0xff) # bs, c)))
       else uart_turns P n c)"

definition uart_test :: "'c spi_port \<Rightarrow> nat \<Rightarrow> 'c \<Rightarrow> (u8 list \<times> 'c) option" where
  "uart_test P n c = Option.bind (p_write P CSR_CTRL_RESET_ADDR 1 c) (\<lambda>c. uart_turns P n c)"

definition CSR_GPS_CONTROL_ADDR :: u32 where [csr_defs]: "CSR_GPS_CONTROL_ADDR = CSR_BASE + 0xb800"
definition CSR_GPS_CONTROL_ENABLE_OFFSET :: nat where [csr_defs]: "CSR_GPS_CONTROL_ENABLE_OFFSET = 0"
definition CSR_GPS_UART_RXTX_ADDR :: u32 where [csr_defs]: "CSR_GPS_UART_RXTX_ADDR = CSR_BASE + 0xb804"
definition CSR_GPS_UART_RXEMPTY_ADDR :: u32 where [csr_defs]: "CSR_GPS_UART_RXEMPTY_ADDR = CSR_BASE + 0xb80c"

fun gps_turns :: "'c spi_port \<Rightarrow> nat \<Rightarrow> 'c \<Rightarrow> (u8 list \<times> 'c) option" where
  "gps_turns P 0 c = Some ([], c)"
| "gps_turns P (Suc n) c =
     Option.bind (p_read P CSR_GPS_UART_RXEMPTY_ADDR c) (\<lambda>(v, c).
       if v = 0 then
         Option.bind (p_read P CSR_GPS_UART_RXTX_ADDR c) (\<lambda>(x, c).
         Option.bind (gps_turns P n (p_sleep P 10 c)) (\<lambda>(bs, c). Some (ucast x # bs, c)))
       else gps_turns P n (p_sleep P 10 c))"

definition gps_test :: "'c spi_port \<Rightarrow> nat \<Rightarrow> 'c \<Rightarrow> (u8 list \<times> 'c) option" where
  "gps_test P n c =
     Option.bind (p_write P CSR_GPS_CONTROL_ADDR (1 * push_bit CSR_GPS_CONTROL_ENABLE_OFFSET 1) c)
       (\<lambda>c. gps_turns P n c)"

section \<open>Flash commands\<close>

text \<open>
  \<open>flash_write\<close>: the contents of the file (None: it cannot be opened), whether \<open>malloc\<close> succeeds
  and whether \<open>fread\<close> gets all bytes. \<open>fread\<close> asks for one item of the whole size, so an empty file
  counts as unread. The result is the exit status.
\<close>

definition flash_write_file ::
    "'c spi_port \<Rightarrow> u8 list option \<Rightarrow> bool \<Rightarrow> bool \<Rightarrow> u32 \<Rightarrow> 'c \<Rightarrow> (int \<times> 'c) option" where
  "flash_write_file P filename malloc_ok fread_ok offset c =
     (case filename of
        None \<Rightarrow> Some (1, c)
      | Some data \<Rightarrow>
          if \<not> malloc_ok then Some (1, c)
          else if data = [] \<or> \<not> fread_ok then Some (0, c)
          else map_option (\<lambda>(errors, c). (if errors \<noteq> 0 then 1 else 0, c)) (flash_program P offset data c))"

text \<open>\<open>flash_read\<close>: whether the destination can be opened; the bytes written to it.\<close>

definition flash_read_file :: "'c spi_port \<Rightarrow> bool \<Rightarrow> u32 \<Rightarrow> u32 \<Rightarrow> 'c \<Rightarrow> ((int \<times> u8 list) \<times> 'c) option" where
  "flash_read_file P fopen_ok n offset c =
     (if \<not> fopen_ok then Some ((1, []), c)
      else map_option (\<lambda>(bs, c). ((0, bs), c)) (util_flash_read P (unat n) offset c))"

definition flash_reload :: "lib_env \<Rightarrow> fd \<Rightarrow> fd lib_result" where
  "flash_reload le fd = litepcie_reload le fd"

section \<open>Lemmas: numbers\<close>

lemma digit_of_hex: "d < 16 \<Longrightarrow> digit_of (digit_char d) = d"
  by (simp add: digit_of_def digit_char_def Let_def)

lemma base_value_snoc: "base_value b (s @ [c]) = base_value b s * b + digit_of c"
  by (simp add: base_value_def)

text \<open>What is printed in a base up to 16 reads back, and has no leading zero unless it is 0.\<close>

lemma show_base_reads:
  assumes "2 \<le> b" "b \<le> 16"
  shows "(\<forall>c \<in> set (show_base b n). digit_of c < b) \<and> show_base b n \<noteq> [] \<and> base_value b (show_base b n) = n
    \<and> (\<exists>d < b. hd (show_base b n) = digit_char d \<and> (0 < n \<longrightarrow> 0 < d))"
proof (induction n rule: less_induct)
  case (less n)
  show ?case
  proof (cases "n < b")
    case True
    then show ?thesis using assms
      by (subst (1 2 3 4) show_base.simps) (auto simp: digit_of_hex base_value_def)
  next
    case False
    have d: "n div b < n" "n mod b < b" "0 < n div b" using False assms by (auto simp: div_greater_zero_iff)
    have m: "digit_of (digit_char (n mod b)) = n mod b" by (rule digit_of_hex [OF less_le_trans [OF d(2) assms(2)]])
    from less.IH [OF d(1)] show ?thesis
      using False assms d m
      by (subst (1 2 3 4) show_base.simps) (auto simp: base_value_snoc)
  qed
qed

lemma plain_head:
  assumes "d < 10"
  shows "split_sign (dropWhile is_space (digit_char d # cs)) = (False, digit_char d # cs)"
  using digit_char_decimal [OF assms] by (simp add: split_sign_def)

lemma zero_char: "digit_char 0 = CHR ''0''"
  by code_simp

lemma digit_char_zero: "d < 16 \<Longrightarrow> digit_char d = CHR ''0'' \<longleftrightarrow> d = 0"
  using digit_of_hex [of d] digit_of_hex [of 0] by (auto simp: zero_char)

lemma strtoul_parts:
  assumes "split_sign (dropWhile is_space s) = (False, r)" "split_base r = (b, ds)"
    and "\<forall>c \<in> set ds. digit_of c < b" "base_value b ds < 2 ^ 64"
  shows "strtoul s = of_nat (base_value b ds)"
proof -
  have tw: "takeWhile (\<lambda>c. digit_of c < b) ds = ds" using assms(3) by (simp add: takeWhile_eq_all_conv)
  show ?thesis unfolding strtoul_def assms(1,2) prod.case tw Let_def using assms(4) by simp
qed

lemma strtoul_decimal:
  assumes "n < 2 ^ 64"
  shows "strtoul (to_string (int n)) = of_nat n"
proof -
  let ?s = "show_base 10 n"
  have S: "\<forall>c \<in> set ?s. digit_of c < 10" "base_value 10 ?s = n" "?s \<noteq> []"
    and "\<exists>d < 10. hd ?s = digit_char d \<and> (0 < n \<longrightarrow> 0 < d)"
    using show_base_reads [of 10 n] by simp_all
  then obtain d cs where s: "?s = digit_char d # cs" "d < 10" "0 < n \<longrightarrow> 0 < d" by (metis list.collapse)
  have sign: "split_sign (dropWhile is_space ?s) = (False, ?s)" unfolding s(1) by (rule plain_head [OF s(2)])
  show ?thesis
  proof (cases "n = 0")
    case True
    have s0: "?s = [digit_char 0]" unfolding True by (subst show_base.simps) simp
    have "split_base ?s = (8, ?s)" by (simp add: s0 split_base_def zero_char)
    from strtoul_parts [OF sign this, unfolded s0] have "strtoul [digit_char 0] = 0"
      by (simp add: digit_of_hex base_value_def)
    then show ?thesis by (simp only: to_string_def nat_int s0) (simp add: True)
  next
    case False
    then have "digit_char d \<noteq> CHR ''0''" using s(2,3) by (simp add: digit_char_zero)
    then have "split_base ?s = (10, ?s)" by (auto simp: s(1) split_base_def split: list.splits)
    from strtoul_parts [OF sign this S(1)] show ?thesis using assms S(2) by (simp add: to_string_def)
  qed
qed

lemma strtoul_hex:
  assumes "n < 2 ^ 64"
  shows "strtoul (''0x'' @ show_base 16 n) = of_nat n"
proof -
  let ?s = "show_base 16 n"
  have S: "\<forall>c \<in> set ?s. digit_of c < 16" "base_value 16 ?s = n" "?s \<noteq> []"
    using show_base_reads [of 16 n] by simp_all
  have sign: "split_sign (dropWhile is_space (''0x'' @ ?s)) = (False, ''0x'' @ ?s)"
    using plain_head [of 0 "CHR ''x'' # ?s"] by (simp add: zero_char)
  have "split_base (''0x'' @ ?s) = (16, ?s)"
    using S(1,3) by (cases ?s) (auto simp: split_base_def)
  from strtoul_parts [OF sign this S(1)] show ?thesis using assms S(2) by simp
qed

lemma atoi_decimal:
  assumes "n < 2 ^ 31"
  shows "atoi (to_string (int n)) = Some (int n)"
proof -
  have D: "\<forall>c \<in> set (show_base 10 n). is_digit c" "digits_value 0 (show_base 10 n) = n"
    using show_decimal [of n] by simp_all
  obtain d cs where s: "show_base 10 n = digit_char d # cs" "d < 10"
    using show_decimal [of n] by (metis list.collapse)
  have sign: "split_sign (dropWhile is_space (show_base 10 n)) = (False, show_base 10 n)"
    unfolding s(1) by (rule plain_head [OF s(2)])
  have tw: "takeWhile is_digit (show_base 10 n) = show_base 10 n" using D(1) by (simp add: takeWhile_eq_all_conv)
  have "to_string (int n) = show_base 10 n" by (simp add: to_string_def)
  then show ?thesis unfolding atoi_def using assms by (simp only: sign prod.case tw D(2) Let_def) simp
qed

lemma u32_strtoul:
  assumes "n < 2 ^ 32"
  shows "ucast (strtoul (to_string (int n))) = (of_nat n :: u32)" "ucast (strtoul (''0x'' @ show_base 16 n)) = (of_nat n :: u32)"
proof -
  have n: "n < 2 ^ 64" using assms by simp
  show "ucast (strtoul (to_string (int n))) = (of_nat n :: u32)" "ucast (strtoul (''0x'' @ show_base 16 n)) = (of_nat n :: u32)"
    unfolding strtoul_decimal [OF n] strtoul_hex [OF n] using assms
    by (intro word_of_natI, simp add: unsigned_ucast_eq unat_of_nat_small take_bit_nat_eq_self)+
qed

section \<open>Lemmas: the command line\<close>

text \<open>Options only change the settings they name; an unknown one ends the program.\<close>

lemma util_getopt_append:
  "util_getopt (xs @ ys) u = (case util_getopt xs u of Parsed v \<Rightarrow> util_getopt ys v | r \<Rightarrow> r)"
  by (induction xs u rule: util_getopt.induct) (auto split: option.splits)

lemma unknown_option:
  assumes "c \<notin> {CHR ''h'', CHR ''c'', CHR ''w'', CHR ''z'', CHR ''e'', CHR ''a''}"
  shows "\<forall>v. util_main (xs @ (c, a) # ys) args \<noteq> Parsed v"
proof -
  have "\<forall>v. util_getopt (xs @ (c, a) # ys) u \<noteq> Parsed v" for u
    using assms by (simp add: util_getopt_append split: parsed.split)
  then show ?thesis by (auto simp: util_main_def split: parsed.splits)
qed

section \<open>Lemmas: flash commands\<close>

text \<open>Exit status 0 for a file that was read means that the flash holds it.\<close>

lemma flash_write_file_image:
  assumes "litepcie_flash_get_flash_program_size P c = Some (ps, c0)"
    and "chip_memory P mem (ps - 1)" and "a + flash_pad (length data) + ps \<le> 2 ^ 24"
    and "flash_write_file P (Some data) True True (of_nat a) c = Some (0, c')"
  shows "\<forall>j < length data. mem c' (a + j) = data ! j"
proof (cases "data = []")
  case False
  obtain r where "flash_program P (of_nat a) data c = Some (r, c')" "r = 0"
    using assms(4) False by (auto simp: flash_write_file_def split: if_splits)
  then show ?thesis using flash_program_image(1) [OF assms(1-3)] by simp
qed simp

text \<open>A file that is not read in full, or is empty, also ends with status 0, with nothing written.\<close>

lemma flash_write_file_unread:
  assumes "data = [] \<or> \<not> fread_ok"
  shows "flash_write_file P (Some data) True fread_ok a c = Some (0, c)"
  using assms by (simp add: flash_write_file_def)

end
