(* ===== verification/Spec2Isabelle.thy ===== *)
theory Spec2Isabelle
  imports Kernel_System Example_Device Example_Chip Util_Pn Soapy_Facts Example_Board Example_Host Csr_Agree Util_Test Util_Record Util_Main
begin

text \<open>
  The C program of the XTRX board support: the Linux driver of the PCIe board
  (\<open>software/litepcie-kernel-module\<close>), the user library and utilities over it
  (\<open>software/litepcie-user-library\<close>), the SoapySDR plugin (\<open>software/soapysdr-xtrx\<close>) and the
  firmware of the soft CPU in the FPGA (\<open>firmware\<close>).

  \<^bold>\<open>How the parts interact.\<close> The board moves samples with one DMA channel in two directions
  (writer: board to host, reader: host to board). The driver owns a ring of 256 buffers of 64 kB
  for each direction, starts and stops the engines by writing their descriptor tables, counts finished
  buffers in an interrupt handler and lets processes copy (read, write) or map (mmap) the rings;
  ioctls give access to registers, the SPI flash, the engines, the counters and a per-direction
  lock. The library opens the device, takes the locks and hands out buffers of the rings; the
  utilities record, play, test and program the flash through it. The firmware is independent of
  the host: it powers the board over two bit-banged I2C buses, tunes the VCTCXO, releases the RF
  chip and serves a console.

  \<^bold>\<open>Theories.\<close>
  \<^item> \<open>Xtrx_Prelude\<close>: word sizes, signed comparison of counters, generic lemmas and collections.
    \<open>Csr_Map\<close>: the constants of \<open>csr.h\<close>, \<open>config.h\<close>, \<open>flags.h\<close>, \<open>soc.h\<close> the models use.
    \<open>Csr_Registers\<close>: the whole map of \<open>csr.h\<close> as tables, one per block; \<open>Csr_Agree\<close> compares it with
    those constants and with the copies of parts of it in \<open>config.h\<close> and \<open>liteuart.c\<close>.
  \<^item> \<open>Kernel_State\<close>, \<open>Kernel_Dma\<close>, \<open>Kernel_Irq\<close>, \<open>Kernel_File\<close>, \<open>Kernel_Ioctl\<close>,
    \<open>Kernel_Probe\<close>: \<open>main.c\<close> of the driver. The structs are records; the registers are a history
    of accesses, and what a register reads is a function of that history (an argument), so the
    FPGA is arbitrary. Copies from and to user space, waiting and kernel services are parameters;
    every error code and early return is a value.
  \<^item> \<open>Kernel_Engine\<close> gives the meaning of a descriptor table and the facts on starting and stopping;
    \<open>Kernel_Stream\<close> the ring as a sequence of buffers; \<open>Kernel_Buffers\<close> the life of the DMA
    memory; \<open>Kernel_Invariants\<close> the locales of what the operations of the driver preserve, with their
    interpretations (counters, locks, the pool of buffers, the rings); \<open>Kernel_System\<close> the step
    relation of the driver with its reachable states and invariants.
  \<^item> \<open>Lib_Dma\<close>, \<open>Lib_Flash\<close>: \<open>litepcie_dma.c\<close>, \<open>litepcie_helpers.c\<close> and \<open>litepcie_flash.c\<close>;
    \<open>Util_Pn\<close>, \<open>Util_Apps\<close>: the data paths of \<open>litepcie_util.c\<close> and \<open>litepcie_test.c\<close>.
    \<open>Lib_Session\<close>: a process over the library from initialisation to clean-up; its locale
    \<open>session_run\<close> is the shape the utilities share (rounds of processing and of a body, then the
    clean-up) and proves once that such a loop keeps the invariant of its body, returns and gives
    memory, engines and locks back. \<open>Util_Test\<close> (\<open>dma_test\<close>) and \<open>Util_Record\<close> (\<open>init\<close>, \<open>record\<close>,
    \<open>play\<close>) are its instances, with statistics; \<open>Util_Main\<close>: both command lines, and the commands
    that read registers or wrap the flash functions.
  \<^item> \<open>Soapy_Stream\<close>, \<open>Soapy_Facts\<close>: \<open>Streaming.cpp\<close> of the SoapySDR plugin over the library: the
    mapped rings with a third counter of buffers in use, and the copying interface with its remainder.
  \<^item> \<open>Soapy_Text\<close> (numbers as text), \<open>Soapy_Device\<close>, \<open>Soapy_Settings\<close>: \<open>XTRXDevice.cpp\<close>. A method
    acts on the object and its descriptor and returns, throws or ends the process; calls of the RF chip
    library, which is not in the repository, are values kept in order, answered by the function
    \<open>lms_do\<close>. \<open>Soapy_Control\<close>: total triples for methods, the register contents as the last write of
    the access history, the settings as a map. \<open>Soapy_Rates\<close>: sample rates. \<open>Soapy_Life\<close>: the SPI
    callback of \<open>litepcie_interface.h\<close>, the constructor, antennas and the search for boards.
  \<^item> \<open>Liteuart\<close>, \<open>Liteuart_Probe\<close>: \<open>liteuart.c\<close> and \<open>litex.h\<close>. A port is a record with a log of what
    the driver asks of the board and of the serial core; the id array, the live ports and the
    registered lines are the world of probe and removal.
  \<^item> \<open>Fw_I2c\<close>: \<open>i2c0.c\<close> and \<open>i2c1.c\<close> in a state monad over the history of register accesses.
    \<open>Fw_Wire\<close> decodes such a history by the I2C protocol; the locales \<open>i2c_master\<close> and
    \<open>i2c_client\<close> state how a driver is composed, prove the frame of every transaction once and are
    interpreted for both buses. \<open>Fw_Frames\<close>: independence of the buses, and reads from a bus that
    a slave drives.
  \<^item> \<open>Fw_Board\<close> (the board functions of the firmware's \<open>main.c\<close>), \<open>Fw_Steps\<close> and \<open>Fw_Init\<close> (their
    effects, invariant, termination), \<open>Fw_Console\<close> (line editor and tokenizer), \<open>Fw_Main\<close>
    (dispatcher, main loop, invariant).
  \<^item> \<open>Example_Device\<close>, \<open>Example_Chip\<close>, \<open>Example_Board\<close>, \<open>Example_Host\<close>: concrete devices for the
    witnesses.

  \<^bold>\<open>Loops.\<close> Counting loops are structural or have a measure. A loop that waits for hardware is a
  \<open>partial_function\<close> (\<open>None\<close>: it does not return); where the code promises an end, termination is a
  theorem under a named assumption on the hardware (\<open>timer_stops\<close>, a flash that leaves its busy
  state). The bounded polling of the driver's SPI access is a recursion over its own bound
  \<open>SPI_TIMEOUT\<close>. The loops of the utilities, which run until Control-C, recurse over the list of
  the rounds they meet: \<open>Running\<close> is the state after the last of them, so no fuel is added anywhere.

  \<^bold>\<open>Assumptions of single theorems\<close> are hypotheses in their statements: what the interrupt handler
  reads from the loop-status registers (\<open>fpga_shows\<close>), a flash chip that stores what it is sent
  (\<open>chip_memory\<close>), slaves that answer (\<open>driven\<close>, \<open>serves\<close>), storage registers that keep what is
  written (\<open>stored\<close>), an RF chip library that succeeds and reaches the board only through the SPI
  callback (\<open>lms_good\<close>), a UART that makes room again and one that is a FIFO (\<open>drains\<close>, \<open>rx_fifo\<close>), a
  kernel that hands out free ids and fresh memory (\<open>probe_env_ok\<close>), copies that succeed and
  interrupts only while a process polls (\<open>session_env\<close>), a channel that can be opened, mapped and
  locked (\<open>init_env\<close>), a board that loops the data of the test back (\<open>loops_back\<close>), rounds whose
  buffers are full (\<open>full_buffers\<close>).

  \<^bold>\<open>Not modelled.\<close> Text output (printed values are results or events); \<open>getopt\<close>, whose results are
  arguments; scheduling and memory ordering between the interrupt handler and the file operations
  (steps are atomic); \<open>help\<close>, \<open>prompt\<close>, \<open>isr.c\<close> and the LiteX runtime of the firmware; the accessor
  functions of the firmware's generated \<open>csr.h\<close>, which are not in the repository and are taken as
  plain accesses at the addresses of the driver's \<open>csr.h\<close>; rounding of \<open>double\<close>, the log and the
  mutex of the SoapySDR plugin, its registration and its bring-up program; the gateware generators.
\<close>

section \<open>Interrupts and streaming\<close>

text \<open>An FPGA that has moved 300 buffers to the board and 70000 to the host, for a witness.\<close>

definition fpga_env :: kenv where
  "fpga_env = env0\<lparr>dev_read := (\<lambda>h a.
     if a = bar_offset CSR_PCIE_MSI_VECTOR_ADDR \<or> a = bar_offset CSR_PCIE_MSI_ENABLE_ADDR then 3
     else if a = bar_offset (CSR_PCIE_DMA0_BASE + PCIE_DMA_READER_TABLE_LOOP_STATUS_OFFSET)
     then loop_status_of 300 else loop_status_of 70000)\<rparr>"

lemma fpga_env_shows: "fpga_shows fpga_env CSR_PCIE_DMA0_BASE 3 3 300 70000"
  by (simp add: fpga_shows_def fpga_env_def bar_offset_def csr_defs)

lemma device0_base: "base (dma_of 0 device0) = CSR_PCIE_DMA0_BASE"
  by (simp add: device0_chan)

text \<open>
  C1. Along any run of interrupts, whatever their pending vector and mask, the 64-bit counters of the
channel are exactly the number of buffers each engine had moved when its interrupt was last
served, although the registers only show 24 bits of it. The only assumption is that an engine
moves less than \<open>2 ^ 24\<close> buffers between two interrupts.
\<close>

lemma interrupts_track_engines:
  assumes "irq_lines s" and "base (dma_of 0 s) = b" and "counts_at pr pw (dma_of 0 s)"
    and "irq_run_ok b pr pw xs"
  shows "counts_at (fst (last_seen pr pw xs)) (snd (last_seen pr pw xs)) (dma_of 0 (irq_run xs s))"
  using assms by (rule irq_run_tracks)

lemma interrupts_track_engines_witness:
  "counts_at 300 70000 (dma_of 0 (irq_run [(fpga_env, 3, 3, 300, 70000)] device0))"
proof -
  have "irq_run_ok CSR_PCIE_DMA0_BASE 0 0 [(fpga_env, 3, 3, 300, 70000)]"
    using fpga_env_shows by (simp add: within_turn_def)
  from interrupts_track_engines [OF device0_facts(3) device0_base device0_facts(4) this]
  show ?thesis by simp
qed

text \<open>
  C2. A read on a ring with data consumes \<open>k\<close> blocks, as many as fit in the user's buffer and are
there. The first \<open>m\<close>, those more than half a ring behind the board, are skipped and counted but
not copied; block \<open>j\<close> of the others is ring buffer \<open>(sw + j) mod 256\<close>, copied to block \<open>j\<close> of
the user's memory. Nothing else changes than the software count.
\<close>

lemma read_delivers_ring:
  assumes "rx_ready e (priv_chan f) sw hw s" and "sw < hw"
    and "k = min (sz div DMA_BUFFER_SIZE) (hw - sw)" and "m = min k (hw - sw - 128)"
  shows "litepcie_read e nonblock data sz f s =
    Ret (int (k * DMA_BUFFER_SIZE))
        (upd_dma (priv_chan f) (set_writer_sw (sw + k))
           (s\<lparr>ucopies := ucopies s @
                map (\<lambda>j. (user_addr data (priv_chan f) j s, take DMA_BUFFER_SIZE
                   (dmem s (writer_addr (dma_of (priv_chan f) s) ! ((sw + j) mod 256))))) [m..<k]\<rparr>))"
  using read_result [OF assms] by (simp add: rx_copies_def)

lemma read_delivers_ring_witness:
  "\<exists>t. litepcie_read env0 False 0x1000 131072 file0 busy = Ret 131072 t
     \<and> length (ucopies t) = length (ucopies busy) + 2
     \<and> writer_sw_count (dma_of 0 t) = 2"
proof -
  have f: "priv_chan file0 = 0" by (simp add: file0_def)
  have fits: "(2::nat) = min (131072 div DMA_BUFFER_SIZE) (3 - 0)" "(0::nat) = min 2 (3 - 0 - 128)"
    by (simp_all add: csr_defs)
  show ?thesis
    using read_delivers_ring [where f = file0 and k = 2 and m = 0 and sz = 131072 and data = "0x1000"
        and nonblock = False, OF _ _ fits] busy_ready(3) f
    by (simp add: csr_defs set_writer_sw_def)
qed



section \<open>Reachable states of a probed device\<close>

text \<open>A device as the probe leaves it, with no open file.\<close>

definition fresh :: "kstate \<Rightarrow> driver" where
  "fresh s = \<lparr>kst = s, files = (\<lambda>fd. None)\<rparr>"

lemma probe_locks_ok:
  assumes "litepcie_pci_probe e pe w = (0, Some s, w')" "probe_good pe"
  shows "locks_ok (fresh s)" and "drv_inv (fresh s)"
proof -
  from probe_success [OF assms(2), of e w] assms(1)
  have "chan s = [(chan device0 ! 0)\<lparr>minor := minor_idx w\<rparr>]" by auto
  then have "rlock s c = 0" "wlock s c = 0" for c
    by (simp_all add: rlock_def wlock_def device0_chan zero_dma_def)
  then show "locks_ok (fresh s)" by (simp add: locks_ok_def excl_def holds_def fresh_def)
  show "drv_inv (fresh s)" using probe_establishes(1) [OF assms] by (simp add: drv_inv_def fresh_def)
qed

definition probed0 :: kstate where
  "probed0 = the (fst (snd (litepcie_pci_probe env0 probe0 world0)))"

lemma probed0:
  "litepcie_pci_probe env0 probe0 world0 = (0, Some probed0, probed probe0 world0)"
  "channels probed0 = 1" "length (chan probed0) = 1"
proof -
  from probe_success [OF probe0_good, of env0 world0]
  obtain s where s: "litepcie_pci_probe env0 probe0 world0 = (0, Some s, probed probe0 world0)"
    "chan s = [(chan device0 ! 0)\<lparr>minor := minor_idx world0\<rparr>]" "channels s = 1" by blast
  then have "probed0 = s" by (simp add: probed0_def)
  with s show "litepcie_pci_probe env0 probe0 world0 = (0, Some probed0, probed probe0 world0)"
    "channels probed0 = 1" "length (chan probed0) = 1" by simp_all
qed

text \<open>One file is opened.\<close>

definition opened0 :: driver where
  "opened0 = (fresh probed0)\<lparr>
     kst := snd (snd (litepcie_open True 0 probed0)), files := (\<lambda>fd. None)(0 := Some file0)\<rparr>"

lemma opened0_run: "drv_run b (fresh probed0) opened0"
proof -
  have "litepcie_open True 0 probed0 = (0, Some file0, snd (snd (litepcie_open True 0 probed0)))"
    by (simp add: litepcie_open_def file0_def Let_def)
  then have "drv_step b (fresh probed0) opened0"
    unfolding opened0_def
    using step_open [of "fresh probed0" 0 0 True 0 "Some file0" "kst opened0" b] probed0(2)
    by (simp add: fresh_def opened0_def)
  then show ?thesis by blast
qed

text \<open>
  C4. From a device that \<open>litepcie_pci_probe\<close> has set up, whatever processes open, close, read,
write and control it and whenever interrupts arrive, every channel keeps its back pointer and
its index, its four buffer tables keep 256 entries, the count the next interrupt compares with is
the current hardware count, and every open file refers to a channel of the device.
\<close>

lemma driver_invariant:
  assumes "litepcie_pci_probe e pe w = (0, Some s, w')" and "probe_good pe"
    and "drv_run strict (fresh s) D"
  shows "channels (kst D) = length (chan (kst D))
    \<and> (\<forall>i < length (chan (kst D)). litepcie_dev (chan (kst D) ! i) \<and> index (chan (kst D) ! i) = i
         \<and> length (reader_addr (dma_of i (kst D))) = DMA_BUFFER_COUNT
         \<and> length (writer_addr (dma_of i (kst D))) = DMA_BUFFER_COUNT
         \<and> length (reader_handle (dma_of i (kst D))) = DMA_BUFFER_COUNT
         \<and> length (writer_handle (dma_of i (kst D))) = DMA_BUFFER_COUNT
         \<and> reader_hw_count_last (dma_of i (kst D)) = reader_hw_count (dma_of i (kst D))
         \<and> writer_hw_count_last (dma_of i (kst D)) = writer_hw_count (dma_of i (kst D)))
    \<and> (\<forall>fd f. files D fd = Some f \<longrightarrow> priv_chan f < length (chan (kst D)))"
  using drv_run_inv [OF assms(3) probe_locks_ok(2) [OF assms(1,2)]]
  by (simp add: drv_inv_def kinv_def chan_inv_def arrays_ok_def)

lemma driver_invariant_witness:
  "litepcie_dev (chan (kst opened0) ! 0) \<and> length (writer_addr (dma_of 0 (kst opened0))) = DMA_BUFFER_COUNT"
proof -
  have "priv_chan file0 < length (chan (kst opened0))" "files opened0 0 = Some file0"
    using driver_invariant [OF probed0(1) probe0_good opened0_run [of True]]
    by (auto simp: opened0_def)
  then show ?thesis
    using driver_invariant [OF probed0(1) probe0_good opened0_run [of True]]
    by (simp add: file0_def)
qed

text \<open>
  C5. As long as a file only releases a lock it was granted, in every state reachable from the probe at
most one open file of a channel owns the DMA reader and at most one owns the DMA writer, through
any interleaving of opens, closes, lock requests, transfers and interrupts.
\<close>

lemma locks_are_exclusive:
  assumes "litepcie_pci_probe e pe w = (0, Some s, w')" and "probe_good pe"
    and "drv_run True (fresh s) D"
    and "files D a = Some f" and "files D b = Some g" and "priv_chan f = priv_chan g"
    and "reader f \<and> reader g \<or> writer f \<and> writer g"
  shows "a = b"
  using strict_run_locks [OF assms(3) probe_locks_ok(2,1) [OF assms(1,2)]]
    locks_exclusive [OF _ assms(4-6)] assms(7) by blast

lemma locks_are_exclusive_witness:
  "\<exists>D f. drv_run True (fresh probed0) D \<and> files D 0 = Some f \<and> reader f
     \<and> (\<forall>b g. files D b = Some g \<and> priv_chan g = 0 \<and> reader g \<longrightarrow> 0 = b)"
proof -
  define m where "m = \<lparr>dma_reader_request = 1, dma_writer_request = 0, dma_reader_release = 0,
     dma_writer_release = 0, dma_reader_status = 0, dma_writer_status = (0 :: u8)\<rparr>"
  obtain s f where l: "lock_reader m file0 (kst opened0) = (m\<lparr>dma_reader_status := 1\<rparr>, f, s)"
      "reader f" "priv_chan f = 0"
  proof -
    from probe_success [OF probe0_good, of env0 world0] probed0
    have "reader_lock (dma_of 0 (kst opened0)) = 0" "0 < length (chan (kst opened0))"
      by (auto simp: opened0_def litepcie_open_def Let_def device0_chan zero_dma_def
          clear_reader_counts_def clear_writer_counts_def)
    then show thesis
      using lock_reader_cases(1) [of file0 "kst opened0" m]
      by (intro that [where f = "file0\<lparr>reader := True\<rparr>"]) (simp_all add: m_def file0_def)
  qed
  obtain m' f' s' where w: "lock_writer (m\<lparr>dma_reader_status := 1\<rparr>) f s = (m', f', s')"
    by (metis prod_cases3)
  have f': "reader f'" "priv_chan f' = 0"
    using w l by (auto simp: lock_writer_def Let_def m_def split: if_splits)
  let ?u = "\<lparr>from_ok = True, to_ok = True\<rparr>"
  have "litepcie_ioctl env0 ?u (IOCTL_LOCK m) file0 (kst opened0) = Ret (0, LockReply m', f') s'"
    by (simp add: litepcie_ioctl_def ioctl_lock_def l w reply_def Let_def)
  then have step: "drv_step True opened0 (opened0\<lparr>kst := s', files := (files opened0)(0 := Some f')\<rparr>)"
    by (intro step_ioctl) (simp_all add: opened0_def disciplined_def m_def)
  define D where "D = opened0\<lparr>kst := s', files := (files opened0)(0 := Some f')\<rparr>"
  have run: "drv_run True (fresh probed0) D"
    using opened0_run step unfolding D_def by (rule rtranclp.rtrancl_into_rtrancl)
  have own: "files D 0 = Some f'" by (simp add: D_def)
  have "0 = b" if "files D b = Some g \<and> priv_chan g = 0 \<and> reader g" for b g
    using locks_are_exclusive [OF probed0(1) probe0_good run own, of b g] that f' by simp
  then show ?thesis using run own f'(1) by blast
qed

section \<open>Control of the engines\<close>

definition both_ok :: uarg where
  "both_ok = \<lparr>from_ok = True, to_ok = True\<rparr>"

lemma ioctl_returns:
  "\<exists>ret rep f' s'. litepcie_ioctl e both_ok (IOCTL_DMA_WRITER m) f s = Ret (ret, rep, f') s'"
  "\<exists>ret rep f' s'. litepcie_ioctl e both_ok (IOCTL_DMA_READER m) f s = Ret (ret, rep, f') s'"
  if "litepcie_dev (chan s ! priv_chan f)"
  using that
  by (auto simp: litepcie_ioctl_def both_ok_def ioctl_dma_writer_def ioctl_dma_reader_def reply_def
      Let_def litepcie_dma_reader_start_def split: prod.splits)

definition engine_off :: engine where
  "engine_off = \<lparr>eng_enable = False, eng_loop = False, eng_table = [], eng_hi = 0, eng_lo = 0,
     eng_hot = False\<rparr>"

definition ask :: "u8 \<Rightarrow> litepcie_ioctl_dma_dir" where
  "ask v = \<lparr>enable = v, hw_count = 0, sw_count = 0\<rparr>"

text \<open>
  C6. The writer start ioctl, replayed on the engine from its register writes alone: the engine ends up
enabled and looping over exactly the driver's 256 buffers in ring order, no descriptor was written
while it ran, descriptors are 64 kB with an interrupt every 32nd; the counters restart from zero
in the reply and the driver, and the last access unmasks the channel's interrupt.
\<close>

lemma writer_start_runs_ring:
  assumes "chan_ready ci s" and "enable m \<noteq> 0" and "writer_enable (dma_of ci s) \<noteq> enable m"
    and "from_ok u" and "to_ok u" and "priv_chan f = ci"
    and "litepcie_ioctl e u (IOCTL_DMA_WRITER m) f s = Ret (ret, rep, f') s'"
    and "g' = engine_after (writer_regs CSR_PCIE_DMA0_BASE) s s' g"
  shows "ret = 0 \<and> rep = DmaReply (m\<lparr>hw_count := 0, sw_count := 0\<rparr>) \<and> f' = f
    \<and> dma_of ci s' = clear_writer_counts (dma_of ci s)\<lparr>writer_enable := enable m\<rparr>
    \<and> eng_enable g' \<and> eng_loop g' \<and> eng_hot g' = eng_hot g
    \<and> map desc_addr (eng_table g') = map ((!) (writer_handle (dma_of ci s))) [0..<DMA_BUFFER_COUNT]
    \<and> (\<forall>k < DMA_BUFFER_COUNT. desc_length (eng_table g' ! k) = of_nat DMA_BUFFER_SIZE
         \<and> (desc_irq (eng_table g' ! k) \<longleftrightarrow> k mod DMA_BUFFER_PER_IRQ = 0))
    \<and> (\<exists>v. last (mmio s') = MWrite msi_enable (v OR irq_bit (writer_interrupt (dma_of ci s))))"
  using ioctl_writer_start [OF assms(1-7)] desc_fields assms(8)
  by (auto simp: runs_ring_def desc_addr_desc_of csr_defs)

lemma writer_start_runs_ring_witness:
  "\<exists>ret rep f' s'. litepcie_ioctl env0 both_ok (IOCTL_DMA_WRITER (ask 1)) file0 busy = Ret (ret, rep, f') s'
     \<and> ret = 0 \<and> eng_enable (engine_after (writer_regs CSR_PCIE_DMA0_BASE) busy s' engine_off)
     \<and> \<not> eng_hot (engine_after (writer_regs CSR_PCIE_DMA0_BASE) busy s' engine_off)"
proof -
  obtain ret rep f' s' where r:
    "litepcie_ioctl env0 both_ok (IOCTL_DMA_WRITER (ask 1)) file0 busy = Ret (ret, rep, f') s'"
    using ioctl_returns(1) [of busy file0] by (fastforce simp: file0_def)
  moreover have "writer_enable (dma_of 0 busy) \<noteq> enable (ask 1)"
    by (simp add: ask_def busy_dma_of) (simp add: busy_dma_def device0_chan zero_dma_def)
  ultimately show ?thesis
    using writer_start_runs_ring [OF busy_ready(5) _ _ _ _ _ r refl, of engine_off]
    by (simp add: ask_def both_ok_def file0_def engine_off_def)
qed

text \<open>
The same for the reader start ioctl and the transmit ring.
\<close>

lemma reader_start_runs_ring:
  assumes "chan_ready ci s" and "enable m \<noteq> 0" and "reader_enable (dma_of ci s) \<noteq> enable m"
    and "from_ok u" and "to_ok u" and "priv_chan f = ci"
    and "litepcie_ioctl e u (IOCTL_DMA_READER m) f s = Ret (ret, rep, f') s'"
    and "g' = engine_after (reader_regs CSR_PCIE_DMA0_BASE) s s' g"
  shows "ret = 0 \<and> rep = DmaReply (m\<lparr>hw_count := 0, sw_count := 0\<rparr>) \<and> f' = f
    \<and> dma_of ci s' = clear_reader_counts (dma_of ci s)\<lparr>reader_enable := enable m\<rparr>
    \<and> eng_enable g' \<and> eng_loop g' \<and> eng_hot g' = eng_hot g
    \<and> map desc_addr (eng_table g') = map ((!) (reader_handle (dma_of ci s))) [0..<DMA_BUFFER_COUNT]
    \<and> (\<forall>k < DMA_BUFFER_COUNT. desc_length (eng_table g' ! k) = of_nat DMA_BUFFER_SIZE
         \<and> (desc_irq (eng_table g' ! k) \<longleftrightarrow> k mod DMA_BUFFER_PER_IRQ = 0))
    \<and> (\<exists>v. last (mmio s') = MWrite msi_enable (v OR irq_bit (reader_interrupt (dma_of ci s))))"
  using ioctl_reader_start [OF assms(1-7)] desc_fields assms(8)
  by (auto simp: runs_ring_def desc_addr_desc_of csr_defs)

lemma reader_start_runs_ring_witness:
  "\<exists>ret rep f' s'. litepcie_ioctl env0 both_ok (IOCTL_DMA_READER (ask 1)) file0 busy = Ret (ret, rep, f') s'
     \<and> ret = 0 \<and> eng_enable (engine_after (reader_regs CSR_PCIE_DMA0_BASE) busy s' engine_off)
     \<and> \<not> eng_hot (engine_after (reader_regs CSR_PCIE_DMA0_BASE) busy s' engine_off)"
proof -
  obtain ret rep f' s' where r:
    "litepcie_ioctl env0 both_ok (IOCTL_DMA_READER (ask 1)) file0 busy = Ret (ret, rep, f') s'"
    using ioctl_returns(2) [of busy file0] by (fastforce simp: file0_def)
  moreover have "reader_enable (dma_of 0 busy) \<noteq> enable (ask 1)"
    by (simp add: ask_def busy_dma_of) (simp add: busy_dma_def device0_chan zero_dma_def)
  ultimately show ?thesis
    using reader_start_runs_ring [OF busy_ready(5) _ _ _ _ _ r refl, of engine_off]
    by (simp add: ask_def both_ok_def file0_def engine_off_def)
qed

text \<open>The same device with both directions on.\<close>

definition running :: kstate where
  "running = upd_dma 0 (\<lambda>d. d\<lparr>writer_enable := 1, reader_enable := 1\<rparr>) busy"

lemma running_facts:
  "chan_ready 0 running" "litepcie_dev (chan running ! 0)"
  "writer_enable (dma_of 0 running) = 1" "reader_enable (dma_of 0 running) = 1"
  using busy_ready(5) by (simp_all add: running_def chan_ready_def)



section \<open>Memory of the rings\<close>

text \<open>
  C8. Initialisation followed by release returns the allocator to the same multiset of live buffers and
succeeds; in between every ring slot of every channel has an allocated, non-null buffer. The tables
are not cleared by the release, so releasing a second time faults on memory already given back,
which is what two closes of the same device do.
\<close>

lemma buffers_roundtrip:
  assumes "device_ok s" and "\<forall>n. fst (dma_alloc e n) \<noteq> 0" and "0 < channels s"
    and "\<forall>n. fst (dma_alloc e n) \<notin> set (live s)"
    and "litepcie_dma_init_cpu e True s = (r, t)"
  shows "r = 0
    \<and> (\<forall>i < channels s. ring_ready (reader_addr (dma_of i t)) t \<and> ring_ready (writer_addr (dma_of i t)) t)
    \<and> (\<exists>u. litepcie_dma_deinit_cpu t = Ret 0 (t\<lparr>live := u\<rparr>) \<and> mset u = mset (live s)
         \<and> (\<exists>x. litepcie_dma_deinit_cpu (t\<lparr>live := u\<rparr>) = Oops x))"
  using init_cpu_all_buffers(1) [OF assms(1,2,5)] init_rings_ready [OF assms(1,2,5)]
    init_deinit [OF assms(1,2,5)] deinit_twice_faults [OF assms(1,2,3,4,5)] by blast

lemma buffers_roundtrip_witness:
  "\<exists>u. litepcie_dma_deinit_cpu (snd (litepcie_dma_init_cpu env0 True device0))
     = Ret 0 ((snd (litepcie_dma_init_cpu env0 True device0))\<lparr>live := u\<rparr>) \<and> mset u = {#}"
proof -
  obtain r t where rt: "litepcie_dma_init_cpu env0 True device0 = (r, t)" by fastforce
  from buffers_roundtrip [OF device0_facts(2) _ _ _ rt] env0_alloc device0_facts
  show ?thesis by (auto simp: rt)
qed

section \<open>Probe and removal\<close>

text \<open>
  C9. A successful probe leaves a device that satisfies the driver's invariant, with counters that agree
with idle engines; removing it later, whatever the transfers in between did to its channel, first
disables both engines, then all interrupts, and leaves the kernel's tables as they were before the
probe (the running minor number excepted, which is never given back).
\<close>

lemma remove_undoes_probe_of_device:
  assumes "litepcie_pci_probe e pe w = (0, Some s, w')" and "probe_good pe"
    and "channels t = channels s" and "minor_base t = minor_base s" and "irqs t = irqs s"
  shows "kinv s \<and> chan_ready 0 s \<and> counts_at 0 0 (dma_of 0 s)
    \<and> mmio (fst (litepcie_pci_remove t w')) = mmio t @
        [MWrite (bar_offset (base (dma_of 0 t) + PCIE_DMA_WRITER_ENABLE_OFFSET)) 0,
         MWrite (bar_offset (base (dma_of 0 t) + PCIE_DMA_READER_ENABLE_OFFSET)) 0,
         MWrite msi_enable 0]
    \<and> snd (litepcie_pci_remove t w') = w\<lparr>minor_idx := minor_idx w + 1, vectors := False, uart := False\<rparr>"
proof -
  have "channels t = 1" using probe_success [OF assms(2), of e w] assms(1,3) by auto
  then have "mmio (fst (litepcie_pci_remove t w')) = mmio t @
        [MWrite (bar_offset (base (dma_of 0 t) + PCIE_DMA_WRITER_ENABLE_OFFSET)) 0,
         MWrite (bar_offset (base (dma_of 0 t) + PCIE_DMA_READER_ENABLE_OFFSET)) 0,
         MWrite msi_enable 0]"
    by (simp add: litepcie_pci_remove_def litepcie_stop_dma_def stop_dma_chan_def Let_def)
  then show ?thesis using probe_establishes [OF assms(1,2)] remove_undoes_probe [OF assms] by simp
qed

lemma remove_undoes_probe_of_device_witness:
  "snd (litepcie_pci_remove probed0 (probed probe0 world0)) = world0\<lparr>minor_idx := 1\<rparr>"
  using remove_undoes_probe_of_device [OF probed0(1) probe0_good refl refl refl]
  by (simp add: world0_def)

text \<open>
  C10. The probe's error path for a failing \<open>request_irq\<close> undoes less than it means to: the lines it
already got were requested with the cookie \<open>litepcie_dev\<close> and are freed with the cookie
\<open>dev\<close>, so after the failed probe their handlers are all still registered while the vectors are gone.
\<close>

lemma failed_irq_request_leaks:
  assumes "kzalloc_ok pe" "enable_ret pe = 0" "revision_id pe = 0" "bar0_is_mem pe"
    and "0 \<le> iomap_ret pe" "bar0_mapped pe" "dma_mask_ret pe = 0"
    and "irq_vectors pe = int n" "\<forall>i < k. 0 \<le> request_irq pe i" "request_irq pe k < 0" "k < n"
    and "\<forall>i. (i, PciDev) \<notin> set (handlers w)"
  shows "litepcie_pci_probe e pe w = (request_irq pe k, None,
    w\<lparr>vectors := False, handlers := rev (map (\<lambda>i. (i, LitepcieDev)) [0..<k]) @ handlers w\<rparr>)"
  using assms request_irqs_fail [OF assms(9-11), of "w\<lparr>vectors := True\<rparr>"]
  by (simp add: litepcie_pci_probe_def pci_free_irq_vectors_def Let_def)

lemma failed_irq_request_leaks_witness:
  "litepcie_pci_probe env0 (probe0\<lparr>irq_vectors := 2, request_irq := (\<lambda>i. if i = 1 then - 16 else 0)\<rparr>) world0
   = (- 16, None, world0\<lparr>handlers := [(0, LitepcieDev)]\<rparr>)"
  using failed_irq_request_leaks [of "probe0\<lparr>irq_vectors := 2, request_irq := (\<lambda>i. if i = 1 then - 16 else 0)\<rparr>"
      2 1 world0 env0]
  by (simp add: probe0_def world0_def)

section \<open>Errors and hostile arguments\<close>

text \<open>
The non-blocking paths test that hardware and software counts are equal. For a read that means
"no data". For a write it means "nothing queued": half a ring is free, poll reports the file
writable and a blocking write takes the data, yet the non-blocking write fails with
\<open>-EAGAIN\<close>, for ever if the program only writes when it can do so without waiting.
\<close>

lemma nonblocking_on_empty_ring:
  assumes "rx_ready e (priv_chan f) n n s" and "tx_ready e (priv_chan f) k k s"
    and "DMA_BUFFER_SIZE \<le> sz" and "sz < 2 ^ 61"
  shows "litepcie_read e True data sz f s = Ret (- EAGAIN) s
    \<and> litepcie_write e True data sz f s = Ret (- EAGAIN) s
    \<and> litepcie_poll f s AND POLLOUT = POLLOUT
    \<and> (\<exists>r t. litepcie_write e False data sz f s = Ret r t \<and> int DMA_BUFFER_SIZE \<le> r)"
proof -
  let ?d = "dma_of (priv_chan f) s"
  have d: "reader_sw_count ?d = of_nat k" "reader_hw_count ?d = of_nat k"
    "writer_sw_count ?d = of_nat n" "writer_hw_count ?d = of_nat n"
    "litepcie_dev (chan s ! priv_chan f)"
    using assms by (simp_all add: rx_ready_def tx_ready_def)
  then have e: "litepcie_read e True data sz f s = Ret (- EAGAIN) s"
    "litepcie_write e True data sz f s = Ret (- EAGAIN) s"
    by (simp_all add: litepcie_read_def litepcie_write_def)
  have "litepcie_poll f s = POLLOUT OR POLLWRNORM"
    using d by (simp add: litepcie_poll_def reader_pending_def writer_pending_def sgt_def slt_def csr_defs)
  then have p: "litepcie_poll f s AND POLLOUT = POLLOUT" by (simp add: csr_defs)
  let ?k = "min (sz div DMA_BUFFER_SIZE) (k + 128 - k)"
  have "1 \<le> sz div DMA_BUFFER_SIZE"
    using assms(3) by (simp add: csr_defs Suc_le_eq div_greater_zero_iff)
  then have "1 \<le> ?k" by simp
  from mult_le_mono1 [OF this, of DMA_BUFFER_SIZE]
  have "int DMA_BUFFER_SIZE \<le> int (?k * DMA_BUFFER_SIZE)" by (simp only: of_nat_le_iff mult_1)
  with write_result [OF assms(2), of False sz ?k 0 data] assms(4)
  have "\<exists>r t. litepcie_write e False data sz f s = Ret r t \<and> int DMA_BUFFER_SIZE \<le> r" by simp
  with e p show ?thesis by blast
qed

lemma nonblocking_on_empty_ring_witness:
  "\<exists>s. litepcie_write env0 True 0x1000 65536 file0 s = Ret (- EAGAIN) s
     \<and> litepcie_poll file0 s AND POLLOUT = POLLOUT"
proof -
  define s where "s = upd_dma 0 (\<lambda>d. d\<lparr>writer_hw_count := 0, reader_sw_count := 5\<rparr>) busy"
  have f: "priv_chan file0 = 0" by (simp add: file0_def)
  have "rx_ready env0 0 0 0 s" "tx_ready env0 0 5 5 s"
    using busy_ready by (simp_all add: s_def rx_ready_def tx_ready_def)
  then show ?thesis
    using nonblocking_on_empty_ring [of env0 file0 0 s 5 65536 "0x1000"]
    by (auto simp: f csr_defs)
qed

text \<open>
\<open>LITEPCIE_IOCTL_MMAP_DMA_WRITER_UPDATE\<close> accepts any 64-bit count. The C remainder keeps the
sign of a negative one, so after an update with \<open>-1\<close> the next read on the channel uses entry
\<open>-1\<close> of the buffer table.
\<close>

lemma negative_count_out_of_bounds:
  assumes "chan_ready (priv_chan f) s" and "writer_hw_count (dma_of (priv_chan f) s) = of_nat hw"
    and "hw < 128" and "DMA_BUFFER_SIZE \<le> sz" and "from_ok u"
  shows "\<exists>t. litepcie_ioctl e u (IOCTL_MMAP_DMA_WRITER_UPDATE (- 1)) f s = Ret (0, NoReply, f) t
    \<and> litepcie_read e nonblock data sz f t = Oops OutOfBounds"
proof -
  let ?c = "priv_chan f"
  let ?t = "upd_dma ?c (\<lambda>d. d\<lparr>writer_sw_count := - 1\<rparr>) s"
  have t: "?c < length (chan s)" "litepcie_dev (chan s ! ?c)" using assms by (simp_all add: chan_ready_def)
  have p: "writer_pending (dma_of ?c ?t) = of_nat (hw + 1)"
    using assms(2) t by (simp add: writer_pending_def)
  have "sgt (writer_pending (dma_of ?c ?t)) 0"
    using sgt_of_nat [of "hw + 1" 0] assms(3) unfolding p by simp
  moreover have "\<not> sgt (writer_pending (dma_of ?c ?t)) (of_nat (DMA_BUFFER_COUNT div 2))"
    using sgt_of_nat [of "hw + 1" 128] assms(3) unfolding p by (simp add: csr_defs)
  moreover have "slot as (- 1) = None" for as
    by (simp add: slot_def slot_index_def csr_defs signed_modulo_int_def Let_def)
  moreover have "writer_hw_count (dma_of ?c ?t) \<noteq> writer_sw_count (dma_of ?c ?t)"
    using calculation(1) by (auto simp: writer_pending_def sgt_def)
  ultimately have "litepcie_read e nonblock data sz f ?t = Oops OutOfBounds"
    using t assms(4) by (simp add: litepcie_read_def Let_def) (subst read_loop.simps, simp)
  then show ?thesis using assms(5) by (intro exI [of _ ?t]) (simp add: litepcie_ioctl_def Let_def)
qed

lemma negative_count_out_of_bounds_witness:
  "\<exists>t. litepcie_ioctl env0 both_ok (IOCTL_MMAP_DMA_WRITER_UPDATE (- 1)) file0 busy = Ret (0, NoReply, file0) t
    \<and> litepcie_read env0 False 0x1000 65536 file0 t = Oops OutOfBounds"
proof -
  have "writer_hw_count (dma_of 0 busy) = of_nat 3" by (simp add: busy_dma_of busy_dma_def)
  then show ?thesis
    using negative_count_out_of_bounds [of file0 busy 3 65536 both_ok env0 False "0x1000"] busy_ready(5)
    by (simp add: file0_def both_ok_def csr_defs)
qed

text \<open>A lock request of the reader side alone, as one step of the driver.\<close>

definition lock_msg :: "u8 \<Rightarrow> u8 \<Rightarrow> litepcie_ioctl_lock" where
  "lock_msg req rel = \<lparr>dma_reader_request = req, dma_writer_request = 0, dma_reader_release = rel,
     dma_writer_release = 0, dma_reader_status = 0, dma_writer_status = 0\<rparr>"

lemma lock_msg_step:
  assumes "files D fd = Some f" and "lock_reader (lock_msg req rel) f (kst D) = (m, f', s')"
    and "dma_writer_request m = 0" "dma_writer_release m = 0"
  shows "drv_step False D (D\<lparr>kst := s', files := (files D)(fd := Some f')\<rparr>)"
proof -
  have "litepcie_ioctl env0 both_ok (IOCTL_LOCK (lock_msg req rel)) f (kst D)
      = Ret (0, LockReply (m\<lparr>dma_writer_status := 1\<rparr>), f') s'"
    using assms by (simp add: litepcie_ioctl_def ioctl_lock_def lock_writer_def both_ok_def
        reply_def Let_def)
  then show ?thesis by (intro step_ioctl [OF assms(1)]) simp_all
qed

text \<open>
The condition of the previous result on releases is needed: the driver itself does not check that
the file that releases a lock holds it. Whenever two files are open on the same channel and its
reader lock is free, "A requests, B releases, B requests" leaves both files owning the DMA reader.
\<close>

lemma foreign_release_breaks_exclusion:
  assumes "files D a = Some f" and "files D b = Some g" and "a \<noteq> b"
    and "priv_chan f = c" and "priv_chan g = c" and "c < length (chan (kst D))"
    and "reader_lock (dma_of c (kst D)) = 0"
  shows "\<exists>D' f' g'. drv_run False D D' \<and> files D' a = Some f' \<and> files D' b = Some g'
     \<and> priv_chan f' = priv_chan g' \<and> reader f' \<and> reader g'"
proof -
  define s1 where "s1 = upd_dma c (\<lambda>d. d\<lparr>reader_lock := 1\<rparr>) (kst D)"
  define s2 where "s2 = upd_dma c (\<lambda>d. d\<lparr>reader_lock := 0\<rparr>) s1"
  define s3 where "s3 = upd_dma c (\<lambda>d. d\<lparr>reader_lock := 1\<rparr>) s2"
  define D1 where "D1 = D\<lparr>kst := s1, files := (files D)(a := Some (f\<lparr>reader := True\<rparr>))\<rparr>"
  define D2 where "D2 = D1\<lparr>kst := s2, files := (files D1)(b := Some (g\<lparr>reader := False\<rparr>))\<rparr>"
  define D3 where "D3 = D2\<lparr>kst := s3, files := (files D2)(b := Some (g\<lparr>reader := True\<rparr>))\<rparr>"
  have len: "c < length (chan s1)" "c < length (chan s2)"
    using assms(6) by (simp_all add: s1_def s2_def)
  have free: "reader_lock (dma_of c s2) = 0" using len by (simp add: s2_def)
  have "drv_step False D D1"
    unfolding D1_def s1_def using assms
    by (intro lock_msg_step [of D a f 1 0 "(lock_msg 1 0)\<lparr>dma_reader_status := 1\<rparr>"])
      (simp_all add: lock_reader_cases lock_msg_def)
  moreover have "drv_step False D1 D2"
    unfolding D2_def s2_def using assms len
    by (intro lock_msg_step [of D1 b g 0 1 "(lock_msg 0 1)\<lparr>dma_reader_status := 1\<rparr>"])
      (simp_all add: D1_def lock_reader_cases lock_msg_def)
  moreover have "drv_step False D2 D3"
    unfolding D3_def s3_def using assms len free
    by (intro lock_msg_step [of D2 b "g\<lparr>reader := False\<rparr>" 1 0 "(lock_msg 1 0)\<lparr>dma_reader_status := 1\<rparr>"])
      (simp_all add: D2_def lock_reader_cases lock_msg_def)
  ultimately have "drv_run False D D3" by (blast intro: rtranclp.intros)
  moreover have "files D3 a = Some (f\<lparr>reader := True\<rparr>)" "files D3 b = Some (g\<lparr>reader := True\<rparr>)"
    using assms(3) by (simp_all add: D3_def D2_def D1_def)
  ultimately show ?thesis using assms(4,5)
    by (intro exI [of _ D3] exI [of _ "f\<lparr>reader := True\<rparr>"] exI [of _ "g\<lparr>reader := True\<rparr>"]) simp
qed

lemma foreign_release_breaks_exclusion_witness:
  "\<exists>D' f' g'. drv_run False \<lparr>kst = busy, files = (\<lambda>fd. Some file0)\<rparr> D' \<and> files D' 3 = Some f'
     \<and> files D' 4 = Some g' \<and> reader f' \<and> reader g'"
proof -
  have "reader_lock (dma_of 0 busy) = 0"
    by (simp add: busy_dma_of) (simp add: busy_dma_def device0_chan zero_dma_def)
  then show ?thesis
    using foreign_release_breaks_exclusion [of "\<lparr>kst = busy, files = (\<lambda>fd. Some file0)\<rparr>"
        3 file0 4 file0 0] by (auto simp: file0_def)
qed

text \<open>
  C11. \<open>litepcie_mmap\<close> accepts an area of exactly the size of one ring at one of two offsets; it then
maps the pages of buffer \<open>i\<close> of the transmit ring (offset 0) or of the receive ring at \<open>i\<close>
times the buffer size, for all 256 buffers. Every other request is refused without mapping.
\<close>

lemma mmap_maps_ring:
  assumes "litepcie_dev (chan s ! priv_chan f)" and "\<forall>i. remap_ok e i"
  shows "litepcie_mmap e v f s =
    (let ring = (\<lambda>as. map (\<lambda>i. (vm_start v + of_nat (i * DMA_BUFFER_SIZE),
                   drop_bit (page_shift e) (phys_addr e (as ! i)))) [0..<DMA_BUFFER_COUNT])
     in if vm_end v - vm_start v = of_nat DMA_BUFFER_TOTAL_SIZE \<and> vm_pgoff v = 0
        then (0, ring (reader_addr (dma_of (priv_chan f) s)))
        else if vm_end v - vm_start v = of_nat DMA_BUFFER_TOTAL_SIZE
          \<and> vm_pgoff v = drop_bit (page_shift e) (of_nat DMA_BUFFER_TOTAL_SIZE)
        then (0, ring (writer_addr (dma_of (priv_chan f) s)))
        else (- EINVAL, []))"
proof -
  have "mmap_loop e as start is maps = (0, maps @ map (\<lambda>i. (start + of_nat (i * DMA_BUFFER_SIZE),
      drop_bit (page_shift e) (phys_addr e (as ! i)))) is)" for as start "is" maps
    using assms(2) by (induction "is" arbitrary: maps) (simp_all add: Let_def)
  then show ?thesis using assms(1) by (simp add: litepcie_mmap_def Let_def)
qed

lemma mmap_maps_ring_witness:
  "fst (litepcie_mmap env0 \<lparr>vm_start = 0x10000000, vm_end = 0x11000000, vm_pgoff = 0\<rparr> file0 busy) = 0"
  using mmap_maps_ring [of busy file0 env0 "\<lparr>vm_start = 0x10000000, vm_end = 0x11000000, vm_pgoff = 0\<rparr>"]
  by (simp add: file0_def Let_def csr_defs)



section \<open>The user library\<close>

definition lib0 :: lib_env where
  "lib0 = \<lparr>le_k = env0, le_arg = both_ok, open_ret = 3, mmap_ret = (\<lambda>o1. Some 0x40000000),
     calloc_ret = (\<lambda>n. 0x50000000), poll_wait = (\<lambda>s. s), poll_fails = False\<rparr>"

definition ctrl0 :: "u8 \<Rightarrow> u8 \<Rightarrow> u32 \<Rightarrow> litepcie_dma_ctrl" where
  "ctrl0 rdr wtr ev = \<lparr>use_reader = rdr, use_writer = wtr, loopback = 0, zero_copy = 1, fds_fd = 3,
     fds_events = ev, fds_revents = 0, buf_rd = 0x40000000, buf_wr = 0x60000000,
     c_reader_hw_count = 0, c_reader_sw_count = 0, c_writer_hw_count = 0, c_writer_sw_count = 0,
     buffers_available_read = 0, buffers_available_write = 0, usr_read_buf_offset = 0,
     usr_write_buf_offset = 0, mmap_info = mmap_dma_info\<rparr>"

text \<open>
  C13. A zero-copy receive round across library and driver: after \<open>litepcie_dma_process\<close>, calling
\<open>litepcie_dma_next_read_buffer\<close> until it returns NULL yields exactly the \<open>H - S\<close> buffers the
board has filled, as addresses in the mapped ring starting at slot \<open>S mod 256\<close> and wrapping
around, and the driver's software count equals the hardware count.
\<close>

lemma zero_copy_receive_round:
  assumes "from_ok (le_arg le)" "to_ok (le_arg le)" "\<not> poll_fails le"
    and "use_writer d \<noteq> 0" "use_reader d = 0" "zero_copy d \<noteq> 0"
    and "writer_enable (dma_of (priv_chan f) s) = 1"
    and "writer_hw_count (dma_of (priv_chan f) s) = of_nat H"
    and "writer_sw_count (dma_of (priv_chan f) s) = of_nat S"
    and "S \<le> H" "H < 2 ^ 63" "H - S < 2 ^ 32"
    and "polled le d (f, s) AND POLLIN \<noteq> 0" "polled le d (f, s) AND POLLOUT = 0"
  shows "\<exists>d'. litepcie_dma_process le d (f, s) =
      Done (d', (f, upd_dma (priv_chan f) (set_writer_sw H) (poll_wait le s)))
    \<and> fst (drain litepcie_dma_next_read_buffer (H - S) d')
        = map (\<lambda>k. buf_rd d + of_nat ((S + k) mod 256 * 65536)) [0..<H - S]
    \<and> fst (litepcie_dma_next_read_buffer (snd (drain litepcie_dma_next_read_buffer (H - S) d'))) = None
    \<and> fst (litepcie_dma_next_write_buffer d') = None"
proof -
  from process_zero_copy_read [OF assms]
  obtain d' where p: "litepcie_dma_process le d (f, s) =
      Done (d', (f, upd_dma (priv_chan f) (set_writer_sw H) (poll_wait le s)))"
    "buffers_available_read d' = of_nat (H - S)" "usr_read_buf_offset d' = of_nat (S mod 256)"
    "buf_rd d' = buf_rd d" "buffers_available_write d' = 0" by blast
  have o1: "unat (usr_read_buf_offset d') = S mod 256"
    unfolding p(3) by (rule unat_of_nat_small) simp
  have "H - S = unat (buffers_available_read d')"
    unfolding p(2) using assms(12) by (subst unat_of_nat_small) simp_all
  from next_read.drain_all [OF _ this] o1
  have "fst (drain litepcie_dma_next_read_buffer (H - S) d')
      = map (ring_addr (buf_rd d) (usr_read_buf_offset d')) [0..<H - S]"
    "buffers_available_read (snd (drain litepcie_dma_next_read_buffer (H - S) d')) = 0"
    by (simp_all add: p(4))
  then show ?thesis using p(1,5) next_read.empty next_write.empty
    by (intro exI [of _ d']) (simp add: ring_addr_def o1 mod_add_left_eq)
qed

lemma zero_copy_receive_round_witness:
  "\<exists>d'. litepcie_dma_process lib0 (ctrl0 0 1 POLLIN) (file0, running)
     = Done (d', (file0, upd_dma 0 (set_writer_sw 3) running))
   \<and> fst (drain litepcie_dma_next_read_buffer 3 d') = [0x40000000, 0x40010000, 0x40020000]"
proof -
  have f: "priv_chan file0 = 0" by (simp add: file0_def)
  have w: "writer_hw_count (dma_of 0 running) = of_nat 3" "writer_sw_count (dma_of 0 running) = of_nat 0"
    "litepcie_dev (chan running ! 0)"
    by (simp_all add: running_def busy_dma_of) (simp_all add: busy_dma_def device0_chan zero_dma_def)
  have "litepcie_poll file0 running AND POLLIN = POLLIN"
    using w f by (simp add: litepcie_poll_def writer_pending_def sgt_def csr_defs)
  then have pl: "polled lib0 (ctrl0 0 1 POLLIN) (file0, running) = POLLIN"
    by (simp add: polled_def lib0_def ctrl0_def)
  have "\<exists>d'. litepcie_dma_process lib0 (ctrl0 0 1 POLLIN) (file0, running) =
      Done (d', (file0, upd_dma (priv_chan file0) (set_writer_sw 3) (poll_wait lib0 running)))
    \<and> fst (drain litepcie_dma_next_read_buffer (3 - 0) d')
        = map (\<lambda>k. buf_rd (ctrl0 0 1 POLLIN) + of_nat ((0 + k) mod 256 * 65536)) [0..<3 - 0]
    \<and> fst (litepcie_dma_next_read_buffer (snd (drain litepcie_dma_next_read_buffer (3 - 0) d'))) = None
    \<and> fst (litepcie_dma_next_write_buffer d') = None"
    by (rule zero_copy_receive_round)
      (use f w running_facts pl in \<open>simp_all add: lib0_def both_ok_def ctrl0_def csr_defs\<close>)
  moreover have "poll_wait lib0 s = s" "buf_rd (ctrl0 0 1 POLLIN) = 0x40000000" for s
    by (simp_all add: lib0_def ctrl0_def)
  ultimately show ?thesis by (auto simp: f upt_rec numeral_3_eq_3)
qed

text \<open>
  C14. The transmit round: the application gets the \<open>H + 128 - S\<close> buffers that keep it at most half a
ring ahead of the board, as addresses in the mapped ring starting at slot \<open>S mod 256\<close>, and the
driver's software count is left exactly half a ring ahead of the hardware count.
\<close>

lemma zero_copy_transmit_round:
  assumes "from_ok (le_arg le)" "to_ok (le_arg le)" "\<not> poll_fails le"
    and "use_writer d = 0" "use_reader d \<noteq> 0" "zero_copy d \<noteq> 0"
    and "reader_enable (dma_of (priv_chan f) s) = 1"
    and "reader_hw_count (dma_of (priv_chan f) s) = of_nat H"
    and "reader_sw_count (dma_of (priv_chan f) s) = of_nat S"
    and "S \<le> H + 128" "S < 2 ^ 63" "H < 2 ^ 63" "H + 128 - S < 2 ^ 32"
    and "polled le d (f, s) AND POLLOUT \<noteq> 0" "polled le d (f, s) AND POLLIN = 0"
  shows "\<exists>d'. litepcie_dma_process le d (f, s) =
      Done (d', (f, upd_dma (priv_chan f) (set_reader_sw (H + 128)) (poll_wait le s)))
    \<and> fst (drain litepcie_dma_next_write_buffer (H + 128 - S) d')
        = map (\<lambda>k. buf_wr d + of_nat ((S + k) mod 256 * 65536)) [0..<H + 128 - S]
    \<and> fst (litepcie_dma_next_write_buffer (snd (drain litepcie_dma_next_write_buffer (H + 128 - S) d'))) = None
    \<and> fst (litepcie_dma_next_read_buffer d') = None"
proof -
  from process_zero_copy_write [OF assms]
  obtain d' where p: "litepcie_dma_process le d (f, s) =
      Done (d', (f, upd_dma (priv_chan f) (set_reader_sw (H + 128)) (poll_wait le s)))"
    "buffers_available_write d' = of_nat (H + 128 - S)" "usr_write_buf_offset d' = of_nat (S mod 256)"
    "buf_wr d' = buf_wr d" "buffers_available_read d' = 0" by blast
  have o1: "unat (usr_write_buf_offset d') = S mod 256"
    unfolding p(3) by (rule unat_of_nat_small) simp
  have n: "H + 128 - S = unat (buffers_available_write d')"
    unfolding p(2) using assms(13) by (subst unat_of_nat_small) simp_all
  from next_write.drain_all [OF _ n] o1
  have "fst (drain litepcie_dma_next_write_buffer (H + 128 - S) d')
      = map (ring_addr (buf_wr d) (usr_write_buf_offset d')) [0..<H + 128 - S]"
    "buffers_available_write (snd (drain litepcie_dma_next_write_buffer (H + 128 - S) d')) = 0"
    by (simp_all add: p(4))
  then show ?thesis using p(1,5) next_read.empty next_write.empty
    by (intro exI [of _ d']) (simp add: ring_addr_def o1 mod_add_left_eq)
qed

lemma zero_copy_transmit_round_witness:
  "\<exists>d'. litepcie_dma_process lib0 (ctrl0 1 0 POLLOUT) (file0, running)
     = Done (d', (file0, upd_dma 0 (set_reader_sw 133) running))
   \<and> length (fst (drain litepcie_dma_next_write_buffer 126 d')) = 126"
proof -
  have f: "priv_chan file0 = 0" by (simp add: file0_def)
  have w: "reader_hw_count (dma_of 0 running) = of_nat 5" "reader_sw_count (dma_of 0 running) = of_nat 7"
    "litepcie_dev (chan running ! 0)"
    by (simp_all add: running_def busy_dma_of) (simp_all add: busy_dma_def device0_chan zero_dma_def)
  have "slt (reader_pending (dma_of 0 running)) (of_nat (DMA_BUFFER_COUNT div 2))"
    using w by (simp add: reader_pending_def slt_def csr_defs)
  then have "litepcie_poll file0 running AND POLLOUT = POLLOUT"
    using w f by (simp add: litepcie_poll_def csr_defs)
  then have pl: "polled lib0 (ctrl0 1 0 POLLOUT) (file0, running) = POLLOUT"
    by (simp add: polled_def lib0_def ctrl0_def)
  have "\<exists>d'. litepcie_dma_process lib0 (ctrl0 1 0 POLLOUT) (file0, running) =
      Done (d', (file0, upd_dma (priv_chan file0) (set_reader_sw (5 + 128)) (poll_wait lib0 running)))
    \<and> fst (drain litepcie_dma_next_write_buffer (5 + 128 - 7) d')
        = map (\<lambda>k. buf_wr (ctrl0 1 0 POLLOUT) + of_nat ((7 + k) mod 256 * 65536)) [0..<5 + 128 - 7]
    \<and> fst (litepcie_dma_next_write_buffer (snd (drain litepcie_dma_next_write_buffer (5 + 128 - 7) d'))) = None
    \<and> fst (litepcie_dma_next_read_buffer d') = None"
    by (rule zero_copy_transmit_round)
      (use f w running_facts pl in \<open>simp_all add: lib0_def both_ok_def ctrl0_def csr_defs\<close>)
  moreover have "poll_wait lib0 s = s" for s by (simp add: lib0_def)
  ultimately obtain d' where d: "litepcie_dma_process lib0 (ctrl0 1 0 POLLOUT) (file0, running) =
      Done (d', (file0, upd_dma 0 (set_reader_sw 133) running))"
    "fst (drain litepcie_dma_next_write_buffer 126 d')
        = map (\<lambda>k. buf_wr (ctrl0 1 0 POLLOUT) + of_nat ((7 + k) mod 256 * 65536)) [0..<126]"
    by (auto simp: f simp del: upt_Suc)
  have "length (fst (drain litepcie_dma_next_write_buffer 126 d')) = 126"
    unfolding d(2) by (simp only: length_map length_upt)
  with d(1) show ?thesis by blast
qed

text \<open>
\<open>litepcie_request_dma\<close> returns the reader's status only. It is 0 exactly when the reader was
requested while its lock was taken, so a program that asks for the writer alone is told it has the
DMA also when another file holds the writer lock.
\<close>

lemma request_answers_for_reader_only:
  assumes "priv_chan (fst fd) < length (chan (snd fd))" "from_ok (le_arg le)" "to_ok (le_arg le)"
  shows "(\<exists>st fd'. litepcie_request_dma le rdr wtr fd = Done (st, fd')
      \<and> (st = 0 \<longleftrightarrow> rdr > 0 \<and> reader_lock (dma_of (priv_chan (fst fd)) (snd fd)) \<noteq> 0))
    \<and> (\<exists>fd'. litepcie_request_dma le 0 wtr fd = Done (1, fd'))"
proof -
  have l: "rlock (snd fd) (priv_chan (fst fd)) = reader_lock (dma_of (priv_chan (fst fd)) (snd fd))"
    using rlock_self(1) [OF assms(1)] by simp
  from request_dma_status [OF assms, of 0 wtr]
  have "\<exists>fd'. litepcie_request_dma le 0 wtr fd = Done (1, fd')" by auto
  with request_dma_status [OF assms, of rdr wtr] show ?thesis unfolding l by blast
qed

lemma request_answers_for_reader_only_witness:
  "\<exists>fd'. litepcie_request_dma lib0 0 1 (file0, upd_dma 0 (\<lambda>d. d\<lparr>writer_lock := 1\<rparr>) busy) = Done (1, fd')"
  using request_answers_for_reader_only
    [of "(file0, upd_dma 0 (\<lambda>d. d\<lparr>writer_lock := 1\<rparr>) busy)" lib0 0 1]
  by (simp add: file0_def lib0_def both_ok_def)

section \<open>Flash programming\<close>





text \<open>A port that records chip select levels and the bytes on the wire.\<close>

definition log_port :: "(u32 + u8 list) list spi_port" where
  "log_port = \<lparr>p_write = (\<lambda>a v c. Some (c @ [Inl v])), p_read = (\<lambda>a c. Some (0, c)),
     p_flash = (\<lambda>n d c. Some (0, c @ [Inr (wire (nat n) d)])), p_sleep = (\<lambda>us c. c)\<rparr>"

text \<open>
The bytes that reach the chip, most significant bit first and framed by the chip select: a byte
program or read is the command, the three address bytes and the data byte; a sector erase the
command and the address; a page program the command, the address and the page. The page program
computes its word in 64 bits, so the fourth byte of an address beyond 16 MB is not dropped as in
the other frames but changes the command.
\<close>

lemma flash_frames:
  "flash_write log_port addr byte c = Some (c @
     [Inl 0, Inr [FLASH_PP, ucast (drop_bit 16 addr), ucast (drop_bit 8 addr), ucast addr, byte], Inl 1])
   \<and> flash_erase_sector log_port addr c = Some (c @
     [Inl 0, Inr [FLASH_SE, ucast (drop_bit 16 addr), ucast (drop_bit 8 addr), ucast addr], Inl 1])
   \<and> map_option snd (litepcie_flash_read log_port addr c) = Some (c @
     [Inl 0, Inr [FLASH_READ, ucast (drop_bit 16 addr), ucast (drop_bit 8 addr), ucast addr, 0], Inl 1])
   \<and> flash_write_buffer log_port addr page c = (if length page = 1 then flash_write log_port addr (hd page) c
     else Some (c @ [Inl 0, Inr [FLASH_PP OR ucast (drop_bit 24 addr), ucast (drop_bit 16 addr),
                       ucast (drop_bit 8 addr), ucast addr]] @ map (\<lambda>b. Inr [b]) page @ [Inl 1]))"
proof -
  have send: "send_bytes log_port bs c = Some (c @ map (\<lambda>b. Inr [b]) bs)" for bs c
  proof (induction bs arbitrary: c)
    case (Cons b bs)
    then show ?case using wire_frame(3) [of 0 b] by (simp add: log_port_def)
  qed simp
  have ports: "p_write log_port a v c = Some (c @ [Inl v])"
    "p_flash log_port n d c = Some (0, c @ [Inr (wire (nat n) d)])" for a v n d c
    by (simp_all add: log_port_def)
  have "wire 40 (ucast (push_bit 8 addr :: u32) OR push_bit 32 (ucast FLASH_READ))
      = [FLASH_READ, ucast (drop_bit 16 addr), ucast (drop_bit 8 addr), ucast addr, 0]"
    using wire_address(1) [of addr 0 FLASH_READ] by simp
  then show ?thesis
    by (simp add: flash_write_def flash_erase_sector_def litepcie_flash_read_def flash_write_buffer_def
        flash_spi_def flash_spi_cs_def ports send wire_address wire_page_command)
qed

section \<open>The test and streaming utilities\<close>

text \<open>
  C17. The pseudo-random generator and checker of the DMA test agree for every supported data width: a
generated buffer has no errors and leaves both with the same seed, and on an arbitrary buffer the
checker's count is the number of words that differ from the generated ones.
\<close>

lemma pn_check_counts_differences:
  assumes "1 \<le> w" and "w \<le> 16"
  shows "\<exists>buf s'. write_pn_data n seed (int w) = Some (buf, s') \<and> length buf = n
    \<and> check_pn_data buf seed (int w) = Some (0, s')
    \<and> (\<forall>rx. length rx = n \<longrightarrow> check_pn_data rx seed (int w)
         = Some (length (filter (\<lambda>(x, y). x \<noteq> y) (zip rx buf)), s'))"
proof -
  obtain m where m: "get_data_mask (int w) = Some m" using get_data_mask_bits [OF assms] by blast
  have len: "length (fst (write_pn_loop n m s)) = n" for s
    by (induction n arbitrary: s) (simp_all add: split_beta)
  have rx: "check_pn_loop rx m seed =
      (length (filter (\<lambda>(x, y). x \<noteq> y) (zip rx (fst (write_pn_loop n m seed)))),
       snd (write_pn_loop n m seed))" if "length rx = n" for rx
    using check_pn_errors [of rx m seed] check_pn_seed [of rx m seed] that by (simp add: prod_eq_iff)
  show ?thesis
    using check_write_pn [of n m seed]
    by (intro exI [of _ "fst (write_pn_loop n m seed)"] exI [of _ "snd (write_pn_loop n m seed)"])
      (simp add: write_pn_data_def check_pn_data_def m len rx)
qed

lemma pn_check_counts_differences_witness:
  "\<exists>buf s'. write_pn_data 4 7 12 = Some (buf, s') \<and> check_pn_data buf 7 12 = Some (0, s')"
  using pn_check_counts_differences [of 12 4 7] by force

text \<open>
\<open>get_next_pow2\<close> is the least power of two that is not smaller, and \<open>get_data_mask\<close> repeats the
mask of a sample in fields of that size, for the widths 1 to 16. For 17 to 32, which the test
accepts, the 32-bit mask is shifted by 32: the C program has no defined result.
\<close>

lemma data_mask_fields:
  assumes "1 \<le> w" and "w \<le> 32"
  shows "\<exists>j. get_next_pow2 (int w) = Some (2 ^ j) \<and> int w \<le> 2 ^ j \<and> (\<forall>i. int w \<le> 2 ^ i \<longrightarrow> j \<le> i)
    \<and> (if w \<le> 16
       then \<exists>m. get_data_mask (int w) = Some m \<and> (\<forall>k < 32. bit m k \<longleftrightarrow> k mod 2 ^ j < w)
       else get_data_mask (int w) = None)"
proof -
  obtain j where j: "get_next_pow2 (int w) = Some (2 ^ j)" "int w \<le> 2 ^ j" "\<forall>i. int w \<le> 2 ^ i \<longrightarrow> j \<le> i"
    using get_next_pow2_least [of "int w"] assms by force
  have "if w \<le> 16
       then \<exists>m. get_data_mask (int w) = Some m \<and> (\<forall>k < 32. bit m k \<longleftrightarrow> k mod 2 ^ j < w)
       else get_data_mask (int w) = None"
    using get_data_mask_bits [of w] get_data_mask_undefined [of "int w"] assms j(1) by force
  with j show ?thesis by blast
qed

lemma data_mask_fields_witness:
  "\<exists>j m. get_next_pow2 12 = Some (2 ^ j) \<and> get_data_mask 12 = Some m
     \<and> (\<forall>k < 32. bit m k \<longleftrightarrow> k mod 2 ^ j < 12)"
  using data_mask_fields [of 12] by force

text \<open>
\<open>litepcie_test record\<close> with a size: the file is always the first \<open>size\<close> bytes of the stream of
DMA buffers, cut inside a buffer if need be, and the program keeps running exactly as long as fewer
have arrived.
\<close>

lemma record_writes_prefix:
  assumes "\<And>n. fw n = n" and "0 < unat sz" and "\<forall>b \<in> set bufs. length b = DMA_BUFFER_SIZE"
  shows "litepcie_record fw sz bufs \<lparr>rec_file = [], total_len = 0, keep_running = True\<rparr>
    = r \<longrightarrow> rec_file r = take (unat sz) (concat bufs)
      \<and> (keep_running r \<longleftrightarrow> length (concat bufs) < unat sz)"
  using record_stream [OF assms, of "\<lparr>rec_file = [], total_len = 0, keep_running = True\<rparr>"] assms(2)
  by auto

lemma record_writes_prefix_witness:
  "rec_file (litepcie_record (\<lambda>n. n) 70000 [replicate 65536 1, replicate 65536 2]
      \<lparr>rec_file = [], total_len = 0, keep_running = True\<rparr>)
   = take 70000 (replicate 65536 1 @ replicate 65536 2)"
  using record_writes_prefix [of "\<lambda>n. n" 70000 "[replicate 65536 1, replicate 65536 2]"]
  by (simp add: csr_defs)

text \<open>
\<open>litepcie_test play\<close> on a file of at least one buffer: the concatenation of the buffers it fills is
the file read cyclically from the current position, so the end of the file and its beginning meet
inside a buffer without a gap.
\<close>

lemma play_is_cyclic:
  assumes "DMA_BUFFER_SIZE \<le> length f" and "pos p \<le> length f"
    and "\<forall>b \<in> set olds. length b = DMA_BUFFER_SIZE"
  shows "concat (fst (litepcie_play f loops olds p))
    = map (\<lambda>k. f ! ((pos p + k) mod length f)) [0..<length olds * DMA_BUFFER_SIZE]"
  using play_stream [OF assms] by (simp add: cyclic_def)

lemma play_is_cyclic_witness:
  "concat (fst (litepcie_play (replicate 65536 3) 2 [replicate 65536 0]
      \<lparr>pos = 0, current_loop = 0, playing = True\<rparr>)) = replicate 65536 3"
proof -
  have "map (\<lambda>k. replicate 65536 (3 :: u8) ! (k mod 65536)) [0..<65536] = replicate 65536 3"
    by (rule nth_equalityI) (simp_all del: upt_Suc)
  then show ?thesis
    using play_is_cyclic [of "replicate 65536 3" "\<lparr>pos = 0, current_loop = 0, playing = True\<rparr>"
        "[replicate 65536 0]" 2]
    by (simp add: csr_defs del: upt_Suc)
qed

text \<open>
Success of \<open>flash_program\<close>: the flash holds the file at the offset, followed by zeros up to the
next sector boundary.
\<close>

lemma flash_utility_image:
  assumes "litepcie_flash_get_flash_program_size P c = Some (ps, c0)"
    and "chip_memory P mem (ps - 1)" and "a + flash_pad (length buf) + ps \<le> 2 ^ 24"
    and "flash_program P (of_nat a) buf c = Some (0, c')"
  shows "(\<forall>j < length buf. mem c' (a + j) = buf ! j)
    \<and> (\<forall>j. length buf \<le> j \<and> j < flash_pad (length buf) \<longrightarrow> mem c' (a + j) = 0)
    \<and> 65536 dvd flash_pad (length buf) \<and> length buf \<le> flash_pad (length buf)
    \<and> flash_pad (length buf) < length buf + 65536"
  using flash_program_image [OF assms] flash_pad_bounds by blast

lemma flash_utility_image_witness:
  "\<exists>c'. flash_program byte_chip (of_nat 0x200000) [1, 2, 3] (\<lambda>x. 0xff) = Some (0, c')
     \<and> chip_mem c' 0x200001 = 2 \<and> chip_mem c' 0x20ffff = 0"
proof -
  obtain c' where c: "flash_program byte_chip (of_nat 0x200000) [1, 2, 3] (\<lambda>x. 0xff) = Some (0, c')"
    using byte_chip_program by blast
  have pad: "flash_pad (Suc (Suc (Suc 0))) = 65536"
    by (simp add: flash_pad_def litepcie_flash_get_erase_block_size_def FLASH_SECTOR_SIZE_def Let_def)
  have "(\<forall>j < length [1, 2, 3 :: u8]. chip_mem c' (0x200000 + j) = [1, 2, 3] ! j)
    \<and> (\<forall>j. length [1, 2, 3 :: u8] \<le> j \<and> j < flash_pad (length [1, 2, 3 :: u8])
         \<longrightarrow> chip_mem c' (0x200000 + j) = 0)"
    using flash_utility_image [OF byte_chip_ops(8), of chip_mem "0x200000" "[1, 2, 3]" "\<lambda>x. 0xff" c']
      byte_chip_memory c by (simp add: pad)
  then have m: "\<forall>j < length [1, 2, 3 :: u8]. chip_mem c' (0x200000 + j) = [1, 2, 3] ! j"
    "\<And>j. length [1, 2, 3 :: u8] \<le> j \<Longrightarrow> j < flash_pad (length [1, 2, 3 :: u8])
       \<Longrightarrow> chip_mem c' (0x200000 + j) = 0" by blast+
  have "chip_mem c' (0x200000 + 1) = 2" "chip_mem c' (0x200000 + 0xffff) = 0"
    using m(1) [rule_format, of 1] m(2) [of "0xffff"] by (simp_all add: pad)
  then show ?thesis using c by auto
qed

section \<open>The SoapySDR plugin\<close>

text \<open>An RX stream on channel 0 of the running device, with a ring of which three buffers are filled.\<close>

definition soapy0 :: "u64 \<Rightarrow> u64 \<Rightarrow> soapy" where
  "soapy0 h u = \<lparr>rx_stream = fresh_stream\<lparr>st_opened := True, st_buf := 0x40000000, st_events := POLLIN,
       st_hw := h, st_user := u, st_format := SOAPY_SDR_CS16, st_channels := [0]\<rparr>,
     tx_stream = fresh_stream, dma_info = mmap_dma_info\<rparr>"

lemma running_counts:
  "writer_hw_count (dma_of (priv_chan file0) running) = of_nat 3"
  "writer_sw_count (dma_of (priv_chan file0) running) = of_nat 0"
  by (simp_all add: running_def busy_dma_of file0_def) (simp_all add: busy_dma_def device0_chan zero_dma_def)

lemma lib0_args: "from_ok (le_arg lib0)" "to_ok (le_arg lib0)" "\<not> poll_fails lib0" "poll_wait lib0 s = s"
  by (simp_all add: lib0_def both_ok_def)

lemma soapy0_acquire:
  "acquireReadBuffer lib0 RX_STREAM h0 a0 t (soapy0 0 0) (file0, running)
     = Done (Inr (Elems 8192, 0, 0x40000000), rx_counted (soapy0 0 0) 3 0 1, (file0, running))"
  using acquire_available [OF lib0_args(1,2), where d = "soapy0 0 0" and f = file0 and s = running
      and H = 3 and S = 0 and U = 0 and L = 0]
    running_facts(3) running_counts by (simp add: soapy0_def file0_def)

text \<open>
  C18. Taking a buffer of the receive ring: with hardware, software and user count \<open>H\<close>, \<open>S\<close> and \<open>U\<close> and
\<open>U < H\<close>, the caller gets the address of slot \<open>U mod 256\<close> of the map with handle \<open>U\<close>, and only the
user count moves. When the driver is more than half a ring behind, everything is dropped instead:
all three counters, the driver's software count included, become \<open>H\<close>.
\<close>

lemma acquire_read_buffer_outcome:
  assumes "from_ok (le_arg le)" "to_ok (le_arg le)" "dma_info d = mmap_dma_info"
    and "writer_enable (dma_of (priv_chan f) s) = 1"
    and "writer_hw_count (dma_of (priv_chan f) s) = of_nat H" "writer_sw_count (dma_of (priv_chan f) s) = of_nat S"
    and "st_hw (rx_stream d) = of_nat L" "st_user (rx_stream d) = of_nat U"
    and "U \<le> L" "L \<le> H" "S \<le> H" "U < H" "H < 2 ^ 63" "H - U < 2 ^ 31"
  shows "acquireReadBuffer le RX_STREAM h0 a0 timeoutUs d (f, s) =
    (if H - S > 128
     then Done (Inr (Overflow, - 1, a0), rx_counted d H H H, (f, upd_dma (priv_chan f) (set_writer_sw H) s))
     else Done (Inr (Elems 8192, of_nat U, st_buf (rx_stream d) + of_nat (U mod 256 * 65536)),
       rx_counted d H S (U + 1), (f, s)))"
  using assms by (rule acquire_available)

lemma acquire_read_buffer_outcome_witness:
  "\<exists>d'. acquireReadBuffer lib0 RX_STREAM 0 0 1000 (soapy0 2 1) (file0, running)
     = Done (Inr (Elems 8192, 1, 0x40010000), d', (file0, running)) \<and> st_user (rx_stream d') = 2"
  using acquire_read_buffer_outcome [OF lib0_args(1,2), where d = "soapy0 2 1" and f = file0 and s = running
      and H = 3 and S = 0 and U = 1 and L = 2]
    running_facts(3) running_counts by (simp add: soapy0_def file0_def rx_counted_def set_rx_def)

text \<open>
Asking for a buffer while holding all that are filled: \<open>poll\<close> compares with the driver's software
count and answers at once, the plugin compares with its user count and finds nothing, so the
assertion after the wait fails. This happens as soon as three buffers have not been given back.
\<close>

lemma acquire_aborts_when_holding_all:
  assumes "from_ok (le_arg le)" "to_ok (le_arg le)" "\<not> poll_fails le" "timeoutUs \<noteq> 0"
    and "writer_enable (dma_of (priv_chan f) s) = 1"
    and "writer_hw_count (dma_of (priv_chan f) s) = of_nat H" "writer_sw_count (dma_of (priv_chan f) s) = of_nat S"
    and "poll_wait le s = s" "litepcie_dev (chan s ! priv_chan f)"
    and "st_hw (rx_stream d) = of_nat H" "st_user (rx_stream d) = of_nat H" "st_events (rx_stream d) = POLLIN"
    and "S + 2 < H" "H < 2 ^ 63"
  shows "acquireReadBuffer le RX_STREAM h0 a0 timeoutUs d (f, s) = Abort"
  using assms by (rule acquire_holding_all)

lemma acquire_aborts_when_holding_all_witness:
  "acquireReadBuffer lib0 RX_STREAM 0 0 1000 (soapy0 3 3) (file0, running) = Abort"
  using acquire_aborts_when_holding_all [OF lib0_args(1-3), where timeoutUs = 1000 and f = file0 and s = running
      and H = 3 and S = 0 and d = "soapy0 3 3"]
    running_facts(2,3) running_counts lib0_args(4) by (simp add: soapy0_def file0_def)

text \<open>
What \<open>readStream\<close> delivers: whatever it returns, the complex samples with an odd index are left as
they were in every buffer of the caller, because the copying loop advances by two; the count it
returns includes them.
\<close>

lemma read_stream_skips_odd_samples:
  assumes "readStream le mem h0 stream buffs numElems timeoutUs d fd = Done (Inr (ret, buffs'), d', fd')"
  shows "length buffs' = length buffs \<and> (\<forall>b < length buffs. length (buffs' ! b) = length (buffs ! b)
    \<and> (\<forall>q. odd q \<longrightarrow> buffs' ! b ! (2 * q) = buffs ! b ! (2 * q)
        \<and> buffs' ! b ! (2 * q + 1) = buffs ! b ! (2 * q + 1)))"
  using readStream_kept [OF assms] by (auto simp: list_all2_conv_all_nth odd_kept_def)

lemma read_stream_skips_odd_samples_witness:
  "\<exists>buffs' d'. readStream lib0 (\<lambda>a. 5) 0 RX_STREAM [[1, 2, 3, 4]] 2 1000 (soapy0 0 0) (file0, running)
      = Done (Inr (Elems 2, buffs'), d', (file0, running)) \<and> buffs' ! 0 ! 0 = 0x500 \<and> buffs' ! 0 ! 2 = 3"
proof -
  have d: "rx_stream (soapy0 0 0) = fresh_stream\<lparr>st_opened := True, st_buf := 0x40000000, st_events := POLLIN,
      st_hw := 0, st_user := 0, st_format := SOAPY_SDR_CS16, st_channels := [0]\<rparr>" by (simp add: soapy0_def)
  have m: "getStreamMTU RX_STREAM (soapy0 0 0) = Inr 8192" by (simp add: getStreamMTU_def soapy0_def mmap_dma_info_def csr_defs)
  have l: "deint_loop src 0 2 0 [1, 2, 3, 4] = Some [push_bit 8 (ucast (src 0)), push_bit 8 (ucast (src 1)), 3, 4]" for src
    by (simp add: deint_loop.simps [of _ _ _ 0] deint_loop.simps [of _ _ _ "Suc (Suc 0)"] BYTES_PER_SAMPLE_def)
  obtain d' where r: "readStream lib0 (\<lambda>a. 5) 0 RX_STREAM [[1, 2, 3, 4]] 2 1000 (soapy0 0 0) (file0, running)
      = Done (Inr (Elems 2, [[0x500, 0x500, 3, 4]]), d', (file0, running))"
    by (simp add: readStream_def m d has_remainder_def fresh_stream_def read_fresh_def soapy0_acquire rx_counted_def set_rx_def
        deinterleave_def l at_addr_def finish_read_def used_up_def Let_def)
  have "[[0x500, 0x500, 3, 4]] ! 0 ! (2 * 1) = [[1, 2, 3, 4 :: u16]] ! 0 ! (2 * 1)"
    using read_stream_skips_odd_samples [OF r] by fastforce
  with r show ?thesis by simp
qed

text \<open>
Deactivation: for the receive stream the engine is disabled; for the transmit stream the call asks
for enable again, so the driver, its running engine included, stays exactly as it is.
\<close>

lemma deactivate_stops_receive_only:
  assumes "from_ok (le_arg le)" "to_ok (le_arg le)" "chan_ready (priv_chan f) s"
    and "reader_enable (dma_of (priv_chan f) s) = 1"
  shows "(\<exists>d' s'. deactivateStream le RX_STREAM d (f, s) = Done (Inr 0, d', (f, s'))
      \<and> writer_enable (dma_of (priv_chan f) s') = 0)
    \<and> (\<exists>d'. deactivateStream le TX_STREAM d (f, s) = Done (Inr 0, d', (f, s)))"
  using deactivate_rx [OF assms(1-3)] deactivate_tx [OF assms(1,2,4)] by blast

lemma deactivate_stops_receive_only_witness:
  "\<exists>d'. deactivateStream lib0 TX_STREAM (soapy0 0 0) (file0, running) = Done (Inr 0, d', (file0, running))
     \<and> reader_enable (dma_of 0 running) = 1"
  using deactivate_stops_receive_only [OF lib0_args(1,2), where f = file0 and s = running and d = "soapy0 0 0"] running_facts
  by (simp add: file0_def)

text \<open>
  C19. What the constructor of the plugin leaves in the FPGA, from any state of the board: transmitter and
receiver of the RF interface enabled, both delays 16, the internal clock, the switches for LNAW and
BAND1; but also the DMA loopback and both pattern units switched on, by three statements commented as
a test, so a freshly opened device streams test data. The RF chip library is any that reaches the
board only through the SPI callback and reports success; the storage registers keep what is written.
\<close>

lemma constructor_leaves_test_config:
  assumes "stored e init" and "lms_good e" and "lms_create_ok e" and "alloc_works (le_k (xe_lib e))"
    and "args ''path'' \<noteq> None" and "0 \<le> open_ret (xe_lib e)"
    and "from_ok (le_arg (xe_lib e))" and "to_ok (le_arg (xe_lib e))" and "chan_ready ci s" and "device_ok s"
  shows "\<exists>d' f t. SoapyLiteXXTRX e args d ci s = Done (Inr d', Some f, t)
    \<and> reg init t CSR_LMS7002M_CONTROL_ADDR = 0x300
    \<and> reg init t CSR_PCIE_DMA0_LOOPBACK_ENABLE_ADDR = 1
    \<and> setting_text (reg init t) ''FPGA_TX_PATTERN'' = Some ''1''
    \<and> setting_text (reg init t) ''FPGA_RX_PATTERN'' = Some ''1''
    \<and> setting_text (reg init t) ''FPGA_TX_DELAY'' = Some ''16''
    \<and> setting_text (reg init t) ''FPGA_RX_DELAY'' = Some ''16''
    \<and> \<not> bit (reg init t CSR_VCTCXO_CONTROL_ADDR) 0
    \<and> reg init t CSR_RF_SWITCHES_RX_ADDR = 0 \<and> reg init t CSR_RF_SWITCHES_TX_ADDR = 1"
  using constructor_run [where e = e and init = init and args = args and d = d and ci = ci and s = s, OF assms]
  unfolding constructed_def test_config_def by fastforce

lemma constructor_leaves_test_config_witness:
  "\<exists>d' f t. SoapyLiteXXTRX xtrx0 [''path'' \<mapsto> ''/dev/litepcie0''] object0 0 device0 = Done (Inr d', Some f, t)
    \<and> reg (\<lambda>_. 0) t CSR_PCIE_DMA0_LOOPBACK_ENABLE_ADDR = 1"
  using constructor_leaves_test_config [of xtrx0 "\<lambda>_. 0" "[''path'' \<mapsto> ''/dev/litepcie0'']" 0 device0 object0]
    xtrx0_facts device0_ready(1) device0_facts(2) by auto

text \<open>
  C20. The FPGA settings implement a map from keys to texts, with the register contents as its
representation: writing a legal value changes that key and no other, although the two delays share
a register, and reading a key afterwards returns what the map holds.
\<close>

lemma settings_are_a_map:
  assumes "ready e (f, s)" and "stored e init"
    and "key \<in> set fpga_keys" and "v \<in> set (setting_values key)" and "key' \<in> set fpga_keys"
  shows "\<exists>s' s''. writeSetting e key v (d, f, s) = Done (Inr (), d, f, s')
    \<and> setting_text (reg init s') = (setting_text (reg init s))(key \<mapsto> v)
    \<and> readSetting e key' (d, f, s')
        = Done (Inr (if key' = key then v else the (setting_text (reg init s) key')), d, f, s'')"
proof -
  obtain s' where w: "writeSetting e key v (d, f, s) = Done (Inr (), d, f, s')" "ready e (f, s')"
    "setting_text (reg init s') key = Some v"
    "\<forall>k. k \<noteq> key \<longrightarrow> setting_text (reg init s') k = setting_text (reg init s) k"
    using writeSetting_run [OF assms(1-4)] by blast
  have m: "setting_text (reg init s') = (setting_text (reg init s))(key \<mapsto> v)"
    using w(3,4) by (auto simp: fun_eq_iff)
  obtain s'' where "readSetting e key' (d, f, s') = Done (Inr (the (setting_text (reg init s') key')), d, f, s'')"
    using readSetting_run [OF w(2) assms(2,5)] by blast
  with w(1) m show ?thesis by auto
qed

lemma settings_are_a_map_witness:
  "\<exists>s' s''. writeSetting xtrx0 ''FPGA_TX_DELAY'' ''7'' (object0, file0, device0) = Done (Inr (), object0, file0, s')
    \<and> readSetting xtrx0 ''FPGA_RX_DELAY'' (object0, file0, s') = Done (Inr ''0'', object0, file0, s'')"
proof -
  have k: "''FPGA_TX_DELAY'' \<in> set fpga_keys" "''FPGA_RX_DELAY'' \<in> set fpga_keys" by (simp_all add: fpga_keys_def)
  have "to_string (int 7) = ''7''" "to_string (int 0) = ''0''" by code_simp+
  then have v: "''7'' \<in> set (setting_values ''FPGA_TX_DELAY'')"
    and z: "setting_text (reg (\<lambda>_. 0) device0) ''FPGA_RX_DELAY'' = Some ''0''"
    by (auto simp: setting_values_def setting_text_keys reg_def device0_mmio intro!: image_eqI [of _ _ 7])
  show ?thesis using settings_are_a_map [OF device0_ready(2) xtrx0_facts(1) k(1) v k(2), of object0] z by auto
qed

text \<open>
  C21. The sample rate that is set: a request between \<open>1 / (32 * sqrt 2)\<close> and \<open>1 / 2\<close> of the rate of the
signal processor is accepted, the result is that rate divided by a power of two from 2 to 32 and
within a factor \<open>sqrt 2\<close> of the request; decimation (or interpolation), the divider of the port
(half of it) and the cached rate agree.
\<close>

lemma sample_rate_is_nearest:
  assumes "lms_answers e" and "0 < rate" and "direction \<noteq> Other_direction"
    and "2 * rate \<le> tsp_rate direction d" and "tsp_rate direction d < 32 * sqrt 2 * rate"
  shows "\<exists>k fd'. 1 \<le> k \<and> k \<le> 5
    \<and> setSampleRate e direction rate (d, fd) = Done (Inr (),
        d\<lparr>lms_log := lms_log d @ rate_calls direction k,
          cachedRate := (cachedRate d)(direction \<mapsto> tsp_rate direction d / 2 ^ k)\<rparr>, fd')
    \<and> tsp_rate direction d / 2 ^ k \<le> rate * sqrt 2 \<and> rate \<le> sqrt 2 * (tsp_rate direction d / 2 ^ k)"
  using assms by (rule setSampleRate_accepts)

lemma sample_rate_is_nearest_witness:
  "\<exists>k fd'. 1 \<le> k \<and> k \<le> 5 \<and> setSampleRate xtrx0 SOAPY_SDR_TX 5000000 (object0\<lparr>masterClockRate := 122880000\<rparr>, file0, device0)
     = Done (Inr (), object0\<lparr>masterClockRate := 122880000, lms_log := rate_calls SOAPY_SDR_TX k,
         cachedRate := (cachedRate object0)(SOAPY_SDR_TX \<mapsto> 122880000 / 2 ^ k)\<rparr>, fd')"
proof -
  have "(1 :: real) \<le> sqrt 2" by (simp add: real_le_rsqrt)
  then have "(122880000 :: real) < 32 * sqrt 2 * 5000000" by linarith
  then show ?thesis
    using sample_rate_is_nearest [OF xtrx0_facts(3), of 5000000 SOAPY_SDR_TX "object0\<lparr>masterClockRate := 122880000\<rparr>" "(file0, device0)"]
    by (auto simp: tsp_rate_def object0_def fresh_xtrx_def)
qed

text \<open>The highest rate the plugin lists is one that its receiver refuses.\<close>

lemma listed_rate_is_refused:
  assumes "masterClockRate d = 122880000"
  shows "30720000 \<in> set (listSampleRates SOAPY_SDR_RX d)"
    and "setSampleRate e SOAPY_SDR_RX 30720000 (d, fd) = Done (Inl Rate_too_high, d, fd)"
proof -
  show "30720000 \<in> set (listSampleRates SOAPY_SDR_RX d)" by (simp add: listSampleRates_def)
  show "setSampleRate e SOAPY_SDR_RX 30720000 (d, fd) = Done (Inl Rate_too_high, d, fd)"
    using assms by (intro setSampleRate_too_high) (simp_all add: tsp_rate_def)
qed

text \<open>
  C22. The plugin and the utility each have an SPI routine for the RF chip. On the frames of the utility
they are the same function of the board, whatever it answers: the same accesses in the same order,
the same value, and when the chip never gets ready neither returns.
\<close>

lemma spi_callback_is_utility_spi:
  "litepcie_interface_transact P (lms_frame_write addr val) False c
     = map_option (\<lambda>c. (0, c)) (lms7002m_spi_write P addr val c)
   \<and> litepcie_interface_transact P (lms_frame_read addr) True c = lms7002m_spi_read P addr c"
  by (simp only: transact_write transact_read)

text \<open>
  C23. The search without a path: it returns, in order, the nodes among the ten that open, identify
themselves as an XTRX and carry the serial number asked for, and it leaves open the descriptor of
every node that opens and is something else.
\<close>

lemma search_finds_boards_and_leaks_others:
  assumes "args ''path'' = None" and "findXTRX le node args = Done (Found (found, opened))"
  shows "map (\<lambda>d. d ''path'') found = map (\<lambda>i. Some (node_path i)) (filter (wanted_node le node args) [0..<10])
    \<and> opened = map node_path (filter (foreign_node le node) [0..<10])"
proof -
  have "find_nodes le node args [0..<10] = Done (Some (found, opened))"
    using assms by (auto simp: findXTRX_def lbind_Done_iff split: option.splits)
  from find_nodes_result [OF this] show ?thesis by simp
qed

lemma search_finds_boards_and_leaks_others_witness:
  "findXTRX zero_lib node0 Map.empty = Done (Found ([], [''/dev/litepcie3'']))
   \<and> map node_path (filter (foreign_node zero_lib node0) [0..<10]) = [''/dev/litepcie3'']"
proof -
  obtain t where i: "getXTRXIdentification zero_lib (file0, device0) = Done (Some [], (file0, t))"
    using zero_identification by blast
  have c: "\<not> contains XTRX_IDENT []" by (simp add: XTRX_IDENT_def)
  have n: "[0..<10] = [0, 1, 2, 3, 4, 5, 6, 7, 8, 9 :: nat]" by (simp add: upt_rec)
  have "find_nodes zero_lib node0 Map.empty [0..<10] = Done (Some ([], [''/dev/litepcie3'']))"
    using node_paths i c unfolding n by (simp add: node0_def)
  then have f: "findXTRX zero_lib node0 Map.empty = Done (Found ([], [''/dev/litepcie3'']))" by (simp add: findXTRX_def)
  show ?thesis using f search_finds_boards_and_leaks_others [OF _ f] by simp
qed

text \<open>
Antennas of the two receive channels: the chip has a path per channel, the board one switch. After
choosing an antenna for channel 0 and then one for channel 1 the getters answer with both choices,
the chip has both paths, but the switch is in the position of the second.
\<close>

lemma antenna_switch_is_shared:
  assumes "lms_good e" and "ready e fd" and "rx_antenna a = Some (p, v)" and "rx_antenna b = Some (q, w)"
  shows "\<exists>d' fd'. stmts [setAntenna e SOAPY_SDR_RX 0 a, setAntenna e SOAPY_SDR_RX 1 b] (d, fd) = Done (Inr (), d', fd')
    \<and> getAntenna SOAPY_SDR_RX 0 (d', fd') = Done (Inr a, d', fd')
    \<and> getAntenna SOAPY_SDR_RX 1 (d', fd') = Done (Inr b, d', fd')
    \<and> lms_log d' = lms_log d @ [LMS_rfe_set_path LMS_CHA p, LMS_rfe_set_path LMS_CHB q]
    \<and> reg init (snd fd') CSR_RF_SWITCHES_RX_ADDR = w"
  using assms by (rule antennas_share_switch)

lemma antenna_switch_is_shared_witness:
  "\<exists>d' fd'. stmts [setAntenna xtrx0 SOAPY_SDR_RX 0 ''LNAH'', setAntenna xtrx0 SOAPY_SDR_RX 1 ''LNAL''] (object0, file0, device0)
      = Done (Inr (), d', fd')
    \<and> getAntenna SOAPY_SDR_RX 0 (d', fd') = Done (Inr ''LNAH'', d', fd')
    \<and> reg (\<lambda>_. 0) (snd fd') CSR_RF_SWITCHES_RX_ADDR = 1"
proof -
  have "rx_antenna ''LNAH'' = Some (RFE_LNAH, 2)" "rx_antenna ''LNAL'' = Some (RFE_LNAL, 1)"
    by (simp_all add: rx_antenna_def)
  from antenna_switch_is_shared [OF xtrx0_facts(2) device0_ready(2) this, of object0 "\<lambda>_. 0"]
  show ?thesis by blast
qed

section \<open>The firmware\<close>


text \<open>
  C24. What a write of a bit-banged master puts on its bus, read by the protocol decoder: START, the
bytes up to the first one the slave does not acknowledge, STOP. It returns true exactly when every
byte was acknowledged, for whatever the slave answers, and the other bus sees nothing.
\<close>

lemma i2c_write_frames:
  "(\<exists>ok evs k. run_state (i2c0_write env sa r data) h = (ok, h @ evs)
     \<and> i2c_decode CSR_I2C0_W_ADDR CSR_I2C0_R_ADDR evs idle
         = (idle, Start_sym # sent_until k (push_bit 1 sa # r # data) @ [Stop_sym])
     \<and> k \<le> length data + 2 \<and> ok = (k = length data + 2)
     \<and> i2c_decode CSR_I2C1_W_ADDR CSR_I2C1_R_ADDR evs l = (l, []))
   \<and> (\<exists>ok evs k. run_state (i2c1_write env sa r data) h = (ok, h @ evs)
     \<and> i2c_decode CSR_I2C1_W_ADDR CSR_I2C1_R_ADDR evs idle
         = (idle, Start_sym # sent_until k (push_bit 1 sa # r # data) @ [Stop_sym])
     \<and> k \<le> length data + 2 \<and> ok = (k = length data + 2)
     \<and> i2c_decode CSR_I2C0_W_ADDR CSR_I2C0_R_ADDR evs l = (l, []))"
proof (rule conjI, goal_cases)
  case 1
  show ?case
    using wp_result [OF bus0.wp_wr [of env sa r data h]] bus0_silent_on_bus1 [OF bus0.tame_wr]
    by (fastforce simp: bus0.wrote_def)
next
  case 2
  show ?case
    using wp_result [OF bus1.wp_wr [of env sa r data h]] bus1_silent_on_bus0 [OF bus1.tame_wr]
    by (fastforce simp: bus1.wrote_def)
qed

text \<open>
  C25. A read of a bit-banged master: one of the frames refused at the address, the register or the read
address, with the caller's buffer as it was, or the full frame with the bytes it returned, all
but the last acknowledged by the master; the bus is idle afterwards (\<open>read_frame\<close>).
\<close>

lemma i2c_read_frames:
  assumes "n \<le> length data"
  shows "(\<exists>ok data' evs ss. run_state (i2c0_read env sa r data n stop) h = ((ok, data'), h @ evs)
     \<and> i2c_decode CSR_I2C0_W_ADDR CSR_I2C0_R_ADDR evs idle = (idle, ss)
     \<and> read_frame sa r stop data n ok data' ss)
   \<and> (\<exists>ok data' evs ss. run_state (i2c1_read env sa r data n stop) h = ((ok, data'), h @ evs)
     \<and> i2c_decode CSR_I2C1_W_ADDR CSR_I2C1_R_ADDR evs idle = (idle, ss)
     \<and> read_frame sa r stop data n ok data' ss)"
  using wp_result [OF bus0.wp_rd [OF assms, of env sa r stop h]]
    wp_result [OF bus1.wp_rd [OF assms, of env sa r stop h]] by (auto split: prod.splits)

lemma i2c_read_frames_witness:
  "\<exists>ok data' evs ss. run_state (i2c0_read silent_env 0x60 1 [7] 1 True) [] = ((ok, data'), evs)
     \<and> read_frame 0x60 1 True [7] 1 ok data' ss"
  using i2c_read_frames [where n = 1 and data = "[7]" and env = silent_env and sa = "0x60" and r = 1
      and stop = True and h = "[]"] by auto



text \<open>
  C27. The invariant of the running firmware: after start-up and any sequence of characters, with any
answers of the hardware, the line is inside its buffer, both I2C buses are idle, and revision and
DAC address belong together.
\<close>

lemma firmware_invariant:
  assumes "firmware_main env g inps = Some f"
  shows "con_ptr (fw_console f) \<le> 63 \<and> length (con_s (fw_console f)) = 64
    \<and> fst (i2c_decode CSR_I2C0_W_ADDR CSR_I2C0_R_ADDR (history (fw_board f)) idle) = idle
    \<and> fst (i2c_decode CSR_I2C1_W_ADDR CSR_I2C1_R_ADDR (history (fw_board f)) idle) = idle
    \<and> (board_revision (fw_board f), dac_addr (fw_board f))
        \<in> {(0, 0), (4, MCP4725_I2C_ADDR), (5, DAC60501_I2C_ADDR)}"
  using firmware_main_ok [OF assms] by (simp add: firmware_ok_def console_ok_def board_ok_def seen0_def seen1_def)

lemma firmware_invariant_witness:
  "\<exists>f. firmware_main (slave_env 0xe0) (\<lambda>_ _. 0) (map Some ''xy'') = Some f
     \<and> con_ptr (fw_console f) \<le> 63 \<and> fst (i2c_decode CSR_I2C0_W_ADDR CSR_I2C0_R_ADDR (history (fw_board f)) idle) = idle"
proof -
  obtain b where "xtrx_init (slave_env 0xe0) (\<lambda>_ _. 0) board_reset = Some (1, b)"
    using slave_init by blast
  then obtain f where "firmware_main (slave_env 0xe0) (\<lambda>_ _. 0) (map Some ''xy'') = Some f"
    by (simp add: firmware_main_def console_service_def readstr_def console_reset_def)
  then show ?thesis using firmware_invariant by blast
qed

text \<open>
  C28. The release of the RF chip: \<open>xtrx_init\<close> returns 0 and never wrote its control register, or
returns 1 and wrote reset with power-down, reset alone and the release value, in this order and
once each. That last value has the transmit and receive enable bits of \<open>csr.h\<close> clear.
\<close>

lemma init_releases_rf_chip:
  assumes "xtrx_init env g s = Some (r, s')"
  shows "(r = 0 \<and> lms_writes s' = lms_writes s \<or> r = 1 \<and> lms_writes s' = lms_writes s @ [3, 1, 12])
    \<and> (r = 1 \<longrightarrow> \<not> bit (last (lms_writes s')) CSR_LMS7002M_CONTROL_TX_ENABLE_OFFSET
      \<and> \<not> bit (last (lms_writes s')) CSR_LMS7002M_CONTROL_RX_ENABLE_OFFSET)"
  using xtrx_init_lms [OF assms] by (auto simp: lms_release_values_def csr_defs)

lemma init_releases_rf_chip_witness:
  "\<exists>s'. xtrx_init (slave_env 0xe0) (\<lambda>_ _. 0) board_reset = Some (1, s') \<and> lms_writes s' = [3, 1, 12]
     \<and> \<not> bit (last (lms_writes s')) 8"
proof -
  obtain s' where s': "xtrx_init (slave_env 0xe0) (\<lambda>_ _. 0) board_reset = Some (1, s')"
    using slave_init by blast
  from init_releases_rf_chip [OF this] have "lms_writes s' = [3, 1, 12]" "\<not> bit (last (lms_writes s')) 8"
    by (auto simp: lms_writes_def writes_to_def board_reset_def csr_defs)
  with s' show ?thesis by blast
qed

text \<open>
  C29. Start-up succeeds: when both power controllers serve 0xe0 at register 1 and a loaded timer expires
after some number of latches, \<open>xtrx_init\<close> returns 1, whatever else the devices answer.
\<close>

lemma init_succeeds:
  assumes "driven CSR_I2C0_W_ADDR CSR_I2C0_R_ADDR env resp0" and "driven CSR_I2C1_W_ADDR CSR_I2C1_R_ADDR env resp1"
    and "seen0 s = (idle, s0)" and "seen1 s = (idle, s1)"
    and "serves resp0 s0 LP8758_I2C_ADDR 1 True [0xe0]" and "serves resp1 s1 LP8758_I2C_ADDR 1 True [0xe0]"
    and "timer_stops N env" and "board_ok s"
  shows "\<exists>s'. xtrx_init env g s = Some (1, s')"
  using assms by (rule xtrx_init_returns_one)

lemma init_succeeds_witness:
  "\<exists>s'. xtrx_init (slave_env 0xe0) (\<lambda>_ _. 7) board_reset = Some (1, s')"
  by (rule init_succeeds [OF slave_env_driven board_reset_facts(2,3) byte_slave_serves byte_slave_serves
        slave_env_timer board_reset_facts(1)])


text \<open>
  C31. The line editor: after any characters, the buffer and pointer of \<open>readstr\<close> hold the line an editor
on lists would hold, and the pointer stays in the buffer.
\<close>

lemma console_edits_lines:
  "line (type_in cs console_reset) = fold edit cs [] \<and> con_ptr (type_in cs console_reset) \<le> 63
     \<and> length (con_s (type_in cs console_reset)) = 64"
  using type_in_refines [OF console_reset_ok, of cs] unfolding line_reset by (simp add: console_ok_def)

text \<open>
A finished line: the command that runs is the first word of the edited line (up to a NUL that was
typed), whatever follows it, and the editor starts over with an empty line.
\<close>

lemma console_runs_first_word:
  assumes "firmware_ok f" and "is_return c"
  shows "\<exists>buf token t. c_string buf token
      = takeWhile (\<lambda>x. x \<noteq> CHR 0x20) (takeWhile (\<lambda>x. x \<noteq> NUL) (line (fw_console f)))
     \<and> line t = []
     \<and> console_service env g (Some c) f
       = map_option (\<lambda>b. \<lparr>fw_board = b, fw_console = t\<rparr>) (run_command env g buf token (fw_board f))"
  using assms by (rule console_service_line)

lemma console_runs_first_word_witness:
  "\<exists>f'. console_service silent_env (\<lambda>_ _. 0) (Some (CHR 0x0D))
      \<lparr>fw_board = board_reset, fw_console = type_in ''reboot now'' console_reset\<rparr> = Some f'
    \<and> history (fw_board f') = [Wr CSR_CTRL_RESET_ADDR 1]"
proof -
  define t where "t = type_in ''reboot now'' console_reset"
  have t: "console_ok t" "line t = ''reboot now''"
    using type_in_refines [OF console_reset_ok, of "''reboot now''"] unfolding t_def [symmetric]
    by (simp_all add: edit_def char_class)
  then have "firmware_ok \<lparr>fw_board = board_reset, fw_console = t\<rparr>"
    using board_reset_facts by (simp add: firmware_ok_def)
  from console_runs_first_word [OF this, of "CHR 0x0D" silent_env "\<lambda>_ _. 0"] obtain buf token t' where
    1: "c_string buf token = ''reboot''" and
    2: "console_service silent_env (\<lambda>_ _. 0) (Some (CHR 0x0D)) \<lparr>fw_board = board_reset, fw_console = t\<rparr>
      = map_option (\<lambda>b. \<lparr>fw_board = b, fw_console = t'\<rparr>) (run_command silent_env (\<lambda>_ _. 0) buf token board_reset)"
    by (auto simp: t is_return_def NUL_def)
  show ?thesis unfolding t_def [symmetric] 2
    by (simp add: run_command_def c_streq_def 1 hw_step_def on_hw_def reboot_cmd_def csr_write_def board_reset_def)
qed

section \<open>The virtual UART\<close>



text \<open>
  C33. Receiving: one run of the polling timer empties the receive FIFO. Its characters are counted and
offered to the SysRq filter in order; exactly those the filter does not take reach the terminal, and
the timer is armed again.
\<close>

lemma uart_timer_empties_fifo:
  assumes "rx_fifo e (membase p) f"
  shows "\<exists>h. liteuart_timer e p = Some (p\<lparr>icount_rx := icount_rx p + of_nat (length (f (ulog p))),
      ulog := ulog p @ h, uart_timer := Some (jiffies e (ulog p @ h) + poll_timeout e (port_timeout p))\<rparr>)
    \<and> f (ulog p @ h) = [] \<and> map fst (offered h) = f (ulog p)
    \<and> inserted h = map fst (filter (\<lambda>x. \<not> snd x) (offered h))"
  using assms by (rule timer_receives)

lemma uart_timer_empties_fifo_witness:
  "\<exists>p' h. liteuart_timer uart0 port0 = Some p' \<and> icount_rx p' = 2 \<and> ulog p' = h \<and> map fst (offered h) = [104, 105]"
proof -
  have "fifo0 [] = [104, 105]" "ulog port0 = []" "icount_rx port0 = 0"
    by (simp_all add: fifo0_def taken_def port0_def zero_port_def)
  then show ?thesis
    using uart_timer_empties_fifo [of uart0 port0 fifo0, unfolded port0_ring(4), OF uart0_fifo] by auto
qed

text \<open>
  C34. Well-formedness of the driver's ids: whatever devices are probed, also when a probe fails at any of
its exits, and removed, every id in use belongs to one live port that carries it as its id and line,
the registered lines are exactly the ids in use, and no port is live without one.
\<close>

lemma uart_ids_well_formed:
  assumes "uart_reach w"
  shows "set (uart_lines w) = dom (uart_ids w) \<and> distinct (uart_lines w)
    \<and> (\<forall>i a. uart_ids w i = Some a \<longrightarrow> i < 2 ^ 32
         \<and> (\<exists>p. uart_heap w a = Some p \<and> uart_id p = of_nat i \<and> port_line p = i))
    \<and> dom (uart_heap w) = ran (uart_ids w)"
  using uart_reach_wf [OF assms] by (simp add: uart_wf_def)

lemma uart_ids_well_formed_witness:
  "uart_lines (snd (snd (liteuart_probe bind0 no_uarts))) = [0]
   \<and> dom (uart_ids (snd (snd (liteuart_probe bind0 no_uarts)))) = {0}"
proof -
  have "uart_reach no_uarts" unfolding no_uarts_def by (rule uart_reach.start)
  moreover have "probe_env_ok bind0 no_uarts" by (rule bind0_ok) (simp add: no_uarts_def)
  ultimately have r: "uart_reach (snd (snd (liteuart_probe bind0 no_uarts)))" by (rule uart_reach.bind)
  have l: "uart_lines (snd (snd (liteuart_probe bind0 no_uarts))) = [0]"
    by (simp add: liteuart_probe_def bind0_def no_uarts_def id_limit_def map_registers_def Let_def
        CONFIG_SERIAL_LITEUART_MAX_PORTS_def resource_type_def IORESOURCE_TYPE_BITS_def IORESOURCE_MEM_def
        IORESOURCE_IO_def IORESOURCE_REG_def)
  show ?thesis using uart_ids_well_formed [OF r] l by simp
qed

text \<open>
The seventeenth port: with all lines in use the id array still hands out 16, because the limit is
inclusive. The serial core refuses the line; the probe returns its error and everything is as before.
\<close>

lemma uart_port_too_many:
  assumes "alias_id pe < 0" and "kzalloc_ret pe \<noteq> 0" and "probe_env_ok pe w"
    and "xa_alloc pe (dom (uart_ids w)) 0 16 = Inr 16"
    and "local_platform_get_mem_or_io (resources pe) 0 = Some r" and "add_one_port pe 16 = - EINVAL"
  shows "id_limit pe = (0, 16) \<and> liteuart_probe pe w = (- EINVAL, None, w)"
  using assms(1) seventeenth_port [OF assms]
  by (simp add: id_limit_def CONFIG_SERIAL_LITEUART_MAX_PORTS_def)

lemma uart_port_too_many_witness:
  "liteuart_probe bind0 (no_uarts\<lparr>uart_ids := [0 \<mapsto> 5]\<rparr>) = (- EINVAL, None, no_uarts\<lparr>uart_ids := [0 \<mapsto> 5]\<rparr>)"
proof -
  let ?w = "no_uarts\<lparr>uart_ids := [0 \<mapsto> 5]\<rparr>"
  have "probe_env_ok bind0 ?w" by (rule bind0_ok) (simp add: no_uarts_def)
  moreover have "local_platform_get_mem_or_io (resources bind0) 0 = Some \<lparr>res_start = 0xf0000000, res_flags = IORESOURCE_MEM\<rparr>"
    by (simp add: bind0_def resource_type_def IORESOURCE_TYPE_BITS_def IORESOURCE_MEM_def IORESOURCE_IO_def)
  ultimately show ?thesis
    using uart_port_too_many [of bind0 ?w] by (simp add: bind0_def)
qed

text \<open>The wide accessors of the LiteX header: what is written into two adjacent registers is read back.\<close>

lemma litex_write_read:
  assumes "stores e r a" and "stores e (r + 4) b"
  shows "fst (litex_read64 e r (litex_write64 e r v p)) = v"
  using assms by (rule litex64_roundtrip)

section \<open>The utilities as programs\<close>

text \<open>A session on the board whose registers keep what is written: waiting is instantaneous.\<close>

definition round0 :: "bool \<Rightarrow> 'w list \<Rightarrow> 'w round_env" where
  "round0 b ws = \<lparr>go_on = b, round_lib = store_lib, memory = (\<lambda>_ _. ws), now = 300, now' = 300\<rparr>"

lemma round0_simps [simp]:
  "go_on (round0 b ws) = b" "round_lib (round0 b ws) = store_lib" "memory (round0 b ws) = (\<lambda>_ _. ws)"
  by (simp_all add: round0_def)










text \<open>
  C39. The command line as a round trip: with a device number and a size printed in decimal and an offset
printed in hexadecimal, \<open>litepcie_util\<close> reads the flash of that device with exactly those numbers.
\<close>

lemma command_line_roundtrip:
  assumes "k < 2 ^ 31" and "n < 2 ^ 32" and "off < 2 ^ 32"
  shows "util_main [(CHR ''c'', to_string (int k))]
      [''flash_read'', filename, to_string (int n), ''0x'' @ show_base 16 off]
    = Parsed (''/dev/litepcie'' @ to_string (int k), Flash_read filename (of_nat n) (of_nat off))"
  using atoi_decimal [OF assms(1)] u32_strtoul(1) [OF assms(2)] u32_strtoul(2) [OF assms(3)]
  by (simp add: util_main_def util_defaults_def util_dispatch_def optional_u32_def device_path_def)

lemma command_line_roundtrip_witness:
  "util_main [(CHR ''c'', ''2'')] [''flash_read'', ''image.bin'', ''4096'', ''0x400000'']
    = Parsed (''/dev/litepcie2'', Flash_read ''image.bin'' 4096 0x400000)"
proof -
  have "to_string (int 2) = ''2''" "to_string (int 4096) = ''4096''" "show_base 16 4194304 = ''400000''"
    by (simp_all add: to_string_def show_base.simps digit_char_def char_of_def bit_0)
  then show ?thesis using command_line_roundtrip [of 2 4096 4194304 "''image.bin''"] by simp
qed


end
